(* ===== verification/PyUnicode.thy ===== *)
theory PyUnicode
  imports Prelude
begin

text \<open>
  The parts of Python's Unicode database that the program's string operations consult, for code
  points as natural numbers: white space (\<open>str.strip\<close>, \<open>str.isspace\<close>), decimal digits
  (\<open>\<backslash>d\<close> in a regular expression and \<open>int\<close> of a string) and the lower-case mapping
  (\<open>str.lower\<close>). The tables are those of Unicode 14, which CPython 3.11 carries.

  \<open>lower_ranges\<close> holds \<open>(first, last, stride, offset)\<close>: every \<open>stride\<close>-th code point from
  \<open>first\<close> to \<open>last\<close> maps to itself plus \<open>offset\<close>. U+0130 is the one code point whose lower
  case has two code points. The word-final form of U+03A3 is not distinguished.
\<close>

definition white_space :: "nat list" where
  "white_space = [
     9, 10, 11, 12, 13, 28, 29, 30, 31, 32, 133, 160, 5760, 8192, 8193, 8194, 8195, 8196, 8197,
     8198, 8199, 8200, 8201, 8202, 8232, 8233, 8239, 8287, 12288]"

definition decimal_zeros :: "nat list" where
  "decimal_zeros = [
     48, 1632, 1776, 1984, 2406, 2534, 2662, 2790, 2918, 3046, 3174, 3302, 3430, 3558, 3664,
     3792, 3872, 4160, 4240, 6112, 6160, 6470, 6608, 6784, 6800, 6992, 7088, 7232, 7248, 42528,
     43216, 43264, 43472, 43504, 43600, 44016, 65296, 66720, 68912, 69734, 69872, 69942, 70096,
     70384, 70736, 70864, 71248, 71360, 71472, 71904, 72016, 72784, 73040, 73120, 92768, 92864,
     93008, 120782, 120792, 120802, 120812, 120822, 123200, 123632, 125264, 130032]"

definition lower_ranges :: "(nat \<times> nat \<times> nat \<times> int) list" where
  "lower_ranges = [
     (192, 214, 1, 32), (216, 222, 1, 32), (256, 302, 2, 1), (306, 310, 2, 1), (313, 327, 2, 1),
     (330, 374, 2, 1), (376, 376, 1, -121), (377, 381, 2, 1), (385, 385, 1, 210),
     (386, 388, 2, 1), (390, 390, 1, 206), (391, 391, 1, 1), (393, 394, 1, 205),
     (395, 395, 1, 1), (398, 398, 1, 79), (399, 399, 1, 202), (400, 400, 1, 203),
     (401, 401, 1, 1), (403, 403, 1, 205), (404, 404, 1, 207), (406, 406, 1, 211),
     (407, 407, 1, 209), (408, 408, 1, 1), (412, 412, 1, 211), (413, 413, 1, 213),
     (415, 415, 1, 214), (416, 420, 2, 1), (422, 422, 1, 218), (423, 423, 1, 1),
     (425, 425, 1, 218), (428, 428, 1, 1), (430, 430, 1, 218), (431, 431, 1, 1),
     (433, 434, 1, 217), (435, 437, 2, 1), (439, 439, 1, 219), (440, 440, 1, 1),
     (444, 444, 1, 1), (452, 452, 1, 2), (453, 453, 1, 1), (455, 455, 1, 2), (456, 456, 1, 1),
     (458, 458, 1, 2), (459, 475, 2, 1), (478, 494, 2, 1), (497, 497, 1, 2), (498, 500, 2, 1),
     (502, 502, 1, -97), (503, 503, 1, -56), (504, 542, 2, 1), (544, 544, 1, -130),
     (546, 562, 2, 1), (570, 570, 1, 10795), (571, 571, 1, 1), (573, 573, 1, -163),
     (574, 574, 1, 10792), (577, 577, 1, 1), (579, 579, 1, -195), (580, 580, 1, 69),
     (581, 581, 1, 71), (582, 590, 2, 1), (880, 882, 2, 1), (886, 886, 1, 1), (895, 895, 1, 116),
     (902, 902, 1, 38), (904, 906, 1, 37), (908, 908, 1, 64), (910, 911, 1, 63),
     (913, 929, 1, 32), (931, 939, 1, 32), (975, 975, 1, 8), (984, 1006, 2, 1),
     (1012, 1012, 1, -60), (1015, 1015, 1, 1), (1017, 1017, 1, -7), (1018, 1018, 1, 1),
     (1021, 1023, 1, -130), (1024, 1039, 1, 80), (1040, 1071, 1, 32), (1120, 1152, 2, 1),
     (1162, 1214, 2, 1), (1216, 1216, 1, 15), (1217, 1229, 2, 1), (1232, 1326, 2, 1),
     (1329, 1366, 1, 48), (4256, 4293, 1, 7264), (4295, 4295, 1, 7264), (4301, 4301, 1, 7264),
     (5024, 5103, 1, 38864), (5104, 5109, 1, 8), (7312, 7354, 1, -3008), (7357, 7359, 1, -3008),
     (7680, 7828, 2, 1), (7838, 7838, 1, -7615), (7840, 7934, 2, 1), (7944, 7951, 1, -8),
     (7960, 7965, 1, -8), (7976, 7983, 1, -8), (7992, 7999, 1, -8), (8008, 8013, 1, -8),
     (8025, 8031, 2, -8), (8040, 8047, 1, -8), (8072, 8079, 1, -8), (8088, 8095, 1, -8),
     (8104, 8111, 1, -8), (8120, 8121, 1, -8), (8122, 8123, 1, -74), (8124, 8124, 1, -9),
     (8136, 8139, 1, -86), (8140, 8140, 1, -9), (8152, 8153, 1, -8), (8154, 8155, 1, -100),
     (8168, 8169, 1, -8), (8170, 8171, 1, -112), (8172, 8172, 1, -7), (8184, 8185, 1, -128),
     (8186, 8187, 1, -126), (8188, 8188, 1, -9), (8486, 8486, 1, -7517), (8490, 8490, 1, -8383),
     (8491, 8491, 1, -8262), (8498, 8498, 1, 28), (8544, 8559, 1, 16), (8579, 8579, 1, 1),
     (9398, 9423, 1, 26), (11264, 11311, 1, 48), (11360, 11360, 1, 1), (11362, 11362, 1, -10743),
     (11363, 11363, 1, -3814), (11364, 11364, 1, -10727), (11367, 11371, 2, 1),
     (11373, 11373, 1, -10780), (11374, 11374, 1, -10749), (11375, 11375, 1, -10783),
     (11376, 11376, 1, -10782), (11378, 11378, 1, 1), (11381, 11381, 1, 1),
     (11390, 11391, 1, -10815), (11392, 11490, 2, 1), (11499, 11501, 2, 1), (11506, 11506, 1, 1),
     (42560, 42604, 2, 1), (42624, 42650, 2, 1), (42786, 42798, 2, 1), (42802, 42862, 2, 1),
     (42873, 42875, 2, 1), (42877, 42877, 1, -35332), (42878, 42886, 2, 1), (42891, 42891, 1, 1),
     (42893, 42893, 1, -42280), (42896, 42898, 2, 1), (42902, 42920, 2, 1),
     (42922, 42922, 1, -42308), (42923, 42923, 1, -42319), (42924, 42924, 1, -42315),
     (42925, 42925, 1, -42305), (42926, 42926, 1, -42308), (42928, 42928, 1, -42258),
     (42929, 42929, 1, -42282), (42930, 42930, 1, -42261), (42931, 42931, 1, 928),
     (42932, 42946, 2, 1), (42948, 42948, 1, -48), (42949, 42949, 1, -42307),
     (42950, 42950, 1, -35384), (42951, 42953, 2, 1), (42960, 42960, 1, 1), (42966, 42968, 2, 1),
     (42997, 42997, 1, 1), (65313, 65338, 1, 32), (66560, 66599, 1, 40), (66736, 66771, 1, 40),
     (66928, 66938, 1, 39), (66940, 66954, 1, 39), (66956, 66962, 1, 39), (66964, 66965, 1, 39),
     (68736, 68786, 1, 64), (71840, 71871, 1, 32), (93760, 93791, 1, 32), (125184, 125217, 1, 34)]"

section \<open>Character predicates\<close>

definition is_space :: "nat \<Rightarrow> bool" where
  "is_space c \<longleftrightarrow> c \<in> set white_space"

definition digit_value :: "nat \<Rightarrow> nat option" where
  "digit_value c = map_option (\<lambda>z. c - z) (find (\<lambda>z. z \<le> c \<and> c < z + 10) decimal_zeros)"

definition lower_high :: "nat \<Rightarrow> nat" where
  "lower_high c =
     (case find (\<lambda>(a, b, s, d). a \<le> c \<and> c \<le> b \<and> (c - a) mod s = 0) lower_ranges of
        None \<Rightarrow> c
      | Some (a, b, s, d) \<Rightarrow> nat (int c + d))"

definition lower_cp :: "nat \<Rightarrow> nat list" where
  "lower_cp c =
     (if c < 128 then [if 65 \<le> c \<and> c \<le> 90 then c + 32 else c]
      else if c = 304 then [105, 775]
      else [lower_high c])"

definition is_alpha_ascii :: "nat \<Rightarrow> bool" where
  "is_alpha_ascii c \<longleftrightarrow> 65 \<le> c \<and> c \<le> 90 \<or> 97 \<le> c \<and> c \<le> 122"

definition is_digit_ascii :: "nat \<Rightarrow> bool" where
  "is_digit_ascii c \<longleftrightarrow> 48 \<le> c \<and> c \<le> 57"

definition is_alnum_ascii :: "nat \<Rightarrow> bool" where
  "is_alnum_ascii c \<longleftrightarrow> is_alpha_ascii c \<or> is_digit_ascii c"

text \<open>A surrogate code point: a Python string may hold one, UTF-8 cannot.\<close>

definition is_surrogate :: "nat \<Rightarrow> bool" where
  "is_surrogate c \<longleftrightarrow> 55296 \<le> c \<and> c \<le> 57343"

lemma digit_value_ascii: "is_digit_ascii c \<Longrightarrow> digit_value c = Some (c - 48)"
  by (simp add: digit_value_def decimal_zeros_def is_digit_ascii_def)

lemma digit_value_bound: "digit_value c = Some d \<Longrightarrow> d < 10"
  by (auto simp: digit_value_def find_Some_iff)

lemma digit_not_space: "is_digit_ascii c \<Longrightarrow> \<not> is_space c"
  by (auto simp: is_space_def white_space_def is_digit_ascii_def)

lemma alnum_not_space: "is_alnum_ascii c \<Longrightarrow> \<not> is_space c"
  by (auto simp: is_space_def white_space_def is_digit_ascii_def is_alpha_ascii_def
      is_alnum_ascii_def)

lemma lower_cp_ascii: "c < 128 \<Longrightarrow> lower_cp c = [if 65 \<le> c \<and> c \<le> 90 then c + 32 else c]"
  by (simp add: lower_cp_def)

end
