(* ===== verification/PyStr.thy ===== *)
theory PyStr
  imports PyUnicode "HOL-Library.Sublist"
begin

text \<open>
  Python strings as lists of code points, with the \<open>str\<close> methods the program calls: \<open>strip\<close>,
  \<open>split\<close> on one character, \<open>partition\<close>/\<open>rpartition\<close>, \<open>lower\<close>, \<open>startswith\<close>, \<open>in\<close>, and the
  decimal formatting of integers. A literal is written \<open>u ''abc''\<close>.
\<close>

type_synonym ustr = "nat list"

definition u :: "string \<Rightarrow> ustr" where
  "u s = map of_char s"

lemma u_inject [simp]: "u s = u t \<longleftrightarrow> s = t"
  by (simp add: u_def inj_map_eq_map inj_def)

lemma u_Nil [simp]: "u [] = []"
  by (simp add: u_def)

lemma u_eq_Nil_iff [simp]: "u s = [] \<longleftrightarrow> s = []" "[] = u s \<longleftrightarrow> s = []"
  by (simp_all add: u_def)

lemma u_append: "u (s @ t) = u s @ u t"
  by (simp add: u_def)

lemma length_u [simp]: "length (u s) = length s"
  by (simp add: u_def)

section \<open>strip\<close>

definition py_lstrip :: "ustr \<Rightarrow> ustr" where
  "py_lstrip s = dropWhile is_space s"

definition py_rstrip :: "ustr \<Rightarrow> ustr" where
  "py_rstrip s = rev (dropWhile is_space (rev s))"

definition py_strip :: "ustr \<Rightarrow> ustr" where
  "py_strip s = py_rstrip (py_lstrip s)"

definition blank :: "ustr \<Rightarrow> bool" where
  "blank s \<longleftrightarrow> py_strip s = []"

definition trimmed :: "ustr \<Rightarrow> bool" where
  "trimmed s \<longleftrightarrow> s = [] \<or> \<not> is_space (hd s) \<and> \<not> is_space (last s)"

lemma py_lstrip_trimmed: "s = [] \<or> \<not> is_space (hd s) \<Longrightarrow> py_lstrip s = s"
  by (cases s) (auto simp: py_lstrip_def)

lemma py_rstrip_trimmed: "s = [] \<or> \<not> is_space (last s) \<Longrightarrow> py_rstrip s = s"
  by (cases s rule: rev_cases) (auto simp: py_rstrip_def)

lemma py_strip_trimmed: "trimmed s \<Longrightarrow> py_strip s = s"
  by (auto simp: py_strip_def trimmed_def py_lstrip_trimmed py_rstrip_trimmed)

lemma py_rstrip_decomp: "\<exists>w. s = py_rstrip s @ w \<and> list_all is_space w"
proof -
  have "rev s = takeWhile is_space (rev s) @ dropWhile is_space (rev s)"
    by simp
  then have "s = py_rstrip s @ rev (takeWhile is_space (rev s))"
    unfolding py_rstrip_def by (metis rev_append rev_rev_ident)
  moreover have "list_all is_space (rev (takeWhile is_space (rev s)))"
    by (auto simp: list_all_iff dest: set_takeWhileD)
  ultimately show ?thesis by blast
qed

lemma trimmed_py_strip [simp]: "trimmed (py_strip s)"
proof (cases "py_strip s = []")
  case True
  then show ?thesis by (simp add: trimmed_def)
next
  case False
  let ?l = "py_lstrip s"
  from False have ne: "dropWhile is_space (rev ?l) \<noteq> []"
    by (simp add: py_strip_def py_rstrip_def)
  then have "\<not> is_space (hd (dropWhile is_space (rev ?l)))"
    by (rule hd_dropWhile)
  with ne have last: "\<not> is_space (last (py_strip s))"
    by (simp add: py_strip_def py_rstrip_def last_rev)
  have "?l \<noteq> []" using False by (auto simp: py_strip_def py_rstrip_def)
  then have hd: "\<not> is_space (hd ?l)"
    unfolding py_lstrip_def by (rule hd_dropWhile)
  obtain w where "?l = py_strip s @ w"
    using py_rstrip_decomp [of ?l] by (auto simp: py_strip_def)
  with False hd have "\<not> is_space (hd (py_strip s))" by (metis hd_append)
  with last show ?thesis by (simp add: trimmed_def)
qed

lemma py_strip_idem [simp]: "py_strip (py_strip s) = py_strip s"
  by (simp add: py_strip_trimmed)

lemma blank_iff: "blank s \<longleftrightarrow> list_all is_space s"
proof -
  have "blank s \<longleftrightarrow> py_lstrip s = [] \<or> list_all is_space (py_lstrip s)"
    by (auto simp: blank_def py_strip_def py_rstrip_def list_all_iff)
  also have "\<dots> \<longleftrightarrow> list_all is_space s"
    by (induction s) (auto simp: py_lstrip_def)
  finally show ?thesis .
qed

lemma py_strip_Nil [simp]: "py_strip [] = []"
  by (simp add: py_strip_def py_lstrip_def py_rstrip_def)

lemma blank_Nil [simp]: "blank []"
  by (simp add: blank_def)

lemma py_strip_eq_self_iff: "py_strip s = s \<longleftrightarrow> trimmed s"
  by (metis py_strip_trimmed trimmed_py_strip)

lemma set_py_strip: "set (py_strip s) \<subseteq> set s"
proof
  fix x
  assume "x \<in> set (py_strip s)"
  then have "x \<in> set (dropWhile is_space s)"
    by (auto simp: py_strip_def py_rstrip_def py_lstrip_def dest: set_dropWhileD)
  then show "x \<in> set s" by (rule set_dropWhileD)
qed

section \<open>split, partition, prefixes\<close>

fun split_on :: "nat \<Rightarrow> ustr \<Rightarrow> ustr list" where
  "split_on c [] = [[]]"
| "split_on c (x # xs) =
     (if x = c then [] # split_on c xs
      else case split_on c xs of [] \<Rightarrow> [[x]] | w # ws \<Rightarrow> (x # w) # ws)"

primrec join_with :: "ustr \<Rightarrow> ustr list \<Rightarrow> ustr" where
  "join_with sep [] = []"
| "join_with sep (w # ws) = (if ws = [] then w else w @ sep @ join_with sep ws)"

definition partition_at :: "nat \<Rightarrow> ustr \<Rightarrow> ustr \<times> bool \<times> ustr" where
  "partition_at c s =
     (takeWhile (\<lambda>x. x \<noteq> c) s, c \<in> set s, drop 1 (dropWhile (\<lambda>x. x \<noteq> c) s))"

definition rpartition_at :: "nat \<Rightarrow> ustr \<Rightarrow> ustr \<times> bool \<times> ustr" where
  "rpartition_at c s =
     (if c \<in> set s
      then (rev (drop 1 (dropWhile (\<lambda>x. x \<noteq> c) (rev s))), True,
            rev (takeWhile (\<lambda>x. x \<noteq> c) (rev s)))
      else ([], False, s))"

definition starts_with :: "ustr \<Rightarrow> ustr \<Rightarrow> bool" where
  "starts_with p s \<longleftrightarrow> take (length p) s = p"

fun occurs_in :: "ustr \<Rightarrow> ustr \<Rightarrow> bool" where
  "occurs_in p [] = (p = [])"
| "occurs_in p (x # xs) = (starts_with p (x # xs) \<or> occurs_in p xs)"

lemma split_on_not_Nil [simp]: "split_on c s \<noteq> []"
  by (cases s) (auto split: list.splits)

lemma join_split_on [simp]: "join_with [c] (split_on c s) = s"
  by (induction s) (auto split: list.splits)

lemma split_on_no_sep: "w \<in> set (split_on c s) \<Longrightarrow> c \<notin> set w"
  by (induction s arbitrary: w) (auto split: list.splits if_splits)

lemma split_on_absent: "c \<notin> set s \<Longrightarrow> split_on c s = [s]"
  by (induction s) auto

lemma split_on_append_sep:
  "c \<notin> set w \<Longrightarrow> split_on c (w @ c # s) = w # split_on c s"
  by (induction w) auto

lemma partition_at_append:
  "c \<notin> set a \<Longrightarrow> partition_at c (a @ c # b) = (a, True, b)"
  by (induction a) (auto simp: partition_at_def)

lemma partition_at_absent:
  assumes "c \<notin> set a"
  shows "partition_at c a = (a, False, [])"
proof -
  have "takeWhile (\<lambda>x. x \<noteq> c) a = a" and "dropWhile (\<lambda>x. x \<noteq> c) a = []"
    using assms by (auto simp: takeWhile_eq_all_conv)
  with assms show ?thesis by (simp only: partition_at_def) simp
qed

lemma starts_with_prefix: "starts_with p s \<longleftrightarrow> prefix p s"
  by (metis append_eq_conv_conj append_take_drop_id prefix_def starts_with_def)

lemma occurs_in_sublist: "occurs_in p s \<longleftrightarrow> sublist p s"
  by (induction s) (auto simp: starts_with_prefix sublist_Cons_right)

section \<open>Case and character classes\<close>

definition py_lower :: "ustr \<Rightarrow> ustr" where
  "py_lower s = concat (map lower_cp s)"

definition is_ascii :: "ustr \<Rightarrow> bool" where
  "is_ascii s \<longleftrightarrow> list_all (\<lambda>c. c < 128) s"

definition all_digits :: "ustr \<Rightarrow> bool" where
  "all_digits s \<longleftrightarrow> s \<noteq> [] \<and> list_all is_digit_ascii s"

text \<open>A Python string that \<open>str.encode("utf-8")\<close> accepts.\<close>

definition valid_unicode :: "ustr \<Rightarrow> bool" where
  "valid_unicode s \<longleftrightarrow> list_all (\<lambda>c. c < 1114112 \<and> \<not> is_surrogate c) s"

lemma py_lower_append [simp]: "py_lower (s @ t) = py_lower s @ py_lower t"
  by (simp add: py_lower_def)

lemma py_lower_ascii_idem: "is_ascii s \<Longrightarrow> py_lower (py_lower s) = py_lower s"
  by (induction s) (auto simp: py_lower_def is_ascii_def lower_cp_def)

lemma py_lower_is_ascii: "is_ascii s \<Longrightarrow> is_ascii (py_lower s)"
  by (induction s) (auto simp: py_lower_def is_ascii_def lower_cp_def)

lemma valid_unicode_append [simp]:
  "valid_unicode (s @ t) \<longleftrightarrow> valid_unicode s \<and> valid_unicode t"
  by (simp add: valid_unicode_def)

lemma valid_unicode_Cons [simp]:
  "valid_unicode (c # s) \<longleftrightarrow> c < 1114112 \<and> \<not> is_surrogate c \<and> valid_unicode s"
  by (simp add: valid_unicode_def)

lemma valid_unicode_Nil [simp]: "valid_unicode []"
  by (simp add: valid_unicode_def)

lemma valid_unicode_ascii: "is_ascii s \<Longrightarrow> valid_unicode s"
  by (induction s) (auto simp: is_ascii_def is_surrogate_def)

section \<open>Decimal integers\<close>

fun str_of_nat :: "nat \<Rightarrow> ustr" where
  "str_of_nat n = (if n < 10 then [48 + n] else str_of_nat (n div 10) @ [48 + n mod 10])"

declare str_of_nat.simps [simp del]

definition str_of_int :: "int \<Rightarrow> ustr" where
  "str_of_int i = (if i < 0 then 45 # str_of_nat (nat (- i)) else str_of_nat (nat i))"

definition zfill :: "nat \<Rightarrow> nat \<Rightarrow> ustr" where
  "zfill w n = replicate (w - length (str_of_nat n)) 48 @ str_of_nat n"

definition nat_of_digits :: "ustr \<Rightarrow> nat" where
  "nat_of_digits s = foldl (\<lambda>a d. 10 * a + (d - 48)) 0 s"

lemma nat_of_digits_snoc [simp]:
  "nat_of_digits (s @ [d]) = 10 * nat_of_digits s + (d - 48)"
  by (simp add: nat_of_digits_def)

lemma nat_of_digits_Nil [simp]: "nat_of_digits [] = 0"
  by (simp add: nat_of_digits_def)

lemma nat_of_digits_str_of_nat [simp]: "nat_of_digits (str_of_nat n) = n"
proof (induction n rule: str_of_nat.induct)
  case (1 n)
  show ?case
  proof (cases "n < 10")
    case True
    then show ?thesis by (simp add: str_of_nat.simps [of n] nat_of_digits_def)
  next
    case False
    with 1 show ?thesis by (simp add: str_of_nat.simps [of n])
  qed
qed

lemma str_of_nat_not_Nil [simp]: "str_of_nat n \<noteq> []"
  by (simp add: str_of_nat.simps [of n])

lemma str_of_nat_digits: "list_all is_digit_ascii (str_of_nat n)"
proof (induction n rule: str_of_nat.induct)
  case (1 n)
  moreover have "is_digit_ascii (48 + n mod 10)"
    using mod_less_divisor [of 10 n] by (simp add: is_digit_ascii_def less_Suc_eq_le [symmetric])
  ultimately show ?case by (auto simp: str_of_nat.simps [of n] is_digit_ascii_def)
qed

lemma all_digits_str_of_nat: "all_digits (str_of_nat n)"
  by (simp add: all_digits_def str_of_nat_digits)

lemma hd_str_of_nat: "0 < n \<Longrightarrow> hd (str_of_nat n) \<noteq> 48"
proof (induction n rule: str_of_nat.induct)
  case (1 n)
  show ?case
  proof (cases "n < 10")
    case True
    with 1 show ?thesis by (simp add: str_of_nat.simps [of n])
  next
    case False
    with 1 have "hd (str_of_nat (n div 10)) \<noteq> 48" by simp
    with False show ?thesis by (simp add: str_of_nat.simps [of n])
  qed
qed

lemma nat_of_digits_leading_zeros [simp]:
  "nat_of_digits (replicate k 48 @ s) = nat_of_digits s"
proof -
  have "foldl (\<lambda>a d. 10 * a + (d - 48)) 0 (replicate k 48) = (0::nat)"
    by (induction k) auto
  then show ?thesis by (simp add: nat_of_digits_def)
qed

lemma nat_of_digits_less: "list_all is_digit_ascii ds \<Longrightarrow> nat_of_digits ds < 10 ^ length ds"
proof (induction ds rule: rev_induct)
  case (snoc d ds)
  then have "d - 48 \<le> 9" "nat_of_digits ds + 1 \<le> 10 ^ length ds" by (auto simp: is_digit_ascii_def)
  then show ?case by simp
qed simp

lemma nat_of_digits_zfill [simp]: "nat_of_digits (zfill w n) = n"
  by (simp add: zfill_def)

lemma length_str_of_nat_le: "n < 10 ^ k \<Longrightarrow> 0 < k \<Longrightarrow> length (str_of_nat n) \<le> k"
proof (induction k arbitrary: n)
  case 0
  then show ?case by simp
next
  case (Suc k)
  show ?case
  proof (cases "n < 10")
    case True
    then show ?thesis by (simp add: str_of_nat.simps [of n])
  next
    case False
    with Suc.prems have k: "0 < k" by (cases k) auto
    from Suc.prems have "n div 10 < 10 ^ k" by (simp add: less_mult_imp_div_less mult.commute)
    with k have "length (str_of_nat (n div 10)) \<le> k" by (rule Suc.IH [rotated])
    with False show ?thesis by (simp add: str_of_nat.simps [of n])
  qed
qed

lemma length_zfill: "n < 10 ^ w \<Longrightarrow> 0 < w \<Longrightarrow> length (zfill w n) = w"
  using length_str_of_nat_le [of n w] by (simp add: zfill_def)

lemma zfill_digits: "list_all is_digit_ascii (zfill w n)"
  using str_of_nat_digits [of n] by (auto simp: zfill_def list_all_iff is_digit_ascii_def)

lemma digits_ascii: "list_all is_digit_ascii s \<Longrightarrow> is_ascii s"
  by (auto simp: list_all_iff is_ascii_def is_digit_ascii_def)

lemma str_of_int_nonneg [simp]: "str_of_int (int n) = str_of_nat n"
  by (simp add: str_of_int_def)

lemma str_of_int_ascii: "is_ascii (str_of_int i)"
  by (auto simp: str_of_int_def is_ascii_def
      intro: digits_ascii [OF str_of_nat_digits, unfolded is_ascii_def])

lemmas str_eval = u_def py_strip_def py_lstrip_def py_rstrip_def is_space_def white_space_def
  py_lower_def lower_cp_def partition_at_def rpartition_at_def starts_with_def blank_def
  is_ascii_def all_digits_def is_digit_ascii_def is_alpha_ascii_def is_alnum_ascii_def
  nat_of_digits_def zfill_def str_of_int_def

declare str_eval [code_eval]

lemma u_strip_example: "py_strip (u ''  visitor-1 '') = u ''visitor-1''"
  by (simp add: str_eval)

end
