(* ===== verification/PyFloat.thy ===== *)
theory PyFloat
  imports Prelude Complex_Main
begin

text \<open>
  Python's \<open>float\<close>: IEEE 754 binary64 with round-to-nearest-even, and \<open>decimal.Decimal\<close> values
  as far as the program converts them to floats. A finite float is a sign, a mantissa and an
  exponent, \<open>(-1)^s * m * 2^e\<close>, in the one canonical form each binary64 value has, so that
  equality of the model's values is equality of the bits. All arithmetic is exact integer
  arithmetic followed by one call of \<open>round_ratio\<close>, as IEEE 754 prescribes.
\<close>

datatype pyfloat = PNaN | PInf bool | PFin bool nat int

datatype pydec = DecFin bool nat int | DecInf bool | DecQNaN | DecSNaN

section \<open>Correct rounding of a ratio of natural numbers\<close>

fun bit_length :: "nat \<Rightarrow> nat" where
  "bit_length n = (if n = 0 then 0 else Suc (bit_length (n div 2)))"

declare bit_length.simps [simp del]

definition scaled :: "nat \<Rightarrow> nat \<Rightarrow> int \<Rightarrow> nat \<times> nat" where
  "scaled num den e =
     (if 0 \<le> e then (num, den * 2 ^ nat e) else (num * 2 ^ nat (- e), den))"

definition binade :: "nat \<Rightarrow> nat \<Rightarrow> int" where
  "binade num den =
     (let e = int (bit_length num) - int (bit_length den) - 53; (n, d) = scaled num den e
      in if n < 2 ^ 53 * d then e else e + 1)"

definition half_even :: "nat \<Rightarrow> nat \<Rightarrow> nat" where
  "half_even n d =
     (let q = n div d; r = n mod d in if d < 2 * r \<or> 2 * r = d \<and> odd q then q + 1 else q)"

definition round_ratio :: "bool \<Rightarrow> nat \<Rightarrow> nat \<Rightarrow> pyfloat" where
  "round_ratio s num den =
     (if num = 0 then PFin s 0 (- 1074)
      else let e = max (- 1074) (binade num den); (n, d) = scaled num den e; m = half_even n d
           in if m = 2 ^ 53 then (if 971 < e + 1 then PInf s else PFin s (2 ^ 52) (e + 1))
              else if 971 < e then PInf s else PFin s m e)"

fun canonical :: "pyfloat \<Rightarrow> bool" where
  "canonical (PFin s m e) =
     (e = - 1074 \<and> m < 2 ^ 53 \<or> - 1074 \<le> e \<and> e \<le> 971 \<and> 2 ^ 52 \<le> m \<and> m < 2 ^ 53)"
| "canonical _ = True"

definition mag :: "nat \<Rightarrow> int \<Rightarrow> real" where
  "mag m e = real m * 2 powi e"

fun fval :: "pyfloat \<Rightarrow> real" where
  "fval (PFin s m e) = (if s then - mag m e else mag m e)"
| "fval _ = 0"

lemma bit_length_bounds: "0 < n \<Longrightarrow> 2 ^ (bit_length n - 1) \<le> n \<and> n < 2 ^ bit_length n"
proof (induction n rule: bit_length.induct)
  case (1 n)
  show ?case
  proof (cases "n div 2 = 0")
    case True
    with "1.prems" have "n = 1" by linarith
    then show ?thesis by (simp add: bit_length.simps)
  next
    case False
    with "1.prems" have IH: "2 ^ (bit_length (n div 2) - 1) \<le> n div 2 \<and> n div 2 < 2 ^ bit_length (n div 2)"
      using "1.IH" by simp
    from False obtain k where k: "bit_length (n div 2) = Suc k"
      by (metis bit_length.simps)
    with IH have "2 ^ k \<le> n div 2" "n div 2 < 2 * 2 ^ k" by simp_all
    then have "2 * 2 ^ k \<le> n" "n < 2 * (2 * 2 ^ k)" by linarith+
    moreover from "1.prems" k have "bit_length n = Suc (Suc k)"
      by (simp add: bit_length.simps [of n])
    ultimately show ?thesis by simp
  qed
qed

lemma bit_length_pos: "0 < n \<Longrightarrow> 0 < bit_length n"
  by (simp add: bit_length.simps [of n])

lemma scaled_ratio:
  assumes "scaled num den e = (n, d)"
  shows "real n / real d = real num / real den / 2 powi e"
  using assms
  by (auto simp: scaled_def power_int_def field_simps split: if_splits)

lemma scaled_pos: "scaled num den e = (n, d) \<Longrightarrow> 0 < den \<Longrightarrow> 0 < d"
  by (auto simp: scaled_def split: if_splits)

lemma powi_2_pos [simp]: "(0::real) < 2 powi e"
  by (simp add: zero_less_power_int)

lemma powi_2_mono: "e \<le> f \<Longrightarrow> (2::real) powi e \<le> 2 powi f"
  by (simp add: power_int_increasing)

lemma powi_2_of_nat: "(2::real) powi int k = 2 ^ k"
  by simp

lemma powi_2_diff: "(2::real) powi a / 2 powi b = 2 powi (a - b)"
  by (simp add: power_int_diff)

lemma powi_2_Suc: "(2::real) powi (e + 1) = 2 * 2 powi e"
  by (simp add: power_int_add)

text \<open>\<open>binade\<close> is the exponent at which the ratio has exactly 53 significant bits.\<close>

lemma binade_bounds:
  assumes "0 < num" "0 < den"
  shows "2 ^ 52 * 2 powi binade num den \<le> real num / real den"
    and "real num / real den < 2 ^ 53 * 2 powi binade num den"
proof -
  let ?x = "real num / real den"
  define e where "e = int (bit_length num) - int (bit_length den) - 53"
  obtain n d where nd: "scaled num den e = (n, d)" by fastforce
  from nd assms have d: "0 < d" by (blast dest: scaled_pos)
  have x: "real n / real d = ?x / 2 powi e" by (rule scaled_ratio [OF nd])
  have num: "2 ^ (bit_length num - 1) \<le> real num" "real num < 2 ^ bit_length num"
    and den: "2 ^ (bit_length den - 1) \<le> real den" "real den < 2 ^ bit_length den"
    using bit_length_bounds [of num] bit_length_bounds [of den] assms
    by (simp_all add: numeral_power_le_of_nat_cancel_iff of_nat_less_numeral_power_cancel_iff)
  let ?bn = "int (bit_length num)" and ?bd = "int (bit_length den)"
  have pn: "(2::real) ^ (bit_length num - 1) = 2 powi (?bn - 1)"
    and pd: "(2::real) ^ (bit_length den - 1) = 2 powi (?bd - 1)"
    using bit_length_pos [of num] bit_length_pos [of den] assms
    by (simp_all flip: powi_2_of_nat add: of_nat_diff)
  have "2 powi (?bn - 1) \<le> real num" "real num < 2 powi ?bn"
    "2 powi (?bd - 1) \<le> real den" "real den < 2 powi ?bd"
    using num(1) [unfolded pn] num(2) den(1) [unfolded pd] den(2) by simp_all
  then have lo: "2 powi (?bn - 1) / 2 powi ?bd \<le> ?x"
    and hi: "?x < 2 powi ?bn / 2 powi (?bd - 1)"
    using assms by (auto intro!: frac_le frac_less simp: less_imp_le)
  have "2 powi (?bn - 1) / 2 powi ?bd = (2::real) powi (52 + e)"
    by (simp only: powi_2_diff, intro arg_cong [where f = "(powi) 2"]) (simp add: e_def)
  also have "\<dots> = 2 ^ 52 * 2 powi e" by (simp add: power_int_add)
  finally have lo: "2 ^ 52 * 2 powi e \<le> ?x" using lo by simp
  have "2 powi ?bn / 2 powi (?bd - 1) = (2::real) powi (54 + e)"
    by (simp only: powi_2_diff, intro arg_cong [where f = "(powi) 2"]) (simp add: e_def)
  also have "\<dots> = 2 ^ 54 * 2 powi e" by (simp add: power_int_add)
  finally have hi: "?x < 2 ^ 54 * 2 powi e" using hi by simp
  have cmp: "n < 2 ^ 53 * d \<longleftrightarrow> ?x < 2 ^ 53 * 2 powi e"
  proof -
    have "n < 2 ^ 53 * d \<longleftrightarrow> real n < 2 ^ 53 * real d"
      by (metis of_nat_less_iff of_nat_mult of_nat_numeral of_nat_power)
    also have "\<dots> \<longleftrightarrow> real n / real d < 2 ^ 53"
      using d by (simp add: divide_less_eq)
    also have "\<dots> \<longleftrightarrow> ?x < 2 ^ 53 * 2 powi e"
      by (simp only: x pos_divide_less_eq [OF powi_2_pos])
    finally show ?thesis .
  qed
  have b: "binade num den = (if n < 2 ^ 53 * d then e else e + 1)"
    by (simp add: binade_def nd flip: e_def)
  show "2 ^ 52 * 2 powi binade num den \<le> ?x"
    using lo cmp b by (auto simp: powi_2_Suc)
  show "?x < 2 ^ 53 * 2 powi binade num den"
    using hi cmp b by (auto simp: powi_2_Suc)
qed

lemma binade_unique:
  assumes "0 < num" "0 < den"
    and "2 ^ 52 * 2 powi e \<le> real num / real den" "real num / real den < 2 ^ 53 * 2 powi e"
  shows "binade num den = e"
proof -
  let ?b = "binade num den"
  have lt: "e1 < e2 + 1" if "2 ^ 52 * 2 powi e1 < 2 ^ 53 * (2::real) powi e2" for e1 e2 :: int
  proof (rule ccontr)
    assume "\<not> e1 < e2 + 1"
    then have "(2::real) powi (e2 + 1) \<le> 2 powi e1" by (intro powi_2_mono) simp
    with that show False by (simp add: powi_2_Suc)
  qed
  have "?b < e + 1"
    by (rule lt) (rule order_le_less_trans [OF binade_bounds(1) [OF assms(1,2)] assms(4)])
  moreover have "e < ?b + 1"
    by (rule lt) (rule order_le_less_trans [OF assms(3) binade_bounds(2) [OF assms(1,2)]])
  ultimately show ?thesis by simp
qed

section \<open>Half-even rounding to a natural number\<close>

lemma half_even_exact: "0 < d \<Longrightarrow> half_even (m * d) d = m"
  by (simp add: half_even_def)

lemma half_even_bounds:
  assumes "0 < d"
  shows "n div d \<le> half_even n d" "half_even n d \<le> n div d + 1"
  by (auto simp: half_even_def Let_def)

lemma half_even_near:
  assumes "0 < d"
  shows "\<bar>real (half_even n d) - real n / real d\<bar> \<le> 1 / 2"
proof -
  let ?q = "n div d" and ?r = "n mod d"
  have "n = ?q * d + ?r" by simp
  then have "real n = real ?q * real d + real ?r" by (metis of_nat_add of_nat_mult)
  with assms have x: "real n / real d = real ?q + real ?r / real d"
    by (simp add: field_simps)
  have "?r < d" using assms by simp
  then have "real ?r < real d" by simp
  moreover have "half_even n d = ?q + 1 \<and> d \<le> 2 * ?r \<or> half_even n d = ?q \<and> 2 * ?r \<le> d"
    by (auto simp: half_even_def Let_def)
  ultimately show ?thesis
    using assms by (auto simp: x abs_le_iff field_simps)
qed

lemma half_even_less: "0 < d \<Longrightarrow> n < k * d \<Longrightarrow> half_even n d \<le> k"
  using half_even_bounds(2) [of d n] less_mult_imp_div_less [of n k d] by simp

lemma half_even_ge: "0 < d \<Longrightarrow> k * d \<le> n \<Longrightarrow> k \<le> half_even n d"
  using half_even_bounds(1) [of d n] div_le_mono [of "k * d" n d] by simp

section \<open>Properties of the rounding\<close>

lemma scaled_mag_eq:
  assumes "scaled num den e = (n, d)" "0 < den" "real num / real den = mag m e"
  shows "n = m * d"
proof -
  have "real n / real d = real m"
    by (simp add: scaled_ratio [OF assms(1)] assms(3) mag_def)
  moreover have "0 < d" using assms by (blast dest: scaled_pos)
  ultimately have "real n = real (m * d)" by (simp add: field_simps)
  then show ?thesis by (simp only: of_nat_eq_iff)
qed

lemma mag_pos: "0 < m \<Longrightarrow> 0 < mag m e"
  by (simp add: mag_def)

text \<open>A ratio that is exactly a float rounds to that float.\<close>

lemma round_ratio_exact:
  assumes can: "canonical (PFin s m e)" and den: "0 < den"
    and x: "real num / real den = mag m e"
  shows "round_ratio s num den = PFin s m e"
proof (cases "m = 0")
  case True
  with x den have "num = 0" by (simp add: mag_def)
  with True can show ?thesis by (auto simp: round_ratio_def)
next
  case False
  with x den have num: "0 < num" by (cases "num = 0") (auto simp: mag_def)
  have m53: "real m < 2 ^ 53" using can by (auto simp: of_nat_less_numeral_power_cancel_iff)
  have e: "max (- 1074) (binade num den) = e"
  proof (cases "2 ^ 52 \<le> m")
    case True
    then have "2 ^ 52 \<le> real m" by (simp add: numeral_power_le_of_nat_cancel_iff)
    with m53 have "binade num den = e"
      by (intro binade_unique num den) (simp_all add: x mag_def)
    with can show ?thesis by auto
  next
    case sub: False
    with can have e: "e = - 1074" by auto
    have "real m < 2 ^ 52" using sub by (simp add: of_nat_less_numeral_power_cancel_iff)
    then have "mag m e < 2 ^ 52 * 2 powi e" by (simp add: mag_def)
    moreover have "2 ^ 52 * 2 powi binade num den \<le> mag m e"
      using binade_bounds(1) [OF num den] by (simp add: x)
    ultimately have "(2::real) powi binade num den < 2 powi e" by simp
    then have "binade num den < e"
      by (metis linorder_not_less powi_2_mono)
    with e show ?thesis by simp
  qed
  obtain n d where nd: "scaled num den e = (n, d)" by fastforce
  with den have d: "0 < d" by (blast dest: scaled_pos)
  have "n = m * d" by (rule scaled_mag_eq [OF nd den x])
  with d have "half_even n d = m" by (simp add: half_even_exact)
  with num e nd can show ?thesis by (auto simp: round_ratio_def Let_def)
qed

lemma round_ratio_canonical:
  assumes den: "0 < den"
  shows "canonical (round_ratio s num den)"
proof (cases "num = 0")
  case True
  then show ?thesis by (simp add: round_ratio_def)
next
  case False
  then have num: "0 < num" by simp
  let ?b = "binade num den"
  define e where "e = max (- 1074) ?b"
  obtain n d where nd: "scaled num den e = (n, d)" by fastforce
  with den have d: "0 < d" by (blast dest: scaled_pos)
  have x: "real n / real d = real num / real den / 2 powi e" by (rule scaled_ratio [OF nd])
  have "(2::real) powi ?b \<le> 2 powi e" by (intro powi_2_mono) (simp add: e_def)
  then have "2 ^ 53 * (2::real) powi ?b \<le> 2 ^ 53 * 2 powi e" by simp
  with binade_bounds(2) [OF num den] have "real num / real den < 2 ^ 53 * 2 powi e"
    by (rule order_less_le_trans)
  then have "real n / real d < 2 ^ 53"
    unfolding x by (simp only: pos_divide_less_eq [OF powi_2_pos])
  with d have "real n < real (2 ^ 53 * d)" by (simp add: divide_less_eq)
  then have "n < 2 ^ 53 * d" by (simp only: of_nat_less_iff)
  with d have up: "half_even n d \<le> 2 ^ 53" by (rule half_even_less)
  have lo: "2 ^ 52 \<le> half_even n d" if "e = ?b"
  proof -
    from binade_bounds(1) [OF num den] that have "2 ^ 52 \<le> real n / real d"
      unfolding x by (simp only: pos_le_divide_eq [OF powi_2_pos])
    with d have "real (2 ^ 52 * d) \<le> real n" by (simp add: le_divide_eq)
    then have "2 ^ 52 * d \<le> n" by (simp only: of_nat_le_iff)
    with d show ?thesis by (rule half_even_ge)
  qed
  have "- 1074 \<le> e" "e = - 1074 \<or> e = ?b" by (auto simp: e_def)
  with up lo have "canonical (if half_even n d = 2 ^ 53
      then (if 971 < e + 1 then PInf s else PFin s (2 ^ 52) (e + 1))
      else if 971 < e then PInf s else PFin s (half_even n d) e)"
    by (auto simp: le_less)
  with False nd show ?thesis by (simp add: round_ratio_def Let_def flip: e_def)
qed

lemma near_scale:
  fixes p :: real
  assumes "0 < p" "\<bar>h - x / p\<bar> \<le> 1 / 2"
  shows "\<bar>h * p - x\<bar> \<le> p / 2"
proof -
  have "h * p - x = (h - x / p) * p" using assms(1) by (simp add: field_simps)
  then have "\<bar>h * p - x\<bar> = \<bar>h - x / p\<bar> * p" using assms(1) by (simp add: abs_mult)
  also have "\<dots> \<le> 1 / 2 * p" using assms by (intro mult_right_mono) simp_all
  finally show ?thesis by simp
qed

text \<open>A finite result is within half a unit in the last place of the ratio.\<close>

lemma round_ratio_near:
  assumes den: "0 < den" and r: "round_ratio s num den = PFin s' m e"
  shows "\<bar>mag m e - real num / real den\<bar> \<le> 2 powi e / 2"
proof (cases "num = 0")
  case True
  with r show ?thesis by (auto simp: round_ratio_def mag_def)
next
  case False
  define e0 where "e0 = max (- 1074) (binade num den)"
  obtain n d where nd: "scaled num den e0 = (n, d)" by fastforce
  with den have d: "0 < d" by (blast dest: scaled_pos)
  let ?h = "half_even n d"
  have x: "real n / real d = real num / real den / 2 powi e0" by (rule scaled_ratio [OF nd])
  have near: "\<bar>mag ?h e0 - real num / real den\<bar> \<le> 2 powi e0 / 2"
    unfolding mag_def using half_even_near [OF d, of n] unfolding x
    by (rule near_scale [OF powi_2_pos])
  from r False nd have "PFin s' m e = (if ?h = 2 ^ 53 then PFin s (2 ^ 52) (e0 + 1) else PFin s ?h e0)"
    by (auto simp: round_ratio_def Let_def simp flip: e0_def split: if_splits)
  then consider "m = ?h" "e = e0" | "?h = 2 ^ 53" "m = 2 ^ 52" "e = e0 + 1"
    by (auto split: if_splits)
  then show ?thesis
  proof cases
    case 1
    with near show ?thesis by simp
  next
    case 2
    then have "mag m e = mag ?h e0" by (simp add: mag_def powi_2_Suc)
    moreover have "(2::real) powi e0 \<le> 2 powi e" using 2 by (intro powi_2_mono) simp
    ultimately show ?thesis using near by simp
  qed
qed

section \<open>Comparison and arithmetic\<close>

definition signed :: "bool \<Rightarrow> nat \<Rightarrow> int" where
  "signed s m = (if s then - int m else int m)"

definition align :: "bool \<Rightarrow> nat \<Rightarrow> int \<Rightarrow> int \<Rightarrow> int" where
  "align s m e k = signed s m * 2 ^ nat (e - k)"

definition round_scaled :: "bool \<Rightarrow> nat \<Rightarrow> int \<Rightarrow> pyfloat" where
  "round_scaled s m e =
     (if 0 \<le> e then round_ratio s (m * 2 ^ nat e) 1 else round_ratio s m (2 ^ nat (- e)))"

fun f_lt :: "pyfloat \<Rightarrow> pyfloat \<Rightarrow> bool" where
  "f_lt (PFin s m e) (PFin s' m' e') =
     (align s m e (min e e') < align s' m' e' (min e e'))"
| "f_lt (PInf s) (PInf s') = (s \<and> \<not> s')"
| "f_lt (PInf s) (PFin _ _ _) = s"
| "f_lt (PFin _ _ _) (PInf s) = (\<not> s)"
| "f_lt _ _ = False"

definition f_le :: "pyfloat \<Rightarrow> pyfloat \<Rightarrow> bool" where
  "f_le a b \<longleftrightarrow> a \<noteq> PNaN \<and> b \<noteq> PNaN \<and> \<not> f_lt b a"

definition f_max :: "pyfloat \<Rightarrow> pyfloat \<Rightarrow> pyfloat" where
  "f_max a b = (if f_lt a b then b else a)"

definition f_min :: "pyfloat \<Rightarrow> pyfloat \<Rightarrow> pyfloat" where
  "f_min a b = (if f_lt b a then b else a)"

fun f_mul :: "pyfloat \<Rightarrow> pyfloat \<Rightarrow> pyfloat" where
  "f_mul (PFin s m e) (PFin s' m' e') = round_scaled (s \<noteq> s') (m * m') (e + e')"
| "f_mul (PInf s) (PInf s') = PInf (s \<noteq> s')"
| "f_mul (PInf s) (PFin s' m e) = (if m = 0 then PNaN else PInf (s \<noteq> s'))"
| "f_mul (PFin s m e) (PInf s') = (if m = 0 then PNaN else PInf (s \<noteq> s'))"
| "f_mul _ _ = PNaN"

fun f_add :: "pyfloat \<Rightarrow> pyfloat \<Rightarrow> pyfloat" where
  "f_add (PFin s m e) (PFin s' m' e') =
     (let k = min e e'; t = align s m e k + align s' m' e' k
      in if t = 0 then PFin (s \<and> s') 0 (- 1074) else round_scaled (t < 0) (nat \<bar>t\<bar>) k)"
| "f_add (PInf s) (PInf s') = (if s = s' then PInf s else PNaN)"
| "f_add (PInf s) (PFin _ _ _) = PInf s"
| "f_add (PFin _ _ _) (PInf s) = PInf s"
| "f_add _ _ = PNaN"

definition f_abs :: "pyfloat \<Rightarrow> pyfloat" where
  "f_abs x = (case x of PFin s m e \<Rightarrow> PFin False m e | PInf s \<Rightarrow> PInf False | PNaN \<Rightarrow> PNaN)"

definition f_is_finite :: "pyfloat \<Rightarrow> bool" where
  "f_is_finite x \<longleftrightarrow> (case x of PFin s m e \<Rightarrow> True | _ \<Rightarrow> False)"

definition f_is_integer :: "pyfloat \<Rightarrow> bool" where
  "f_is_integer x \<longleftrightarrow>
     (case x of PFin s m e \<Rightarrow> 0 \<le> e \<or> m mod 2 ^ nat (- e) = 0 | _ \<Rightarrow> False)"

definition f_zero :: pyfloat where
  "f_zero = PFin False 0 (- 1074)"

text \<open>\<open>float(i)\<close> of an integer raises \<open>OverflowError\<close> (\<open>None\<close>) where it would round to infinity.\<close>

definition f_of_int :: "int \<Rightarrow> pyfloat option" where
  "f_of_int i =
     (case round_ratio (i < 0) (nat \<bar>i\<bar>) 1 of PFin s m e \<Rightarrow> Some (PFin s m e) | _ \<Rightarrow> None)"

text \<open>
  \<open>float(d)\<close> of a decimal goes through its text, so a large one becomes infinite; a signalling
  NaN raises \<open>ValueError\<close> (\<open>None\<close>).
\<close>

definition f_of_decimal :: "pydec \<Rightarrow> pyfloat option" where
  "f_of_decimal d =
     (case d of
        DecFin s c x \<Rightarrow> Some (if 0 \<le> x then round_ratio s (c * 10 ^ nat x) 1
                             else round_ratio s c (10 ^ nat (- x)))
      | DecInf s \<Rightarrow> Some (PInf s)
      | DecQNaN \<Rightarrow> Some PNaN
      | DecSNaN \<Rightarrow> None)"

lemma fval_eq_signed: "fval (PFin s m e) = of_int (signed s m) * 2 powi e"
  by (simp add: signed_def mag_def)

lemma align_val: "k \<le> e \<Longrightarrow> of_int (align s m e k) * 2 powi k = fval (PFin s m e)"
proof -
  assume "k \<le> e"
  then have "(2::real) powi e = 2 ^ nat (e - k) * 2 powi k"
    by (metis diff_add_cancel diff_ge_0_iff_ge int_nat_eq power_int_add powi_2_of_nat
        zero_neq_numeral)
  then show ?thesis by (simp add: fval_eq_signed align_def del: fval.simps)
qed

lemma f_lt_fval:
  "f_lt (PFin s m e) (PFin s' m' e') \<longleftrightarrow> fval (PFin s m e) < fval (PFin s' m' e')"
proof -
  let ?k = "min e e'"
  have "fval (PFin s m e) < fval (PFin s' m' e') \<longleftrightarrow>
      of_int (align s m e ?k) * (2::real) powi ?k < of_int (align s' m' e' ?k) * 2 powi ?k"
    by (simp only: align_val min.cobounded1 min.cobounded2)
  also have "\<dots> \<longleftrightarrow> align s m e ?k < align s' m' e' ?k"
    by (simp only: mult_less_cancel_right_pos [OF powi_2_pos] of_int_less_iff)
  finally show ?thesis by simp
qed

lemma round_scaled_exact:
  "canonical (PFin s m e) \<Longrightarrow> round_scaled s m e = PFin s m e"
  unfolding round_scaled_def
  by (auto intro!: round_ratio_exact simp: mag_def power_int_def field_simps simp del: canonical.simps)

lemma round_scaled_canonical: "canonical (round_scaled s m e)"
  by (simp add: round_scaled_def round_ratio_canonical)

lemma f_mul_canonical: "canonical (f_mul a b)"
  by (cases "(a, b)" rule: f_mul.cases) (auto simp: round_scaled_canonical)

lemma f_add_canonical: "canonical (f_add a b)"
  by (cases "(a, b)" rule: f_add.cases) (auto simp: Let_def round_scaled_canonical)

lemma f_of_int_canonical: "f_of_int i = Some x \<Longrightarrow> canonical x \<and> f_is_finite x"
  using round_ratio_canonical [of 1 "i < 0" "nat \<bar>i\<bar>"]
  by (auto simp: f_of_int_def f_is_finite_def split: pyfloat.splits)

lemma f_max_cases: "f_max a b = a \<or> f_max a b = b"
  by (simp add: f_max_def)

lemma f_le_finite:
  "f_is_finite x \<Longrightarrow> f_is_finite y \<Longrightarrow> f_le x y \<longleftrightarrow> fval x \<le> fval y"
  by (cases x; cases y) (auto simp: f_is_finite_def f_le_def f_lt_fval simp del: f_lt.simps(1) fval.simps(1))

lemma f_lt_finite:
  "f_is_finite x \<Longrightarrow> f_is_finite y \<Longrightarrow> f_lt x y \<longleftrightarrow> fval x < fval y"
  by (cases x; cases y) (auto simp: f_is_finite_def f_lt_fval simp del: f_lt.simps(1) fval.simps(1))

lemma f_max_finite:
  "f_is_finite x \<Longrightarrow> f_is_finite y \<Longrightarrow>
    f_is_finite (f_max x y) \<and> fval (f_max x y) = max (fval x) (fval y)"
  by (simp add: f_max_def f_lt_finite)

lemma fval_f_zero [simp]: "fval f_zero = 0" "f_is_finite f_zero"
  by (simp_all add: f_zero_def mag_def f_is_finite_def)

lemmas float_eval = round_ratio_def scaled_def binade_def bit_length.simps half_even_def
  round_scaled_def align_def signed_def f_le_def f_max_def f_min_def f_abs_def f_is_finite_def
  f_is_integer_def f_zero_def f_of_int_def f_of_decimal_def

lemma round_tenth: "round_ratio False 1 10 = PFin False 7205759403792794 (- 56)"
  by (simp add: float_eval Let_def)

end
