(* ===== verification/PyDict.thy ===== *)
theory PyDict
  imports Prelude
begin

text \<open>
  Python dictionaries: association lists in insertion order, as \<open>dict\<close> keeps them. Storing under
  a key that is present replaces the value in place; a new key goes to the end. The contract the
  callers rely on (what a lookup returns after a store, which keys a store adds, that keys stay
  unique) is the locale \<open>string_table\<close>; its interpretation on the association lists is
  \<open>dict\<close> (facts \<open>dict.look_store\<close> and so on).
\<close>

type_synonym ('k, 'v) pydict = "('k \<times> 'v) list"

fun dict_set :: "'k \<Rightarrow> 'v \<Rightarrow> ('k, 'v) pydict \<Rightarrow> ('k, 'v) pydict" where
  "dict_set k v [] = [(k, v)]"
| "dict_set k v ((k', v') # d) = (if k' = k then (k, v) # d else (k', v') # dict_set k v d)"

definition dict_get :: "('k, 'v) pydict \<Rightarrow> 'k \<Rightarrow> 'v option" where
  "dict_get d k = map_of d k"

definition dict_keys :: "('k, 'v) pydict \<Rightarrow> 'k list" where
  "dict_keys d = map fst d"

definition dict_ok :: "('k, 'v) pydict \<Rightarrow> bool" where
  "dict_ok d \<longleftrightarrow> distinct (map fst d)"

text \<open>\<open>d.pop(k, None)\<close>: the value, if any, and the dictionary without the key.\<close>

definition dict_pop :: "'k \<Rightarrow> ('k, 'v) pydict \<Rightarrow> 'v option \<times> ('k, 'v) pydict" where
  "dict_pop k d = (dict_get d k, filter (\<lambda>p. fst p \<noteq> k) d)"

text \<open>A dictionary built by storing pairs one after the other.\<close>

definition dict_of :: "('k \<times> 'v) list \<Rightarrow> ('k, 'v) pydict" where
  "dict_of ps = foldl (\<lambda>d (k, v). dict_set k v d) [] ps"

section \<open>The contract of a table\<close>

locale string_table =
  fixes look :: "'m \<Rightarrow> 'k \<Rightarrow> 'v option"
    and store :: "'k \<Rightarrow> 'v \<Rightarrow> 'm \<Rightarrow> 'm"
    and keys_of :: "'m \<Rightarrow> 'k list"
    and ok :: "'m \<Rightarrow> bool"
  assumes look_store: "look (store k v m) k' = (if k' = k then Some v else look m k')"
    and keys_look: "k \<in> set (keys_of m) \<longleftrightarrow> look m k \<noteq> None"
    and keys_store: "keys_of (store k v m) = (if look m k = None then keys_of m @ [k] else keys_of m)"
    and ok_store: "ok m \<Longrightarrow> ok (store k v m)"
begin

lemma look_store_same: "look (store k v m) k = Some v"
  by (simp add: look_store)

lemma look_store_other: "k' \<noteq> k \<Longrightarrow> look (store k v m) k' = look m k'"
  by (simp add: look_store)

lemma keys_store_present: "look m k \<noteq> None \<Longrightarrow> keys_of (store k v m) = keys_of m"
  by (simp add: keys_store)

lemma set_keys_store: "set (keys_of (store k v m)) = insert k (set (keys_of m))"
  by (auto simp: keys_store keys_look)

lemma store_twice: "look (store k v (store k w m)) = look (store k v m)"
  by (rule ext) (simp add: look_store)

end

lemma dict_get_set: "dict_get (dict_set k v d) k' = (if k' = k then Some v else dict_get d k')"
  by (induction k v d rule: dict_set.induct) (auto simp: dict_get_def)

lemma dict_keys_get: "k \<in> set (dict_keys d) \<longleftrightarrow> dict_get d k \<noteq> None"
  by (metis dict_get_def dict_keys_def domD domI dom_map_of_conv_image_fst image_set not_None_eq)

lemma dict_keys_set:
  "dict_keys (dict_set k v d) = (if dict_get d k = None then dict_keys d @ [k] else dict_keys d)"
  by (induction k v d rule: dict_set.induct) (auto simp: dict_get_def dict_keys_def)

lemma dict_ok_set: "dict_ok d \<Longrightarrow> dict_ok (dict_set k v d)"
  using dict_keys_set [of k v d] dict_keys_get [of k d]
  by (auto simp: dict_ok_def dict_keys_def split: if_splits)

interpretation dict: string_table dict_get dict_set dict_keys dict_ok
  by unfold_locales (simp_all add: dict_get_set dict_keys_get dict_keys_set dict_ok_set)

section \<open>Consequences used by the components\<close>

lemma dict_set_new: "dict_get d k = None \<Longrightarrow> dict_set k v d = d @ [(k, v)]"
  by (induction k v d rule: dict_set.induct) (auto simp: dict_get_def split: if_splits)

lemma dict_get_Nil [simp]: "dict_get [] k = None"
  by (simp add: dict_get_def)

lemma dict_ok_Nil [simp]: "dict_ok []"
  by (simp add: dict_ok_def)

lemma foldl_dict_set_distinct:
  "distinct (map fst d @ map fst ps) \<Longrightarrow> foldl (\<lambda>d (k, v). dict_set k v d) d ps = d @ ps"
proof (induction ps arbitrary: d)
  case Nil
  then show ?case by simp
next
  case (Cons p ps)
  obtain k v where p: "p = (k, v)" by fastforce
  with Cons.prems have "k \<notin> fst ` set d" by auto
  then have "dict_get d k = None" by (simp add: dict_get_def map_of_eq_None_iff)
  with p Cons show ?case by (simp add: dict_set_new)
qed

lemma dict_of_distinct: "dict_ok ps \<Longrightarrow> dict_of ps = ps"
  using foldl_dict_set_distinct [of "[]" ps] by (simp add: dict_of_def dict_ok_def)

lemma foldl_dict_set_ok: "dict_ok d \<Longrightarrow> dict_ok (foldl (\<lambda>d (k, v). dict_set k v d) d ps)"
  by (induction ps arbitrary: d) (auto simp: dict_ok_set split: prod.splits)

lemma dict_of_ok: "dict_ok (dict_of ps)"
  by (simp add: dict_of_def foldl_dict_set_ok)

lemma dict_pop_get:
  "dict_pop k d = (r, d') \<Longrightarrow> dict_get d' k' = (if k' = k then None else dict_get d k')"
  by (induction d arbitrary: r d') (auto simp: dict_pop_def dict_get_def)

lemma set_dict_set: "set (dict_set k v d) \<subseteq> insert (k, v) (set d)"
  by (induction k v d rule: dict_set.induct) auto

end
