(* ===== verification/PyValue.thy ===== *)
theory PyValue
  imports PyStr PyFloat PyDict
begin

text \<open>
  The Python objects a caller can hand to the SDK. Containers have an identity (\<open>id(value)\<close>) and
  may be shared or cyclic, so they live in a heap: a value either is immediate or is a reference
  to a heap cell. The heap is total: every reference denotes a live object. Any object that is
  none of the kinds the SDK tests for (a \<open>set\<close>, \<open>bytes\<close>, a \<open>datetime\<close>, ...) is \<open>VOther\<close>.
  A subclass instance of \<open>str\<close>, \<open>int\<close> or \<open>float\<close> is represented by its content.
\<close>

type_synonym addr = nat

datatype pyval =
    VNone
  | VBool bool
  | VStr ustr
  | VInt int
  | VFloat pyfloat
  | VDecimal pydec
  | VRef addr
  | VOther nat

datatype pyobj =
    OMapping "(pyval \<times> pyval) list"
  | OList "pyval list"
  | OTuple "pyval list"
  | OObject

type_synonym heap = "addr \<Rightarrow> pyobj"

definition is_str :: "pyval \<Rightarrow> bool" where
  "is_str v \<longleftrightarrow> (case v of VStr _ \<Rightarrow> True | _ \<Rightarrow> False)"

definition str_content :: "pyval \<Rightarrow> ustr" where
  "str_content v = (case v of VStr s \<Rightarrow> s | _ \<Rightarrow> [])"

text \<open>\<open>value or ""\<close> for a value that is \<open>None\<close> or a string.\<close>

definition or_empty :: "pyval \<Rightarrow> ustr" where
  "or_empty v = str_content v"

lemma is_str_iff: "is_str v \<longleftrightarrow> (\<exists>s. v = VStr s)"
  by (cases v) (auto simp: is_str_def)

lemma str_content_VStr [simp]: "str_content (VStr s) = s" "is_str (VStr s)"
  by (simp_all add: str_content_def is_str_def)

end
