(* ===== verification/Context.thy ===== *)
theory Context
  imports PyValue
begin

text \<open>
  \<open>context.py\<close>: visitor identifiers, their extraction from request headers and cookies, and the
  request-local visitor scope on a \<open>contextvars.ContextVar\<close>.

  A context (\<open>ctx\<close>) is one \<open>contextvars.Context\<close>: its identity, the value of \<open>_current\<close> in it and
  the tokens \<open>set\<close> has handed out there. \<open>reset\<close> fails, as in Python, on a token of another context
  or one already used. A \<open>with\<close> block over a scope is \<open>visitor_scope\<close> applied to the block's
  effect, a function that returns any outcome (a value or an exception) and the changed context.
  Several threads and tasks, each with its own context, are the step relation \<open>task_step\<close>.
\<close>

definition VISITOR_HEADER :: ustr where
  "VISITOR_HEADER = u ''X-Cekat-Visitor-ID''"

definition VISITOR_COOKIE :: ustr where
  "VISITOR_COOKIE = u ''_cekat_visitor_id''"

definition normalize_visitor_id :: "pyval \<Rightarrow> ustr option" where
  "normalize_visitor_id value =
     (case value of
        VStr s \<Rightarrow> (let stripped = py_strip s in if stripped = [] then None else Some stripped)
      | _ \<Rightarrow> None)"

section \<open>Extraction\<close>

fun first_cookie_visitor :: "ustr list \<Rightarrow> ustr option" where
  "first_cookie_visitor [] = None"
| "first_cookie_visitor (pair # pairs) =
     (case partition_at 61 pair of (name, separator, value) \<Rightarrow>
        if separator \<and> py_strip name = VISITOR_COOKIE
        then (case normalize_visitor_id (VStr value) of
                Some visitor_id \<Rightarrow> Some visitor_id
              | None \<Rightarrow> first_cookie_visitor pairs)
        else first_cookie_visitor pairs)"

definition visitor_id_from_cookie_header :: "ustr option \<Rightarrow> ustr option" where
  "visitor_id_from_cookie_header cookie_header =
     (case cookie_header of
        None \<Rightarrow> None
      | Some header \<Rightarrow> if header = [] then None else first_cookie_visitor (split_on 59 header))"

fun sort_headers :: "(ustr \<times> ustr) list \<Rightarrow> ustr list \<Rightarrow> ustr list \<Rightarrow> ustr list \<times> ustr list" where
  "sort_headers [] visitor_headers cookie_headers = (visitor_headers, cookie_headers)"
| "sort_headers ((name, value) # items) visitor_headers cookie_headers =
     (let lower = py_lower name in
      if lower = py_lower VISITOR_HEADER then sort_headers items (visitor_headers @ [value]) cookie_headers
      else if lower = u ''cookie'' then sort_headers items visitor_headers (cookie_headers @ [value])
      else sort_headers items visitor_headers cookie_headers)"

definition extract_visitor_id ::
  "(ustr \<times> ustr) list \<Rightarrow> (ustr, pyval) pydict option \<Rightarrow> ustr option" where
  "extract_visitor_id headers cookies =
     (let (visitor_headers, cookie_headers) = sort_headers headers [] []
      in case first_some (\<lambda>value. normalize_visitor_id (VStr value)) visitor_headers of
           Some visitor_id \<Rightarrow> Some visitor_id
         | None \<Rightarrow>
             (case first_some (\<lambda>value. visitor_id_from_cookie_header (Some value)) cookie_headers of
                Some visitor_id \<Rightarrow> Some visitor_id
              | None \<Rightarrow>
                  normalize_visitor_id
                    (case dict_get (case cookies of None \<Rightarrow> [] | Some d \<Rightarrow> d) VISITOR_COOKIE of
                       None \<Rightarrow> VNone
                     | Some v \<Rightarrow> v)))"

lemma normalize_visitor_id_Some:
  "normalize_visitor_id v = Some t \<longleftrightarrow> (\<exists>s. v = VStr s \<and> t = py_strip s \<and> t \<noteq> [])"
  by (cases v) (auto simp: normalize_visitor_id_def Let_def)

lemma normalize_visitor_id_None:
  "normalize_visitor_id v = None \<longleftrightarrow> (\<forall>s. v = VStr s \<longrightarrow> blank s)"
  by (cases v) (auto simp: normalize_visitor_id_def Let_def blank_def)

lemma normalize_visitor_id_trimmed:
  "normalize_visitor_id v = Some t \<Longrightarrow> trimmed t \<and> t \<noteq> []"
  by (auto simp: normalize_visitor_id_Some)

lemma normalize_visitor_id_idem:
  "normalize_visitor_id v = Some t \<Longrightarrow> normalize_visitor_id (VStr t) = Some t"
  by (auto simp: normalize_visitor_id_Some)

text \<open>What the scan of a cookie header looks at: the values of the pairs named like the cookie.\<close>

definition cookie_values :: "ustr \<Rightarrow> ustr list" where
  "cookie_values header =
     map (\<lambda>pair. snd (snd (partition_at 61 pair)))
       (filter (\<lambda>pair. fst (snd (partition_at 61 pair)) \<and>
          py_strip (fst (partition_at 61 pair)) = VISITOR_COOKIE) (split_on 59 header))"

definition header_values :: "ustr \<Rightarrow> (ustr \<times> ustr) list \<Rightarrow> ustr list" where
  "header_values name headers = map snd (filter (\<lambda>h. py_lower (fst h) = name) headers)"

definition visitor_candidates ::
  "(ustr \<times> ustr) list \<Rightarrow> (ustr, pyval) pydict option \<Rightarrow> pyval list" where
  "visitor_candidates headers cookies =
     map VStr (header_values (py_lower VISITOR_HEADER) headers) @
     map VStr (concat (map cookie_values (header_values (u ''cookie'') headers))) @
     (case cookies of None \<Rightarrow> [] | Some d \<Rightarrow>
        (case dict_get d VISITOR_COOKIE of None \<Rightarrow> [] | Some v \<Rightarrow> [v]))"

lemma first_cookie_visitor_eq:
  "first_cookie_visitor pairs =
     first_some (\<lambda>v. normalize_visitor_id (VStr v))
       (map (\<lambda>pair. snd (snd (partition_at 61 pair)))
         (filter (\<lambda>pair. fst (snd (partition_at 61 pair)) \<and>
            py_strip (fst (partition_at 61 pair)) = VISITOR_COOKIE) pairs))"
  by (induction pairs) (auto split: prod.splits option.splits)

lemma cookie_values_Nil [simp]: "cookie_values [] = []"
  by (simp add: cookie_values_def partition_at_def)

lemma visitor_id_from_cookie_header_eq:
  "visitor_id_from_cookie_header (Some header) =
     first_some (\<lambda>v. normalize_visitor_id (VStr v)) (cookie_values header)"
  by (auto simp: visitor_id_from_cookie_header_def first_cookie_visitor_eq cookie_values_def
      partition_at_def)

lemma header_lower_distinct: "py_lower VISITOR_HEADER \<noteq> u ''cookie''"
  by (simp add: VISITOR_HEADER_def py_lower_def lower_cp_def u_def)

lemma sort_headers_eq:
  "sort_headers headers vs cs =
     (vs @ header_values (py_lower VISITOR_HEADER) headers, cs @ header_values (u ''cookie'') headers)"
proof (induction headers arbitrary: vs cs)
  case Nil
  then show ?case by (simp add: header_values_def)
next
  case (Cons h headers)
  obtain n v where "h = (n, v)" by fastforce
  then show ?case using Cons.IH header_lower_distinct
    by (auto simp: header_values_def Let_def)
qed

text \<open>Extraction is the first nonblank candidate, in the order header, raw cookie, parsed cookie.\<close>

lemma extract_visitor_id_eq:
  "extract_visitor_id headers cookies = first_some normalize_visitor_id (visitor_candidates headers cookies)"
  by (cases cookies)
    (auto simp: extract_visitor_id_def visitor_candidates_def sort_headers_eq
      visitor_id_from_cookie_header_eq first_some_append first_some_map comp_def first_some_concat
      normalize_visitor_id_None split: option.splits)

section \<open>The context variable and visitor scopes\<close>

record ctx =
  cx_id :: nat
  cv_current :: "ustr option"
  tok_next :: nat
  tok_used :: "nat set"

record token =
  tk_ctx :: nat
  tk_id :: nat
  tk_old :: "ustr option"

datatype reset_error = TokenUsed | TokenOfOtherContext

definition fresh_ctx :: "nat \<Rightarrow> ustr option \<Rightarrow> ctx" where
  "fresh_ctx i v = \<lparr>cx_id = i, cv_current = v, tok_next = 0, tok_used = {}\<rparr>"

definition current_visitor_id :: "ctx \<Rightarrow> ustr option" where
  "current_visitor_id c = cv_current c"

definition ctx_set :: "ustr option \<Rightarrow> ctx \<Rightarrow> token \<times> ctx" where
  "ctx_set v c =
     (\<lparr>tk_ctx = cx_id c, tk_id = tok_next c, tk_old = cv_current c\<rparr>,
      c\<lparr>cv_current := v, tok_next := tok_next c + 1\<rparr>)"

definition ctx_reset :: "token \<Rightarrow> ctx \<Rightarrow> reset_error + ctx" where
  "ctx_reset t c =
     (if tk_id t \<in> tok_used c then Inl TokenUsed
      else if tk_ctx t \<noteq> cx_id c then Inl TokenOfOtherContext
      else Inr (c\<lparr>cv_current := tk_old t, tok_used := insert (tk_id t) (tok_used c)\<rparr>))"

definition scope_enter :: "pyval \<Rightarrow> ctx \<Rightarrow> token \<times> ctx" where
  "scope_enter visitor_id c = ctx_set (normalize_visitor_id visitor_id) c"

definition scope_exit :: "token \<Rightarrow> ctx \<Rightarrow> reset_error + ctx" where
  "scope_exit t c = ctx_reset t c"

text \<open>
  \<open>with visitor_scope(v): body\<close>. The body ends with any outcome \<open>'r\<close> (a returned value or an
  exception, including a cancellation) and the \<open>finally\<close> clause runs in every case; an error of
  \<open>reset\<close> would replace the body's outcome.
\<close>

definition visitor_scope ::
  "pyval \<Rightarrow> (ctx \<Rightarrow> 'r \<times> ctx) \<Rightarrow> ctx \<Rightarrow> (reset_error + 'r) \<times> ctx" where
  "visitor_scope visitor_id body c =
     (let (t, c1) = scope_enter visitor_id c; (r, c2) = body c1
      in case scope_exit t c2 of Inl e \<Rightarrow> (Inl e, c2) | Inr c3 \<Rightarrow> (Inr r, c3))"

definition opt_val :: "ustr option \<Rightarrow> pyval" where
  "opt_val v = (case v of None \<Rightarrow> VNone | Some s \<Rightarrow> VStr s)"

definition visitor_from_request ::
  "(ustr \<times> ustr) list \<Rightarrow> (ustr, pyval) pydict option \<Rightarrow> (ctx \<Rightarrow> 'r \<times> ctx) \<Rightarrow> ctx
     \<Rightarrow> (reset_error + 'r) \<times> ctx" where
  "visitor_from_request headers cookies body c =
     visitor_scope (opt_val (extract_visitor_id headers cookies)) body c"

text \<open>
  A body plays by the rules of \<open>contextvars\<close>: it stays in its context and neither uses nor forgets
  tokens issued before it started. It may change the current visitor in any way.
\<close>

definition disciplined :: "(ctx \<Rightarrow> 'r \<times> ctx) \<Rightarrow> bool" where
  "disciplined body \<longleftrightarrow>
     (\<forall>c. cx_id (snd (body c)) = cx_id c \<and> tok_next c \<le> tok_next (snd (body c)) \<and>
        (\<forall>i<tok_next c. i \<in> tok_used (snd (body c)) \<longleftrightarrow> i \<in> tok_used c))"

definition ctx_ok :: "ctx \<Rightarrow> bool" where
  "ctx_ok c \<longleftrightarrow> (\<forall>i\<in>tok_used c. i < tok_next c)"

lemma normalize_opt_extract:
  "normalize_visitor_id (opt_val (extract_visitor_id headers cookies)) = extract_visitor_id headers cookies"
proof (cases "extract_visitor_id headers cookies")
  case None
  then show ?thesis by (simp add: opt_val_def normalize_visitor_id_def)
next
  case (Some t)
  then obtain v where "normalize_visitor_id v = Some t"
    by (auto simp: extract_visitor_id_eq dest: first_some_SomeD)
  with Some show ?thesis by (simp add: opt_val_def normalize_visitor_id_idem)
qed

text \<open>The body starts with the scope's visitor, and the visitor of before is back at the end.\<close>

lemma visitor_scope_eq:
  assumes "ctx_ok c" "disciplined body"
  shows "visitor_scope v body c =
    (let (r, c2) = body (snd (scope_enter v c))
     in (Inr r, c2\<lparr>cv_current := cv_current c, tok_used := insert (tok_next c) (tok_used c2)\<rparr>))"
proof -
  let ?c1 = "snd (scope_enter v c)"
  obtain r c2 where b: "body ?c1 = (r, c2)" by fastforce
  from assms(2) have "cx_id c2 = cx_id ?c1 \<and> (\<forall>i<tok_next ?c1. i \<in> tok_used c2 \<longleftrightarrow> i \<in> tok_used ?c1)"
    unfolding disciplined_def using b by (metis snd_conv)
  with assms(1) have "cx_id c2 = cx_id c" "tok_next c \<notin> tok_used c2"
    by (auto simp: scope_enter_def ctx_set_def ctx_ok_def)
  with b show ?thesis
    by (simp add: visitor_scope_def scope_enter_def ctx_set_def scope_exit_def ctx_reset_def)
qed

lemma disciplined_visitor_scope:
  assumes "disciplined body"
  shows "disciplined (visitor_scope v body)"
  unfolding disciplined_def
proof (intro allI)
  fix c
  let ?c1 = "snd (scope_enter v c)"
  obtain r c2 where b: "body ?c1 = (r, c2)" by fastforce
  from assms have d: "cx_id c2 = cx_id ?c1" "tok_next ?c1 \<le> tok_next c2"
    "\<And>i. i < tok_next ?c1 \<Longrightarrow> i \<in> tok_used c2 \<longleftrightarrow> i \<in> tok_used ?c1"
    unfolding disciplined_def using b by (metis snd_conv)+
  then show "cx_id (snd (visitor_scope v body c)) = cx_id c \<and>
      tok_next c \<le> tok_next (snd (visitor_scope v body c)) \<and>
      (\<forall>i<tok_next c. (i \<in> tok_used (snd (visitor_scope v body c))) = (i \<in> tok_used c))"
    using b by (auto simp: visitor_scope_def scope_enter_def ctx_set_def scope_exit_def
        ctx_reset_def)
qed

section \<open>The contract the framework integrations rely on\<close>

text \<open>
  An operation that serves one request \<open>q\<close> in a scope: the handler starts with the request's
  visitor current and, whatever it does, the visitor of before is current afterwards.
\<close>

definition good_body :: "(ctx \<Rightarrow> 'r \<times> ctx) \<Rightarrow> bool" where
  "good_body body \<longleftrightarrow> disciplined body \<and> (\<forall>c. ctx_ok c \<longrightarrow> ctx_ok (snd (body c)))"

text \<open>One worker that serves requests one after the other in the same context.\<close>

primrec serve_all ::
  "('q \<Rightarrow> (ctx \<Rightarrow> 'r \<times> ctx) \<Rightarrow> ctx \<Rightarrow> (reset_error + 'r) \<times> ctx)
     \<Rightarrow> ('q \<times> (ctx \<Rightarrow> 'r \<times> ctx)) list \<Rightarrow> ctx \<Rightarrow> (reset_error + 'r) list \<times> ctx" where
  "serve_all scoped [] c = ([], c)"
| "serve_all scoped (x # xs) c =
     (let (r, c1) = scoped (fst x) (snd x) c; (rs, c2) = serve_all scoped xs c1 in (r # rs, c2))"

locale request_scoping =
  fixes scoped :: "'q \<Rightarrow> (ctx \<Rightarrow> 'r \<times> ctx) \<Rightarrow> ctx \<Rightarrow> (reset_error + 'r) \<times> ctx"
    and visitor_of :: "'q \<Rightarrow> ustr option"
  assumes scoped_runs: "ctx_ok c \<Longrightarrow> good_body body \<Longrightarrow>
      \<exists>c1. current_visitor_id c1 = visitor_of q \<and> fst (scoped q body c) = Inr (fst (body c1))"
    and scoped_restores: "ctx_ok c \<Longrightarrow> good_body body \<Longrightarrow>
      current_visitor_id (snd (scoped q body c)) = current_visitor_id c"
    and scoped_good: "good_body body \<Longrightarrow> good_body (scoped q body)"
begin

lemma scoped_ok: "ctx_ok c \<Longrightarrow> good_body body \<Longrightarrow> ctx_ok (snd (scoped q body c))"
  using scoped_good by (simp add: good_body_def)

lemma serve_all_restores:
  "ctx_ok c \<Longrightarrow> \<forall>x\<in>set xs. good_body (snd x) \<Longrightarrow>
    current_visitor_id (snd (serve_all scoped xs c)) = current_visitor_id c"
proof (induction xs arbitrary: c)
  case Nil
  then show ?case by simp
next
  case (Cons x xs)
  let ?c1 = "snd (scoped (fst x) (snd x) c)"
  have "ctx_ok ?c1" "current_visitor_id ?c1 = current_visitor_id c"
    using Cons.prems scoped_ok scoped_restores by simp_all
  with Cons.IH [of ?c1] Cons.prems(2) show ?case by (simp add: case_prod_beta)
qed

lemma serve_all_results:
  assumes "ctx_ok c" "\<forall>x\<in>set xs. good_body (snd x)"
    and "\<And>q body c. (q, body) \<in> set xs \<Longrightarrow> fst (body c) = f q (current_visitor_id c)"
  shows "fst (serve_all scoped xs c) = map (\<lambda>x. Inr (f (fst x) (visitor_of (fst x)))) xs"
  using assms
proof (induction xs arbitrary: c)
  case Nil
  then show ?case by simp
next
  case (Cons x xs)
  obtain q body where x: "x = (q, body)" by fastforce
  let ?c1 = "snd (scoped q body c)"
  from Cons.prems(2) x have g: "good_body body" by simp
  obtain c0 where "current_visitor_id c0 = visitor_of q"
    "fst (scoped q body c) = Inr (fst (body c0))"
    using scoped_runs [OF Cons.prems(1) g, of q] by auto
  moreover have "fst (body c0) = f q (current_visitor_id c0)"
    using Cons.prems(3) [of q body] x by simp
  moreover have "fst (serve_all scoped xs ?c1) = map (\<lambda>x. Inr (f (fst x) (visitor_of (fst x)))) xs"
    using Cons.prems scoped_ok [OF Cons.prems(1) g] by (intro Cons.IH) auto
  ultimately show ?case using x by (simp add: case_prod_beta)
qed

end

lemma ctx_ok_scope_enter: "ctx_ok c \<Longrightarrow> ctx_ok (snd (scope_enter v c))"
  by (auto simp: ctx_ok_def scope_enter_def ctx_set_def)

lemma current_scope_enter:
  "current_visitor_id (snd (scope_enter v c)) = normalize_visitor_id v"
  by (simp add: current_visitor_id_def scope_enter_def ctx_set_def)

lemma good_visitor_scope:
  assumes "good_body body"
  shows "good_body (visitor_scope v body)"
proof -
  have d: "disciplined body" using assms by (simp add: good_body_def)
  have "ctx_ok (snd (visitor_scope v body c))" if ok: "ctx_ok c" for c
  proof -
    let ?c1 = "snd (scope_enter v c)"
    obtain r c2 where b: "body ?c1 = (r, c2)" by fastforce
    with assms ok have "ctx_ok c2" by (metis ctx_ok_scope_enter good_body_def snd_conv)
    moreover from d b have "tok_next ?c1 \<le> tok_next c2"
      unfolding disciplined_def by (metis snd_conv)
    then have "tok_next c < tok_next c2" by (simp add: scope_enter_def ctx_set_def)
    ultimately show ?thesis using b by (simp add: visitor_scope_eq [OF ok d] ctx_ok_def)
  qed
  with d show ?thesis by (simp add: good_body_def disciplined_visitor_scope)
qed

lemma visitor_scope_runs:
  assumes "ctx_ok c" "good_body body"
  shows "\<exists>c1. current_visitor_id c1 = normalize_visitor_id v \<and>
    fst (visitor_scope v body c) = Inr (fst (body c1))"
  using assms
  by (intro exI [where x = "snd (scope_enter v c)"])
    (simp add: current_scope_enter visitor_scope_eq good_body_def case_prod_beta)

lemma visitor_scope_restores:
  "ctx_ok c \<Longrightarrow> good_body body \<Longrightarrow>
    current_visitor_id (snd (visitor_scope v body c)) = current_visitor_id c"
  by (simp add: visitor_scope_eq good_body_def current_visitor_id_def case_prod_beta)

interpretation scope: request_scoping visitor_scope normalize_visitor_id
  by unfold_locales (fact visitor_scope_runs visitor_scope_restores good_visitor_scope)+

interpretation request: request_scoping
  "\<lambda>(headers, cookies). visitor_from_request headers cookies"
  "\<lambda>(headers, cookies). extract_visitor_id headers cookies"
proof (unfold_locales, goal_cases)
  case (1 c body q)
  then show ?case
    using scope.scoped_runs [of c body "opt_val (extract_visitor_id (fst q) (snd q))"]
    by (simp add: case_prod_beta visitor_from_request_def normalize_opt_extract)
next
  case (2 c body q)
  then show ?case
    by (simp add: case_prod_beta visitor_from_request_def scope.scoped_restores)
next
  case (3 body q)
  then show ?case
    using scope.scoped_good by (simp add: case_prod_beta visitor_from_request_def [abs_def])
qed

section \<open>Threads and tasks\<close>

record task =
  t_ctx :: ctx
  t_scopes :: "(token \<times> ustr option) list"
  t_base :: "ustr option"

type_synonym tasks = "nat \<Rightarrow> task option"

definition new_task :: "nat \<Rightarrow> ustr option \<Rightarrow> task" where
  "new_task i v = \<lparr>t_ctx = fresh_ctx i v, t_scopes = [], t_base = v\<rparr>"

text \<open>
  A thread starts with an empty context, a task with a copy of its creator's. Between steps of one
  task any other may run.
\<close>

inductive task_step :: "tasks \<Rightarrow> tasks \<Rightarrow> bool" where
  enter: "s i = Some t \<Longrightarrow> scope_enter v (t_ctx t) = (tok, c) \<Longrightarrow>
     task_step s (s(i \<mapsto> t\<lparr>t_ctx := c, t_scopes := (tok, normalize_visitor_id v) # t_scopes t\<rparr>))"
| exit: "s i = Some t \<Longrightarrow> t_scopes t = (tok, v) # rest \<Longrightarrow> scope_exit tok (t_ctx t) = Inr c \<Longrightarrow>
     task_step s (s(i \<mapsto> t\<lparr>t_ctx := c, t_scopes := rest\<rparr>))"
| create_task: "s i = Some t \<Longrightarrow> s j = None \<Longrightarrow>
     task_step s (s(j \<mapsto> new_task j (current_visitor_id (t_ctx t))))"
| start_thread: "s j = None \<Longrightarrow> task_step s (s(j \<mapsto> new_task j None))"

inductive reachable_tasks :: "tasks \<Rightarrow> bool" where
  start: "reachable_tasks [0 \<mapsto> new_task 0 None]"
| step: "reachable_tasks s \<Longrightarrow> task_step s s' \<Longrightarrow> reachable_tasks s'"

definition visible :: "ustr option \<Rightarrow> (token \<times> ustr option) list \<Rightarrow> ustr option" where
  "visible base scopes = (case scopes of [] \<Rightarrow> base | (tok, v) # _ \<Rightarrow> v)"

fun scope_chain :: "ustr option \<Rightarrow> (token \<times> ustr option) list \<Rightarrow> bool" where
  "scope_chain base [] = True"
| "scope_chain base ((tok, v) # ss) = (tk_old tok = visible base ss \<and> scope_chain base ss)"

definition task_ok :: "task \<Rightarrow> bool" where
  "task_ok t \<longleftrightarrow>
     cv_current (t_ctx t) = visible (t_base t) (t_scopes t) \<and>
     scope_chain (t_base t) (t_scopes t) \<and>
     distinct (map (tk_id \<circ> fst) (t_scopes t)) \<and>
     ctx_ok (t_ctx t) \<and>
     list_all (\<lambda>(tok, v). tk_ctx tok = cx_id (t_ctx t) \<and> tk_id tok \<notin> tok_used (t_ctx t) \<and>
        tk_id tok < tok_next (t_ctx t)) (t_scopes t)"

lemma task_ok_new: "task_ok (new_task i v)"
  by (simp add: task_ok_def new_task_def fresh_ctx_def visible_def ctx_ok_def)

lemma task_ok_enter:
  assumes "task_ok t" "scope_enter v (t_ctx t) = (tok, c)"
  shows "task_ok (t\<lparr>t_ctx := c, t_scopes := (tok, normalize_visitor_id v) # t_scopes t\<rparr>)"
  using assms
  by (auto simp: task_ok_def scope_enter_def ctx_set_def visible_def ctx_ok_def list_all_iff
      less_Suc_eq)

lemma task_ok_exit:
  assumes "task_ok t" "t_scopes t = (tok, v) # rest"
  shows "\<exists>c. scope_exit tok (t_ctx t) = Inr c \<and> cv_current c = visible (t_base t) rest \<and>
    task_ok (t\<lparr>t_ctx := c, t_scopes := rest\<rparr>)"
  using assms
  by (force simp: task_ok_def scope_exit_def ctx_reset_def ctx_ok_def list_all_iff)

lemma task_step_ok:
  "task_step s s' \<Longrightarrow> (\<And>i t. s i = Some t \<Longrightarrow> task_ok t) \<Longrightarrow> s' j = Some t' \<Longrightarrow> task_ok t'"
proof (induction rule: task_step.induct)
  case (enter s i t v tok c)
  then show ?case by (cases "j = i") (auto intro: task_ok_enter)
next
  case (exit s i t tok v rest c)
  then show ?case using task_ok_exit [of t tok v rest] by (cases "j = i") auto
next
  case (create_task s i t j')
  then show ?case by (auto simp: task_ok_new split: if_splits)
next
  case (start_thread s j')
  then show ?case by (auto simp: task_ok_new split: if_splits)
qed

lemma reachable_task_ok: "reachable_tasks s \<Longrightarrow> s i = Some t \<Longrightarrow> task_ok t"
proof (induction arbitrary: i t rule: reachable_tasks.induct)
  case start
  then show ?case by (auto simp: task_ok_new split: if_splits)
next
  case (step s s')
  then show ?case by (blast intro: task_step_ok)
qed

section \<open>Properties\<close>

text \<open>
  The visitor of a request is the first candidate that is a nonblank string, stripped, where
  the candidates are the values of the visitor header, then those of the visitor cookie in the raw
  Cookie headers, then the parsed cookie.
\<close>

theorem extraction_order:
  "extract_visitor_id headers cookies =
     first_some normalize_visitor_id (visitor_candidates headers cookies)"
  by (rule extract_visitor_id_eq)

text \<open>
  C7: a \<open>with visitor_scope(v)\<close> block runs its body with the normalized visitor current, passes the
  body's outcome on whatever it is, and leaves the visitor of before current.
\<close>

theorem scope_restores:
  assumes "ctx_ok c" "good_body body"
  shows "current_visitor_id (snd (scope_enter v c)) = normalize_visitor_id v \<and>
    fst (visitor_scope v body c) = Inr (fst (body (snd (scope_enter v c)))) \<and>
    current_visitor_id (snd (visitor_scope v body c)) = current_visitor_id c \<and>
    ctx_ok (snd (visitor_scope v body c))"
  using assms scope.scoped_restores [OF assms] scope.scoped_ok [OF assms]
  by (simp add: current_scope_enter visitor_scope_eq good_body_def case_prod_beta)

lemma good_body_reader: "good_body (\<lambda>c. (f (current_visitor_id c), c))"
  by (simp add: good_body_def disciplined_def)

lemma ctx_ok_fresh: "ctx_ok (fresh_ctx i v)"
  by (simp add: ctx_ok_def fresh_ctx_def)

theorem scope_restores_witness:
  "fst (visitor_scope (VStr (u '' v1 '')) (\<lambda>c. (current_visitor_id c, c)) (fresh_ctx 0 (Some (u ''v0'')))) =
     Inr (Some (u ''v1'')) \<and>
   current_visitor_id (snd (visitor_scope (VStr (u '' v1 '')) (\<lambda>c. (current_visitor_id c, c))
     (fresh_ctx 0 (Some (u ''v0''))))) = Some (u ''v0'')"
proof -
  have n: "normalize_visitor_id (VStr (u '' v1 '')) = Some (u ''v1'')"
    by (simp add: normalize_visitor_id_def str_eval)
  note t = scope_restores [OF ctx_ok_fresh good_body_reader [of "\<lambda>x. x"],
      of "VStr (u '' v1 '')" 0 "Some (u ''v0'')"]
  have f: "current_visitor_id (fresh_ctx 0 (Some (u ''v0''))) = Some (u ''v0'')"
    by (simp add: current_visitor_id_def fresh_ctx_def)
  show ?thesis using t by (simp add: n f)
qed

text \<open>
  C8: in every reachable state of any number of threads and tasks, however their steps interleave,
  the current visitor of a task is that of its innermost open scope (or the one it started with),
  and closing that scope succeeds and brings back the visitor of the enclosing one.
\<close>

theorem reachable_scopes:
  assumes "reachable_tasks s" "s i = Some t"
  shows "current_visitor_id (t_ctx t) = visible (t_base t) (t_scopes t) \<and>
    (\<forall>tok v rest. t_scopes t = (tok, v) # rest \<longrightarrow>
      (\<exists>c. scope_exit tok (t_ctx t) = Inr c \<and> current_visitor_id c = visible (t_base t) rest))"
proof -
  have ok: "task_ok t" by (rule reachable_task_ok [OF assms])
  then have "current_visitor_id (t_ctx t) = visible (t_base t) (t_scopes t)"
    by (simp add: task_ok_def current_visitor_id_def)
  moreover have "\<exists>c. scope_exit tok (t_ctx t) = Inr c \<and> current_visitor_id c = visible (t_base t) rest"
    if "t_scopes t = (tok, v) # rest" for tok v rest
    using task_ok_exit [OF ok that] by (auto simp: current_visitor_id_def)
  ultimately show ?thesis by blast
qed

theorem reachable_scopes_witness:
  "\<exists>s t tok rest c. reachable_tasks s \<and> s 0 = Some t \<and> t_scopes t = (tok, Some (u ''v1'')) # rest \<and>
     current_visitor_id (t_ctx t) = Some (u ''v1'') \<and> scope_exit tok (t_ctx t) = Inr c \<and>
     current_visitor_id c = None"
proof -
  let ?v = "VStr (u ''v1'')" and ?init = "new_task 0 None"
  obtain tok c0 where e: "scope_enter ?v (t_ctx ?init) = (tok, c0)" by fastforce
  let ?t = "?init\<lparr>t_ctx := c0, t_scopes := [(tok, Some (u ''v1''))]\<rparr>"
  let ?s = "[0 \<mapsto> ?init](0 \<mapsto> ?t)"
  have n: "normalize_visitor_id ?v = Some (u ''v1'')"
    by (simp add: normalize_visitor_id_def str_eval)
  have sc: "t_scopes ?init = []" "t_base ?t = None" by (simp_all add: new_task_def)
  have "task_step [0 \<mapsto> ?init] ?s"
    using task_step.enter [of "[0 \<mapsto> ?init]" 0 ?init ?v tok c0] e n sc by simp
  then have r: "reachable_tasks ?s" by (rule reachable_tasks.step [OF reachable_tasks.start])
  have s0: "?s 0 = Some ?t" by simp
  have sct: "t_scopes ?t = (tok, Some (u ''v1'')) # []" by simp
  note p = reachable_scopes [OF r s0]
  from conjunct2 [OF p] sct obtain c where "scope_exit tok (t_ctx ?t) = Inr c"
    "current_visitor_id c = visible (t_base ?t) []" by metis
  moreover have "current_visitor_id (t_ctx ?t) = Some (u ''v1'')"
    using conjunct1 [OF p] by (simp add: visible_def)
  ultimately show ?thesis using r s0 sct sc(2) by (metis list.case(1) visible_def)
qed

text \<open>
  A worker that serves requests one after the other in one context, each inside
  \<open>visitor_from_request\<close>, gives every handler the visitor extracted from its own request and from
  no other, and ends with the visitor it started with.
\<close>

theorem requests_do_not_leak:
  assumes "ctx_ok c"
  shows "serve_all (\<lambda>(headers, cookies). visitor_from_request headers cookies)
      (map (\<lambda>q. (q, \<lambda>c. (f q (current_visitor_id c), c))) qs) c = (rs, c') \<Longrightarrow>
    rs = map (\<lambda>(headers, cookies). Inr (f (headers, cookies) (extract_visitor_id headers cookies))) qs \<and>
    current_visitor_id c' = current_visitor_id c"
proof -
  let ?xs = "map (\<lambda>q. (q, \<lambda>c. (f q (current_visitor_id c), c))) qs"
  let ?sc = "\<lambda>(headers, cookies). visitor_from_request headers cookies"
  assume r: "serve_all ?sc ?xs c = (rs, c')"
  have g: "\<forall>x\<in>set ?xs. good_body (snd x)" using good_body_reader by auto
  have "fst (serve_all ?sc ?xs c) =
      map (\<lambda>x. Inr (f (fst x) ((\<lambda>(h, k). extract_visitor_id h k) (fst x)))) ?xs"
    by (rule request.serve_all_results [OF assms g]) auto
  then show ?thesis
    using r request.serve_all_restores [OF assms g] by (auto simp: case_prod_beta)
qed

theorem requests_do_not_leak_witness:
  "fst (serve_all (\<lambda>(headers, cookies). visitor_from_request headers cookies)
      (map (\<lambda>q. (q, \<lambda>c. (current_visitor_id c, c)))
        [([(u ''X-Cekat-Visitor-ID'', u ''v1'')], None), ([], None)]) (fresh_ctx 0 None)) =
     [Inr (Some (u ''v1'')), Inr None]"
proof -
  let ?qs = "[([(u ''X-Cekat-Visitor-ID'', u ''v1'')], None), ([], None)]"
  have e: "extract_visitor_id [(u ''X-Cekat-Visitor-ID'', u ''v1'')] None = Some (u ''v1'')"
    "extract_visitor_id [] None = None"
    by (simp_all add: extract_visitor_id_def VISITOR_HEADER_def normalize_visitor_id_def str_eval)
  from e requests_do_not_leak [OF ctx_ok_fresh, of "\<lambda>q v. v" ?qs 0 None, OF prod.collapse [symmetric]]
  show ?thesis by simp
qed

end
