(* ===== verification/Stripe.thy ===== *)
theory Stripe
  imports Context
begin

text \<open>
  \<open>stripe.py\<close>: the visitor identifier as Stripe metadata. Metadata is a \<open>dict\<close>; every function
  returns a fresh one, so the caller's own is an argument and never a result.
\<close>

definition VISITOR_METADATA_KEY :: ustr where
  "VISITOR_METADATA_KEY = u ''cekat_visitor_id''"

definition metadata_char :: "nat \<Rightarrow> bool" where
  "metadata_char c \<longleftrightarrow> c < 128 \<and> (is_alnum_ascii c \<or> c \<in> set (u ''_-''))"

definition valid_visitor_id :: "pyval \<Rightarrow> ustr option" where
  "valid_visitor_id value =
     (case value of
        VStr s \<Rightarrow>
          (let normalized = py_strip s in
           if \<not> (1 \<le> length normalized \<and> length normalized \<le> 128) then None
           else if list_all metadata_char normalized then Some normalized else None)
      | _ \<Rightarrow> None)"

definition metadata_for_visitor :: "pyval \<Rightarrow> (ustr, ustr) pydict" where
  "metadata_for_visitor visitor =
     (case valid_visitor_id visitor of
        None \<Rightarrow> []
      | Some normalized \<Rightarrow> [(VISITOR_METADATA_KEY, normalized)])"

definition metadata_from_current_visitor :: "ctx \<Rightarrow> (ustr, ustr) pydict" where
  "metadata_from_current_visitor c = metadata_for_visitor (opt_val (current_visitor_id c))"

definition merge_metadata :: "(ustr, ustr) pydict \<Rightarrow> pyval \<Rightarrow> (ustr, ustr) pydict" where
  "merge_metadata metadata visitor =
     (case valid_visitor_id visitor of
        None \<Rightarrow> metadata
      | Some normalized \<Rightarrow> dict_set VISITOR_METADATA_KEY normalized metadata)"

lemma valid_visitor_id_Some:
  "valid_visitor_id v = Some t \<longleftrightarrow>
     (\<exists>s. v = VStr s \<and> t = py_strip s \<and> 1 \<le> length t \<and> length t \<le> 128 \<and> list_all metadata_char t)"
  by (cases v) (auto simp: valid_visitor_id_def Let_def)

lemma valid_visitor_id_fixpoint: "valid_visitor_id v = Some t \<Longrightarrow> valid_visitor_id (VStr t) = Some t"
  by (auto simp: valid_visitor_id_Some)

text \<open>A metadata visitor is a normalized visitor; the converse needs the character set and length.\<close>

lemma valid_visitor_id_normalized: "valid_visitor_id v = Some t \<Longrightarrow> normalize_visitor_id v = Some t"
  by (auto simp: valid_visitor_id_Some normalize_visitor_id_Some)

lemma metadata_get:
  "dict_get (metadata_for_visitor v) k = (if k = VISITOR_METADATA_KEY then valid_visitor_id v else None)"
  by (auto simp: metadata_for_visitor_def dict_get_def split: option.splits)

lemma merge_metadata_get:
  "dict_get (merge_metadata d v) k =
     (case dict_get (metadata_for_visitor v) k of Some x \<Rightarrow> Some x | None \<Rightarrow> dict_get d k)"
  by (auto simp: merge_metadata_def metadata_get dict.look_store split: option.splits)

lemma merge_metadata_keys:
  "set (dict_keys (merge_metadata d v)) \<subseteq> insert VISITOR_METADATA_KEY (set (dict_keys d))"
  by (auto simp: merge_metadata_def dict.set_keys_store split: option.splits)

lemma merge_metadata_ok: "dict_ok d \<Longrightarrow> dict_ok (merge_metadata d v)"
  by (simp add: merge_metadata_def dict.ok_store split: option.splits)

lemma metadata_char_safe: "metadata_char c \<Longrightarrow> c < 128 \<and> \<not> is_space c"
  by (auto simp: metadata_char_def is_alnum_ascii_def is_alpha_ascii_def is_digit_ascii_def
      is_space_def white_space_def u_def)

section \<open>Properties\<close>

text \<open>
  C38: merging a visitor into Stripe metadata changes the visitor key only, and that one only when
  the visitor is valid; what it stores is 1 to 128 ASCII letters, digits, underscores or hyphens,
  and the other keys keep their values and their order.
\<close>

theorem merge_changes_one_key:
  "dict_get (merge_metadata d v) k =
     (if k = VISITOR_METADATA_KEY \<and> valid_visitor_id v \<noteq> None then valid_visitor_id v else dict_get d k) \<and>
   dict_keys (merge_metadata d v) =
     (if valid_visitor_id v \<noteq> None \<and> dict_get d VISITOR_METADATA_KEY = None
      then dict_keys d @ [VISITOR_METADATA_KEY] else dict_keys d) \<and>
   list_all (\<lambda>(k, t). k = VISITOR_METADATA_KEY \<and> 1 \<le> length t \<and> length t \<le> 128 \<and>
     list_all metadata_char t) (metadata_for_visitor v)"
proof (cases "valid_visitor_id v")
  case None
  then show ?thesis by (simp add: merge_metadata_def metadata_for_visitor_def)
next
  case (Some t)
  then have "1 \<le> length t \<and> length t \<le> 128 \<and> list_all metadata_char t"
    by (auto simp: valid_visitor_id_Some)
  with Some show ?thesis
    by (simp add: merge_metadata_def metadata_for_visitor_def dict.look_store dict.keys_store)
qed

end
