(* ===== verification/Utf8.thy ===== *)
theory Utf8
  imports PyStr "HOL-Library.Word"
begin

text \<open>
  Byte strings, and \<open>str.encode("utf-8")\<close> / \<open>bytes.decode("utf-8")\<close> with the strict error handler.
  The contract of an encoding is the locale \<open>codec\<close> (what is encoded decodes to itself), its
  strengthening \<open>exact_codec\<close> (only encodings decode), and \<open>codec_chain\<close>, one encoding after
  another. UTF-8 interprets \<open>exact_codec\<close> as \<open>utf8\<close>.
\<close>

type_synonym byte = "8 word"
type_synonym bytes = "byte list"

section \<open>The contract of an encoding\<close>

locale codec =
  fixes enc :: "'a \<Rightarrow> 'b option"
    and dec :: "'b \<Rightarrow> 'a option"
  assumes dec_enc: "enc x = Some y \<Longrightarrow> dec y = Some x"
begin

lemma enc_inj: "enc x = Some y \<Longrightarrow> enc x' = Some y \<Longrightarrow> x = x'"
  by (metis dec_enc option.inject)

end

locale exact_codec = codec enc dec for enc :: "'a \<Rightarrow> 'b option" and dec :: "'b \<Rightarrow> 'a option" +
  assumes enc_dec: "dec y = Some x \<Longrightarrow> enc x = Some y"
begin

lemma enc_iff_dec: "enc x = Some y \<longleftrightarrow> dec y = Some x"
  by (auto intro: dec_enc enc_dec)

end

locale codec_chain =
  inner_codec: codec enc1 dec1 + outer_codec: codec enc2 dec2
  for enc1 :: "'a \<Rightarrow> 'b option" and dec1 and enc2 :: "'b \<Rightarrow> 'c option" and dec2
begin

lemma chain_dec_enc:
  "Option.bind (enc1 x) enc2 = Some z \<Longrightarrow> Option.bind (dec2 z) dec1 = Some x"
  by (auto simp: bind_eq_Some_conv dest: inner_codec.dec_enc outer_codec.dec_enc)

end

sublocale codec_chain \<subseteq> chained: codec "\<lambda>x. Option.bind (enc1 x) enc2" "\<lambda>z. Option.bind (dec2 z) dec1"
  by unfold_locales (rule chain_dec_enc)

section \<open>UTF-8\<close>

definition byte :: "nat \<Rightarrow> byte" where
  "byte n = word_of_nat n"

definition utf8_cp :: "nat \<Rightarrow> bytes" where
  "utf8_cp c =
     (if c < 128 then [byte c]
      else if c < 2048 then [byte (192 + c div 64), byte (128 + c mod 64)]
      else if c < 65536 then
        [byte (224 + c div 4096), byte (128 + c div 64 mod 64), byte (128 + c mod 64)]
      else [byte (240 + c div 262144), byte (128 + c div 4096 mod 64),
            byte (128 + c div 64 mod 64), byte (128 + c mod 64)])"

definition utf8_encode :: "ustr \<Rightarrow> bytes option" where
  "utf8_encode s = (if valid_unicode s then Some (concat (map utf8_cp s)) else None)"

definition is_cont :: "byte \<Rightarrow> bool" where
  "is_cont b \<longleftrightarrow> 128 \<le> unat b \<and> unat b < 192"

fun utf8_next :: "bytes \<Rightarrow> (nat \<times> bytes) option" where
  "utf8_next [] = None"
| "utf8_next (b0 # bs) =
     (let n = unat b0 in
      if n < 128 then Some (n, bs)
      else if 194 \<le> n \<and> n < 224 then
        (case bs of
           b1 # bs' \<Rightarrow>
             if is_cont b1 then Some ((n - 192) * 64 + (unat b1 - 128), bs') else None
         | _ \<Rightarrow> None)
      else if 224 \<le> n \<and> n < 240 then
        (case bs of
           b1 # b2 # bs' \<Rightarrow>
             let c = (n - 224) * 4096 + (unat b1 - 128) * 64 + (unat b2 - 128) in
             if is_cont b1 \<and> is_cont b2 \<and> 2048 \<le> c \<and> \<not> is_surrogate c then Some (c, bs') else None
         | _ \<Rightarrow> None)
      else if 240 \<le> n \<and> n < 245 then
        (case bs of
           b1 # b2 # b3 # bs' \<Rightarrow>
             let c = (n - 240) * 262144 + (unat b1 - 128) * 4096 + (unat b2 - 128) * 64 + (unat b3 - 128)
             in if is_cont b1 \<and> is_cont b2 \<and> is_cont b3 \<and> 65536 \<le> c \<and> c < 1114112
                then Some (c, bs') else None
         | _ \<Rightarrow> None)
      else None)"

lemma utf8_next_shorter: "utf8_next bs = Some (c, bs') \<Longrightarrow> length bs' < length bs"
  by (cases bs rule: utf8_next.cases) (auto simp: Let_def split: if_splits list.splits)

function utf8_decode :: "bytes \<Rightarrow> ustr option" where
  "utf8_decode bs =
     (if bs = [] then Some []
      else case utf8_next bs of
             None \<Rightarrow> None
           | Some (c, bs') \<Rightarrow> map_option (Cons c) (utf8_decode bs'))"
  by pat_completeness auto
termination
  by (relation "measure length") (auto dest: utf8_next_shorter)

declare utf8_decode.simps [simp del]

lemma unat_byte: "n < 256 \<Longrightarrow> unat (byte n) = n"
  by (simp add: byte_def unat_of_nat)

lemma byte_unat [simp]: "byte (unat b) = b"
  by (simp add: byte_def)

lemma is_cont_byte: "k < 64 \<Longrightarrow> is_cont (byte (128 + k))"
  by (simp add: is_cont_def unat_byte)

lemma base64_digit: "k < 64 \<Longrightarrow> (a * 64 + k) div 64 = a \<and> (a * 64 + k) mod 64 = (k::nat)"
  by simp

lemma base64_split: "\<exists>a k. c = a * 64 + k \<and> k < (64::nat)"
  by (metis div_mult_mod_eq mod_less_divisor zero_less_numeral)

lemma three_digits: "a < 16 \<Longrightarrow> k1 < 64 \<Longrightarrow> k2 < 64 \<Longrightarrow> (a * 64 + k1) * 64 + k2 < (65536::nat)"
  by (simp add: algebra_simps)

lemma utf8_cp_2:
  assumes "c = q * 64 + k" "k < 64" "128 \<le> c" "c < 2048"
  shows "utf8_cp c = [byte (192 + q), byte (128 + k)]"
proof -
  have "c div 64 = q" "c mod 64 = k" using assms base64_digit by simp_all
  with assms(3,4) show ?thesis by (simp add: utf8_cp_def)
qed

lemma utf8_cp_3:
  assumes "c = (q * 64 + k1) * 64 + k2" "k1 < 64" "k2 < 64" "2048 \<le> c" "c < 65536"
  shows "utf8_cp c = [byte (224 + q), byte (128 + k1), byte (128 + k2)]"
proof -
  have d: "c div 64 = q * 64 + k1" "c mod 64 = k2"
    using assms base64_digit [of k2 "q * 64 + k1"] by simp_all
  have "c div 4096 = c div 64 div 64" by (simp add: div_mult2_eq [symmetric])
  with d assms(2) have "c div 4096 = q" "c div 64 mod 64 = k1"
    by (simp_all only: base64_digit)
  with d assms(4,5) show ?thesis by (simp only: utf8_cp_def) simp
qed

lemma utf8_cp_4:
  assumes "c = ((q * 64 + k1) * 64 + k2) * 64 + k3" "k1 < 64" "k2 < 64" "k3 < 64" "65536 \<le> c"
  shows "utf8_cp c = [byte (240 + q), byte (128 + k1), byte (128 + k2), byte (128 + k3)]"
proof -
  have d: "c div 64 = (q * 64 + k1) * 64 + k2" "c mod 64 = k3"
    using assms base64_digit [of k3 "(q * 64 + k1) * 64 + k2"] by simp_all
  have e: "c div 4096 = q * 64 + k1" "c div 64 mod 64 = k2"
    using d assms(3) base64_digit [of k2 "q * 64 + k1"]
    by (simp_all only: div_mult2_eq [of c 64 64, simplified])
  have "c div 262144 = q" "c div 4096 mod 64 = k1"
    using e assms(2) base64_digit [of k1 q]
    by (simp_all only: div_mult2_eq [of c 4096 64, simplified])
  with d e assms(5) show ?thesis by (simp only: utf8_cp_def) simp
qed

lemma utf8_next_cp:
  assumes "c < 1114112" "\<not> is_surrogate c"
  shows "utf8_next (utf8_cp c @ bs) = Some (c, bs)"
proof -
  obtain r k3 where c1: "c = r * 64 + k3" "k3 < 64" using base64_split [of c] by blast
  obtain p k2 where r: "r = p * 64 + k2" "k2 < 64" using base64_split [of r] by blast
  obtain q k1 where p: "p = q * 64 + k1" "k1 < 64" using base64_split [of p] by blast
  consider "c < 128" | "128 \<le> c" "c < 2048" | "2048 \<le> c" "c < 65536" | "65536 \<le> c"
    by linarith
  then show ?thesis
  proof cases
    case 1
    then show ?thesis by (simp add: utf8_cp_def unat_byte)
  next
    case 2
    with c1 have "2 \<le> r" "r < 32" by linarith+
    with c1 show ?thesis
      unfolding utf8_cp_2 [OF c1 2] by (simp add: unat_byte is_cont_byte Let_def)
  next
    case 3
    with c1 r have "p < 16" by linarith
    moreover have "p * 4096 + k2 * 64 + k3 = c" using c1 r by simp
    moreover have "utf8_cp c = [byte (224 + p), byte (128 + k2), byte (128 + k3)]"
      using c1 r 3 by (intro utf8_cp_3) simp_all
    ultimately show ?thesis using c1(2) r(2) 3 assms
      by (simp add: unat_byte is_cont_byte Let_def)
  next
    case 4
    with c1 r p assms have "q < 5" by linarith
    moreover have "q * 262144 + k1 * 4096 + k2 * 64 + k3 = c" using c1 r p by simp
    moreover have "utf8_cp c = [byte (240 + q), byte (128 + k1), byte (128 + k2), byte (128 + k3)]"
      using c1 r p 4 by (intro utf8_cp_4) simp_all
    ultimately show ?thesis using c1(2) r(2) p(2) 4 assms
      by (simp add: unat_byte is_cont_byte Let_def)
  qed
qed

lemma utf8_cp_not_Nil [simp]: "utf8_cp c \<noteq> []"
  by (simp add: utf8_cp_def)

lemma utf8_decode_concat:
  "valid_unicode s \<Longrightarrow> utf8_decode (concat (map utf8_cp s)) = Some s"
proof (induction s)
  case Nil
  then show ?case by (simp add: utf8_decode.simps)
next
  case (Cons c s)
  then show ?case
    using utf8_next_cp [of c "concat (map utf8_cp s)"]
    by (simp add: utf8_decode.simps [of "utf8_cp c @ concat (map utf8_cp s)"])
qed

lemma is_cont_bounds: "is_cont b \<Longrightarrow> \<exists>k<64. b = byte (128 + k)"
  by (rule exI [where x = "unat b - 128"]) (auto simp: is_cont_def)

lemma byte_eqI: "unat b = n \<Longrightarrow> b = byte n"
  by auto

lemma utf8_next_exact:
  assumes "utf8_next bs = Some (c, bs')"
  shows "c < 1114112 \<and> \<not> is_surrogate c \<and> bs = utf8_cp c @ bs'"
proof -
  from assms obtain b0 r where bs: "bs = b0 # r" by (cases bs) auto
  let ?n = "unat b0"
  consider (a) "?n < 128" | (b) "194 \<le> ?n" "?n < 224" | (c) "224 \<le> ?n" "?n < 240"
    | (d) "240 \<le> ?n" "?n < 245"
    using assms bs by (auto simp: Let_def split: if_splits)
  then show ?thesis
  proof cases
    case a
    with assms bs show ?thesis by (auto simp: utf8_cp_def is_surrogate_def)
  next
    case b
    with assms bs obtain b1 where r: "r = b1 # bs'" and b1: "is_cont b1"
      and c: "c = (?n - 192) * 64 + (unat b1 - 128)"
      by (auto simp: Let_def split: list.splits if_splits)
    from b1 obtain k1 where k: "k1 < 64" "b1 = byte (128 + k1)" by (blast dest: is_cont_bounds)
    with c have c': "c = (?n - 192) * 64 + k1" by (simp add: unat_byte)
    moreover have "128 \<le> c" "c < 2048" using c' b k by linarith+
    moreover have "byte (192 + (?n - 192)) = b0" using b by simp
    ultimately show ?thesis using k bs r utf8_cp_2 [of c "?n - 192" k1]
      by (simp add: is_surrogate_def)
  next
    case c
    with assms bs obtain b1 b2 where r: "r = b1 # b2 # bs'" and bb: "is_cont b1" "is_cont b2"
      and c: "c = (?n - 224) * 4096 + (unat b1 - 128) * 64 + (unat b2 - 128)"
      and v: "2048 \<le> c" "\<not> is_surrogate c"
      by (auto simp: Let_def split: list.splits if_splits)
    from bb obtain k1 k2 where k: "k1 < 64" "k2 < 64" "b1 = byte (128 + k1)" "b2 = byte (128 + k2)"
      by (blast dest: is_cont_bounds)
    with c have c': "c = ((?n - 224) * 64 + k1) * 64 + k2" by (simp add: unat_byte)
    moreover have "?n - 224 < 16" using \<open>224 \<le> ?n\<close> \<open>?n < 240\<close> by linarith
    with c' k have "c < 65536" using three_digits [of "?n - 224" k1 k2] by simp
    moreover have "byte (224 + (?n - 224)) = b0" using \<open>224 \<le> ?n\<close> by simp
    ultimately show ?thesis using k bs r v utf8_cp_3 [of c "?n - 224" k1 k2] by simp
  next
    case d
    with assms bs obtain b1 b2 b3 where r: "r = b1 # b2 # b3 # bs'"
      and bb: "is_cont b1" "is_cont b2" "is_cont b3"
      and c: "c = (?n - 240) * 262144 + (unat b1 - 128) * 4096 + (unat b2 - 128) * 64 + (unat b3 - 128)"
      and v: "65536 \<le> c" "c < 1114112"
      by (auto simp: Let_def split: list.splits if_splits)
    from bb obtain k1 k2 k3 where k: "k1 < 64" "k2 < 64" "k3 < 64"
      "b1 = byte (128 + k1)" "b2 = byte (128 + k2)" "b3 = byte (128 + k3)"
      by (meson is_cont_bounds)
    with c have "c = (((?n - 240) * 64 + k1) * 64 + k2) * 64 + k3" by (simp add: unat_byte)
    moreover have "byte (240 + (?n - 240)) = b0" using \<open>240 \<le> ?n\<close> by simp
    ultimately show ?thesis using k bs r v utf8_cp_4 [of c "?n - 240" k1 k2 k3]
      by (simp add: is_surrogate_def)
  qed
qed

lemma utf8_decode_exact:
  "utf8_decode bs = Some s \<Longrightarrow> valid_unicode s \<and> concat (map utf8_cp s) = bs"
proof (induction bs arbitrary: s rule: utf8_decode.induct)
  case (1 bs)
  show ?case
  proof (cases "bs = []")
    case True
    with "1.prems" show ?thesis by (simp add: utf8_decode.simps)
  next
    case False
    with "1.prems" obtain c bs' s' where n: "utf8_next bs = Some (c, bs')"
      and s: "utf8_decode bs' = Some s'" "s = c # s'"
      by (subst (asm) utf8_decode.simps) (auto split: option.splits)
    from utf8_next_exact [OF n] "1.IH" [OF False n refl s(1)] s(2) show ?thesis by simp
  qed
qed

interpretation utf8: exact_codec utf8_encode utf8_decode
  by unfold_locales
    (auto simp: utf8_encode_def utf8_decode_concat utf8_decode_exact dest: utf8_decode_exact
      split: if_splits)

text \<open>\<open>bytes.decode("latin-1")\<close>.\<close>

definition latin1_decode :: "bytes \<Rightarrow> ustr" where
  "latin1_decode bs = map unat bs"

lemma utf8_encode_None_iff: "utf8_encode s = None \<longleftrightarrow> \<not> valid_unicode s"
  by (simp add: utf8_encode_def)

lemma utf8_decode_valid: "utf8_decode bs = Some s \<Longrightarrow> valid_unicode s"
  by (simp add: utf8_decode_exact)

end
