(* ===== verification/DateTime.thy ===== *)
theory DateTime
  imports PyStr
begin

text \<open>
  Python's \<open>datetime\<close> as far as the program uses it: the proleptic Gregorian calendar between the
  years 1 and 9999, points on a local clock in microseconds since 0001-01-01T00:00:00, UTC offsets,
  and the rendering of a UTC time with millisecond precision.
\<close>

section \<open>The calendar\<close>

definition is_leap :: "nat \<Rightarrow> bool" where
  "is_leap y \<longleftrightarrow> y mod 4 = 0 \<and> (y mod 100 \<noteq> 0 \<or> y mod 400 = 0)"

definition days_in_month :: "nat \<Rightarrow> nat \<Rightarrow> nat" where
  "days_in_month y m =
     (if m = 2 then (if is_leap y then 29 else 28)
      else if m \<in> {4, 6, 9, 11} then 30 else 31)"

definition days_before_year :: "nat \<Rightarrow> nat" where
  "days_before_year y = (let p = y - 1 in p * 365 + p div 4 - p div 100 + p div 400)"

definition days_before_month :: "nat \<Rightarrow> nat \<Rightarrow> nat" where
  "days_before_month y m = sum_list (map (days_in_month y) [1..<m])"

definition valid_date :: "nat \<Rightarrow> nat \<Rightarrow> nat \<Rightarrow> bool" where
  "valid_date y m d \<longleftrightarrow>
     1 \<le> y \<and> y \<le> 9999 \<and> 1 \<le> m \<and> m \<le> 12 \<and> 1 \<le> d \<and> d \<le> days_in_month y m"

definition ymd_to_ord :: "nat \<Rightarrow> nat \<Rightarrow> nat \<Rightarrow> nat" where
  "ymd_to_ord y m d = days_before_year y + days_before_month y m + d"

lemma leap_count_le: "p div 100 \<le> p div (4::nat)"
  by (simp add: div_le_mono2)

lemma leap_arith:
  "a100 \<le> a4 \<Longrightarrow> (c400 \<longrightarrow> c100) \<Longrightarrow> (c100 \<longrightarrow> c4) \<Longrightarrow>
    Suc p * 365 + (if c4 then Suc a4 else a4) - (if c100 then Suc a100 else a100) +
      (if c400 then Suc a400 else a400) =
    p * 365 + a4 - a100 + a400 + (if c4 \<and> (\<not> c100 \<or> c400) then 366 else (365::nat))"
  by (cases c4; cases c100; cases c400) simp_all

lemma days_before_year_Suc:
  assumes "0 < y"
  shows "days_before_year (Suc y) = days_before_year y + (if is_leap y then 366 else 365)"
proof -
  obtain p where y: "y = Suc p" using assms by (cases y) auto
  have "Suc p mod 400 = 0 \<longrightarrow> Suc p mod 100 = 0" "Suc p mod 100 = 0 \<longrightarrow> Suc p mod 4 = 0"
    by presburger+
  from leap_arith [OF leap_count_le this] show ?thesis
    unfolding y days_before_year_def is_leap_def Let_def diff_Suc_1 div_Suc by simp
qed

lemma days_before_year_mono:
  "0 < y \<Longrightarrow> y \<le> z \<Longrightarrow> days_before_year y + 365 * (z - y) \<le> days_before_year z"
proof (induction z)
  case 0
  then show ?case by simp
next
  case (Suc z)
  show ?case
  proof (cases "y = Suc z")
    case True
    then show ?thesis by simp
  next
    case False
    with Suc have "days_before_year y + 365 * (z - y) \<le> days_before_year z" by simp
    moreover have "Suc z - y = Suc (z - y)" using Suc.prems False by simp
    ultimately show ?thesis using Suc.prems False by (simp add: days_before_year_Suc)
  qed
qed

lemma days_before_year_ge: "365 * y \<le> days_before_year (Suc y)"
  using days_before_year_mono [of 1 "Suc y"] by (simp add: days_before_year_def [of 1])

text \<open>The year of an ordinal: the last year whose days before it are fewer than the ordinal.\<close>

function find_year :: "nat \<Rightarrow> nat \<Rightarrow> nat" where
  "find_year y n = (if days_before_year (Suc y) < n then find_year (Suc y) n else y)"
  by pat_completeness auto
termination
proof (relation "measure (\<lambda>(y, n). n - y)", goal_cases)
  case 1
  show ?case by simp
next
  case (2 y n)
  then have "y < n" using days_before_year_ge [of y] by simp
  then show ?case by simp
qed

declare find_year.simps [simp del]

function find_month :: "nat \<Rightarrow> nat \<Rightarrow> nat \<Rightarrow> nat" where
  "find_month y m n =
     (if m < 12 \<and> days_before_month y (Suc m) < n then find_month y (Suc m) n else m)"
  by pat_completeness auto
termination
  by (relation "measure (\<lambda>(y, m, n). 12 - m)") auto

declare find_month.simps [simp del]

definition ord_to_ymd :: "nat \<Rightarrow> nat \<times> nat \<times> nat" where
  "ord_to_ymd n =
     (let y = find_year ((n - 1) div 366 + 1) n; r = n - days_before_year y; m = find_month y 1 r
      in (y, m, r - days_before_month y m))"

lemma find_year_eq:
  "days_before_year y < n \<Longrightarrow> n \<le> days_before_year (Suc y) \<Longrightarrow> s \<le> y \<Longrightarrow> 0 < s \<Longrightarrow> find_year s n = y"
proof (induction s n rule: find_year.induct)
  case (1 s n)
  show ?case
  proof (cases "s = y")
    case True
    with "1.prems" show ?thesis by (simp add: find_year.simps [of y])
  next
    case False
    with "1.prems" have "Suc s \<le> y" by simp
    then have "days_before_year (Suc s) < n"
      using "1.prems" days_before_year_mono [of "Suc s" y] by simp
    with 1 \<open>Suc s \<le> y\<close> show ?thesis by (simp add: find_year.simps [of s])
  qed
qed

lemma days_before_month_Suc:
  "0 < m \<Longrightarrow> days_before_month y (Suc m) = days_before_month y m + days_in_month y m"
  by (simp add: days_before_month_def)

lemma days_before_month_mono:
  "0 < m \<Longrightarrow> m \<le> k \<Longrightarrow> days_before_month y m \<le> days_before_month y k"
  by (induction k) (auto simp: days_before_month_Suc le_Suc_eq)

lemma find_month_eq:
  "days_before_month y m < n \<Longrightarrow> n \<le> days_before_month y (Suc m) \<Longrightarrow> s \<le> m \<Longrightarrow> 0 < s \<Longrightarrow>
    m \<le> 12 \<Longrightarrow> find_month y s n = m"
proof (induction y s n rule: find_month.induct)
  case (1 y s n)
  show ?case
  proof (cases "s = m")
    case True
    with "1.prems" show ?thesis by (simp add: find_month.simps [of y m])
  next
    case False
    with "1.prems" have s: "Suc s \<le> m" "s < 12" by simp_all
    then have "days_before_month y (Suc s) < n"
      using "1.prems" days_before_month_mono [of "Suc s" m y] by simp
    with 1 s show ?thesis by (simp add: find_month.simps [of y s])
  qed
qed

lemma days_in_year: "days_before_month y 13 = (if is_leap y then 366 else 365)"
  by (simp add: days_before_month_def days_in_month_def upt_rec)

lemma month_in_year:
  assumes "valid_date y m d"
  shows "days_before_month y m + d \<le> (if is_leap y then 366 else 365)"
proof -
  have "days_before_month y m + d \<le> days_before_month y (Suc m)"
    using assms by (simp add: days_before_month_Suc valid_date_def)
  also have "\<dots> \<le> days_before_month y 13"
    using assms by (intro days_before_month_mono) (simp_all add: valid_date_def)
  finally show ?thesis by (simp add: days_in_year)
qed

lemma ymd_to_ord_in_year:
  "valid_date y m d \<Longrightarrow>
    days_before_year y < ymd_to_ord y m d \<and> ymd_to_ord y m d \<le> days_before_year (Suc y)"
  using month_in_year [of y m d]
  by (auto simp: ymd_to_ord_def valid_date_def days_before_year_Suc)

lemma days_before_year_upper: "days_before_year (Suc y) \<le> 366 * y"
proof (induction y)
  case 0
  then show ?case by (simp add: days_before_year_def)
next
  case (Suc y)
  then show ?case by (simp add: days_before_year_Suc [of "Suc y"])
qed

lemma ord_to_ymd_to_ord:
  assumes "valid_date y m d"
  shows "ord_to_ymd (ymd_to_ord y m d) = (y, m, d)"
proof -
  let ?n = "ymd_to_ord y m d"
  note b = ymd_to_ord_in_year [OF assms]
  have y: "0 < y" using assms by (simp add: valid_date_def)
  have "?n - 1 < 366 * y"
    using b days_before_year_upper [of y] by linarith
  then have "(?n - 1) div 366 + 1 \<le> y"
    by (simp add: Suc_le_eq less_mult_imp_div_less mult.commute)
  with b have fy: "find_year ((?n - 1) div 366 + 1) ?n = y"
    by (intro find_year_eq) simp_all
  have r: "?n - days_before_year y = days_before_month y m + d"
    by (simp add: ymd_to_ord_def)
  have "find_month y 1 (days_before_month y m + d) = m"
    using assms by (intro find_month_eq) (simp_all add: valid_date_def days_before_month_Suc)
  with fy r show ?thesis by (simp add: ord_to_ymd_def Let_def)
qed

lemma ymd_to_ord_bounds:
  assumes "valid_date y m d"
  shows "1 \<le> ymd_to_ord y m d" "ymd_to_ord y m d \<le> 3652059"
proof -
  note b = ymd_to_ord_in_year [OF assms]
  from b show "1 \<le> ymd_to_ord y m d" by simp
  have "days_before_year (Suc y) \<le> days_before_year 10000"
    using days_before_year_mono [of "Suc y" 10000] assms by (simp add: valid_date_def)
  also have "days_before_year 10000 = 3652059" by (simp add: days_before_year_def)
  finally show "ymd_to_ord y m d \<le> 3652059" using b by simp
qed

lemma find_year_spec:
  "0 < s \<Longrightarrow> days_before_year s < n \<Longrightarrow>
    s \<le> find_year s n \<and> days_before_year (find_year s n) < n \<and> n \<le> days_before_year (Suc (find_year s n))"
proof (induction s n rule: find_year.induct)
  case (1 s n)
  show ?case
  proof (cases "days_before_year (Suc s) < n")
    case True
    with "1.IH" show ?thesis by (simp add: find_year.simps [of s])
  next
    case False
    with "1.prems" show ?thesis by (simp add: find_year.simps [of s])
  qed
qed

lemma find_month_spec:
  "0 < s \<Longrightarrow> s \<le> 12 \<Longrightarrow> days_before_month y s < n \<Longrightarrow> n \<le> days_before_month y 13 \<Longrightarrow>
    s \<le> find_month y s n \<and> find_month y s n \<le> 12 \<and> days_before_month y (find_month y s n) < n \<and>
    n \<le> days_before_month y (Suc (find_month y s n))"
proof (induction y s n rule: find_month.induct)
  case (1 y s n)
  show ?case
  proof (cases "s < 12 \<and> days_before_month y (Suc s) < n")
    case True
    with 1 show ?thesis by (simp add: find_month.simps [of y s])
  next
    case False
    then have "find_month y s n = s" by (simp only: find_month.simps [of y s n] if_False)
    with False "1.prems" show ?thesis by (cases "s = 12") simp_all
  qed
qed

lemma days_before_january [simp]: "days_before_month y (Suc 0) = 0"
  by (simp add: days_before_month_def)

text \<open>Every ordinal in range is the ordinal of the date computed for it.\<close>

lemma ymd_to_ord_of_ord:
  assumes "1 \<le> n" "n \<le> 3652059" "ord_to_ymd n = (y, m, d)"
  shows "valid_date y m d \<and> ymd_to_ord y m d = n"
proof -
  let ?s = "(n - 1) div 366 + 1"
  have "days_before_year ?s < n"
  proof -
    have "days_before_year (Suc ((n - 1) div 366)) \<le> 366 * ((n - 1) div 366)"
      by (rule days_before_year_upper)
    also have "\<dots> \<le> n - 1" by (rule times_div_less_eq_dividend)
    finally show ?thesis using assms(1) by simp
  qed
  then have fy: "days_before_year y < n \<and> n \<le> days_before_year (Suc y) \<and> 0 < y"
    using find_year_spec [of ?s n] assms(3) by (auto simp: ord_to_ymd_def Let_def)
  have y9: "y \<le> 9999"
  proof (rule ccontr)
    assume "\<not> y \<le> 9999"
    then have "days_before_year 10000 \<le> days_before_year y"
      using days_before_year_mono [of 10000 y] by simp
    moreover have "days_before_year 10000 = 3652059" by (simp add: days_before_year_def)
    ultimately show False using fy assms(2) by simp
  qed
  let ?r = "n - days_before_year y"
  have m: "m = find_month y 1 ?r" and d: "d = ?r - days_before_month y m"
    using assms(3) by (auto simp: ord_to_ymd_def Let_def)
  have "?r \<le> days_before_month y 13" "0 < ?r"
    using fy by (auto simp: days_in_year days_before_year_Suc split: if_splits)
  then have "1 \<le> m \<and> m \<le> 12 \<and> days_before_month y m < ?r \<and> ?r \<le> days_before_month y (Suc m)"
    using find_month_spec [of 1 y ?r] m by simp
  with d fy y9 show ?thesis
    by (auto simp: valid_date_def ymd_to_ord_def days_before_month_Suc)
qed

section \<open>Moments\<close>

text \<open>
  A \<open>datetime\<close> is its wall-clock reading, in microseconds since 0001-01-01T00:00:00, with its
  \<open>tzinfo\<close>: absent, present with \<open>utcoffset()\<close> returning \<open>None\<close>, or present with an offset in
  microseconds. \<open>to_utc\<close> is \<open>astimezone(timezone.utc)\<close>; its \<open>None\<close> is the \<open>OverflowError\<close> raised
  when the UTC reading lies outside the years 1 to 9999.
\<close>

datatype tzinfo = NoTz | TzNone | TzOffset int

record pydatetime =
  dt_local :: nat
  dt_tz :: tzinfo

definition dt_limit :: nat where
  "dt_limit = 3652059 * 24 * 60 * 60 * 1000000"

definition utc_offset :: "pydatetime \<Rightarrow> int option" where
  "utc_offset t = (case dt_tz t of TzOffset i \<Rightarrow> Some i | _ \<Rightarrow> None)"

definition to_utc :: "pydatetime \<Rightarrow> nat option" where
  "to_utc t =
     (case utc_offset t of
        None \<Rightarrow> None
      | Some i \<Rightarrow> (let r = int (dt_local t) - i
                   in if 0 \<le> r \<and> r < int dt_limit then Some (nat r) else None))"

lemma to_utc_bound: "to_utc t = Some r \<Longrightarrow> r < dt_limit"
  by (auto simp: to_utc_def Let_def split: option.splits if_splits)

text \<open>Calendar fields of a UTC reading: year, month, day, hour, minute, second, microsecond.\<close>

definition dt_fields :: "nat \<Rightarrow> (nat \<times> nat \<times> nat) \<times> nat \<times> nat \<times> nat \<times> nat" where
  "dt_fields t =
     (let secs = t div 1000000; mins = secs div 60; hours = mins div 60
      in (ord_to_ymd (hours div 24 + 1), hours mod 24, mins mod 60, secs mod 60, t mod 1000000))"

text \<open>
  The rendering \<open>YYYY-MM-DDTHH:MM:SS.mmmZ\<close>. The C library decides whether \<open>strftime\<close>'s \<open>%Y\<close>
  pads a year before 1000 with zeros, so the padding width is an argument (0 or 4).
\<close>

definition format_utc_ms :: "nat \<Rightarrow> nat \<Rightarrow> ustr" where
  "format_utc_ms year_width t =
     (let ((y, mo, d), h, mi, s, us) = dt_fields t
      in zfill year_width y @ [45] @ zfill 2 mo @ [45] @ zfill 2 d @ [84] @
         zfill 2 h @ [58] @ zfill 2 mi @ [58] @ zfill 2 s @ [46] @ zfill 3 (us div 1000) @ [90])"

text \<open>Reading such a text back, to milliseconds since 0001-01-01T00:00:00Z.\<close>

definition read_utc_ms :: "ustr \<Rightarrow> nat option" where
  "read_utc_ms s =
     (let num = (\<lambda>i k. nat_of_digits (take k (drop i s)));
          y = num 0 4; mo = num 5 2; d = num 8 2; h = num 11 2; mi = num 14 2; se = num 17 2
      in if length s = 24 \<and> valid_date y mo d \<and> h < 24 \<and> mi < 60 \<and> se < 60
         then Some (((((ymd_to_ord y mo d - 1) * 24 + h) * 60 + mi) * 60 + se) * 1000 + num 20 3)
         else None)"

lemma dt_fields_valid:
  assumes "t < dt_limit" "dt_fields t = ((y, mo, d), h, mi, s, us)"
  shows "valid_date y mo d" "h < 24" "mi < 60" "s < 60" "us < 1000000"
    "((((ymd_to_ord y mo d - 1) * 24 + h) * 60 + mi) * 60 + s) * 1000 + us div 1000 = t div 1000"
proof -
  define secs where "secs = t div 1000000"
  define mins where "mins = secs div 60"
  define hours where "hours = mins div 60"
  define days where "days = hours div 24"
  have f: "ord_to_ymd (days + 1) = (y, mo, d)" "h = hours mod 24" "mi = mins mod 60"
    "s = secs mod 60" "us = t mod 1000000"
    using assms(2) by (simp_all add: dt_fields_def Let_def secs_def mins_def hours_def days_def)
  then show "h < 24" "mi < 60" "s < 60" "us < 1000000" by simp_all
  have "secs < 3652059 * 24 * 60 * 60"
    using assms(1) by (simp add: secs_def dt_limit_def less_mult_imp_div_less)
  then have "mins < 3652059 * 24 * 60" by (simp add: mins_def less_mult_imp_div_less)
  then have "hours < 3652059 * 24" by (simp add: hours_def less_mult_imp_div_less)
  then have "days < 3652059" by (simp add: days_def less_mult_imp_div_less)
  then have *: "valid_date y mo d \<and> ymd_to_ord y mo d = days + 1"
    using ymd_to_ord_of_ord [of "days + 1"] f by simp
  then show "valid_date y mo d" by simp
  have "(ymd_to_ord y mo d - 1) * 24 + h = hours" using * f by (simp add: days_def)
  moreover have "hours * 60 + mi = mins" using f by (simp add: hours_def)
  moreover have "mins * 60 + s = secs" using f by (simp add: mins_def)
  moreover have "secs * 1000 + us div 1000 = t div 1000"
  proof -
    have "t = us + 1000 * (secs * 1000)" using f by (simp add: secs_def)
    then show ?thesis using div_mult_self2 [of 1000 us "secs * 1000"] by simp
  qed
  ultimately show "((((ymd_to_ord y mo d - 1) * 24 + h) * 60 + mi) * 60 + s) * 1000 + us div 1000 =
    t div 1000" by simp
qed

lemma valid_date_small: "valid_date y m d \<Longrightarrow> y < 10000 \<and> m < 100 \<and> d < 100"
  by (auto simp: valid_date_def days_in_month_def split: if_splits)

lemma format_shape:
  assumes "length y = 4" "length mo = 2" "length d = 2" "length h = 2" "length mi = 2" "length s = 2"
    "length ms = 3"
    and r: "r = y @ [45] @ mo @ [45] @ d @ [84] @ h @ [58] @ mi @ [58] @ s @ [46] @ ms @ [90]"
  shows "length r = 24" "take 4 r = y" "take 2 (drop 5 r) = mo" "take 2 (drop 8 r) = d"
    "take 2 (drop 11 r) = h" "take 2 (drop 14 r) = mi" "take 2 (drop 17 r) = s"
    "take 3 (drop 20 r) = ms"
  using assms(1-7) unfolding r by (simp_all add: numeral_eq_Suc)

text \<open>With a padded year, the rendering loses nothing but the microseconds.\<close>

lemma read_format_utc:
  assumes "t < dt_limit"
  shows "read_utc_ms (format_utc_ms 4 t) = Some (t div 1000)" "length (format_utc_ms 4 t) = 24"
proof -
  obtain y mo d h mi s us where f: "dt_fields t = ((y, mo, d), h, mi, s, us)"
    by (metis prod.exhaust)
  note v = dt_fields_valid [OF assms f]
  note small = valid_date_small [OF v(1)]
  have "us div 1000 < 1000" using v(5) by (simp add: less_mult_imp_div_less)
  then have len: "length (zfill 4 y) = 4" "length (zfill 2 mo) = 2" "length (zfill 2 d) = 2"
    "length (zfill 2 h) = 2" "length (zfill 2 mi) = 2" "length (zfill 2 s) = 2"
    "length (zfill 3 (us div 1000)) = 3"
    using small v(2-5) by (simp_all add: length_zfill)
  have fmt: "format_utc_ms 4 t = zfill 4 y @ [45] @ zfill 2 mo @ [45] @ zfill 2 d @ [84] @
      zfill 2 h @ [58] @ zfill 2 mi @ [58] @ zfill 2 s @ [46] @ zfill 3 (us div 1000) @ [90]"
    by (simp add: format_utc_ms_def f)
  note sh = format_shape [OF len fmt]
  show "length (format_utc_ms 4 t) = 24" by (rule sh(1))
  show "read_utc_ms (format_utc_ms 4 t) = Some (t div 1000)"
    using v sh by (simp add: read_utc_ms_def Let_def)
qed

text \<open>The separators of the rendering stand where ISO 8601 has them.\<close>

lemma format_utc_separators:
  assumes "t < dt_limit"
  shows "map (nth (format_utc_ms 4 t)) [4, 7, 10, 13, 16, 19, 23] = u ''--T::.Z''"
proof -
  obtain y mo d h mi s us where f: "dt_fields t = ((y, mo, d), h, mi, s, us)"
    by (metis prod.exhaust)
  note v = dt_fields_valid [OF assms f]
  note small = valid_date_small [OF v(1)]
  have "us div 1000 < 1000" using v(5) by (simp add: less_mult_imp_div_less)
  then have len: "length (zfill 4 y) = 4" "length (zfill 2 mo) = 2" "length (zfill 2 d) = 2"
    "length (zfill 2 h) = 2" "length (zfill 2 mi) = 2" "length (zfill 2 s) = 2"
    "length (zfill 3 (us div 1000)) = 3"
    using small v(2-5) by (simp_all add: length_zfill)
  show ?thesis by (simp add: format_utc_ms_def f nth_append len u_def)
qed

text \<open>From the year 1000 on, padding changes nothing.\<close>

lemma format_utc_unpadded:
  assumes "w \<le> 4" "1000 \<le> fst (fst (dt_fields t))"
  shows "format_utc_ms w t = format_utc_ms 4 t"
proof -
  obtain y mo d h mi s us where f: "dt_fields t = ((y, mo, d), h, mi, s, us)"
    by (metis prod.exhaust)
  have "\<not> length (str_of_nat y) \<le> 3"
  proof
    assume "length (str_of_nat y) \<le> 3"
    then have "nat_of_digits (str_of_nat y) < 10 ^ 3"
      using nat_of_digits_less [OF str_of_nat_digits, of y] power_increasing [of "length (str_of_nat y)" 3 "10 :: nat"]
      by simp
    with assms(2) f show False by simp
  qed
  with assms(1) have "zfill w y = zfill 4 y" by (simp add: zfill_def)
  then show ?thesis by (simp add: format_utc_ms_def f)
qed

lemma zfill_ascii: "is_ascii (zfill w n)"
  by (rule digits_ascii [OF zfill_digits])

lemma format_utc_ascii: "is_ascii (format_utc_ms w t)"
proof -
  have "is_ascii (a @ b) \<longleftrightarrow> is_ascii a \<and> is_ascii b" "is_ascii (c # b) \<longleftrightarrow> c < 128 \<and> is_ascii b" for a b c
    by (simp_all add: is_ascii_def)
  then show ?thesis
    by (simp add: format_utc_ms_def zfill_ascii is_ascii_def [of "[]"] split: prod.splits)
qed

end
