(* ===== verification/Errors.thy ===== *)
theory Errors
  imports PyValue Utf8 DateTime
begin

text \<open>
  \<open>errors.py\<close> and \<open>models.py\<close>: the exceptions an SDK call can end with, and the immutable values it
  takes and returns. The three subclasses of \<open>HttpError\<close> differ in their class only, which is the
  first argument of \<open>HttpError\<close>. Exceptions of other libraries are \<open>foreign\<close>: a class name and a
  message, with the distinctions the SDK's \<open>except\<close> clauses make (\<open>httpx.TransportError\<close>, another
  \<open>httpx.HTTPError\<close>, a cancellation, anything else). \<open>Foreign\<close> lets one of them pass unchanged.
\<close>

datatype foreign =
    TransportExn ustr ustr
  | HttpExn ustr ustr
  | CancelledExn
  | OtherExn ustr ustr

datatype http_class = AuthenticationError | EventDefinitionNotFoundError | ApiError

datatype error =
    ValidationError ustr
  | HttpError http_class int ustr "ustr option" bytes nat
  | TransportError ustr nat "foreign option"
  | ResponseDecodeError ustr bytes nat "foreign option"
  | Foreign foreign

primrec attempts_of :: "error \<Rightarrow> nat" where
  "attempts_of (ValidationError message) = 0"
| "attempts_of (HttpError cls status message code raw_body attempts) = attempts"
| "attempts_of (TransportError message attempts cause) = attempts"
| "attempts_of (ResponseDecodeError message raw_body attempts cause) = attempts"
| "attempts_of (Foreign e) = 0"

primrec delivery_outcome_unknown :: "error \<Rightarrow> bool" where
  "delivery_outcome_unknown (ValidationError message) = False"
| "delivery_outcome_unknown (HttpError cls status message code raw_body attempts) = False"
| "delivery_outcome_unknown (TransportError message attempts cause) = True"
| "delivery_outcome_unknown (ResponseDecodeError message raw_body attempts cause) = False"
| "delivery_outcome_unknown (Foreign e) = False"

text \<open>\<open>isinstance(error, httpx.HTTPError)\<close>: \<open>TransportError\<close> is one of its subclasses.\<close>

definition is_http_error :: "foreign \<Rightarrow> bool" where
  "is_http_error e \<longleftrightarrow> (case e of TransportExn _ _ \<Rightarrow> True | HttpExn _ _ \<Rightarrow> True | _ \<Rightarrow> False)"

definition is_transport_error :: "foreign \<Rightarrow> bool" where
  "is_transport_error e \<longleftrightarrow> (case e of TransportExn _ _ \<Rightarrow> True | _ \<Rightarrow> False)"

definition exn_class_name :: "foreign \<Rightarrow> ustr" where
  "exn_class_name e =
     (case e of TransportExn n _ \<Rightarrow> n | HttpExn n _ \<Rightarrow> n | CancelledExn \<Rightarrow> u ''CancelledError''
      | OtherExn n _ \<Rightarrow> n)"

text \<open>
  \<open>Event\<close> holds whatever the caller passed, checked only when the body is built. \<open>occurred_at\<close> has
  its own type: \<open>None\<close>, a \<open>datetime\<close>, or another object.
\<close>

datatype moment = NoMoment | At pydatetime | NotADatetime

record event =
  email :: pyval
  phone_number :: pyval
  contact_name :: pyval
  visitor_id :: pyval
  properties :: pyval
  event_id :: pyval
  occurred_at :: moment

definition empty_event :: event where
  "empty_event = \<lparr>email = VNone, phone_number = VNone, contact_name = VNone, visitor_id = VNone,
     properties = VNone, event_id = VNone, occurred_at = NoMoment\<rparr>"

record acknowledgement =
  ack_success :: bool
  ack_message :: ustr
  ack_event_key :: ustr
  ack_validated_properties :: "ustr list"
  ack_raw_body :: bytes

lemma transport_is_http: "is_transport_error e \<Longrightarrow> is_http_error e"
  by (cases e) (auto simp: is_transport_error_def is_http_error_def)

end
