(* ===== verification/FloatText.thy ===== *)
theory FloatText
  imports PyStr PyFloat
begin

text \<open>
  The text of a float, and back. A number of the JSON grammar is kept in its parts (sign, integer
  digits, fraction digits, exponent). \<open>float.__repr__\<close> is the shortest digit string that is read back
  as the same float, the nearer of two such: the search goes through the digit counts 1 to 17 and
  tests each candidate by reading it. Seventeen digits are enough for every double; the exact
  decimal expansion, taken if the search found nothing, makes the definition total without relying
  on that. \<open>general_format\<close> is the format \<open>:g\<close>.
\<close>

section \<open>Numbers in parts\<close>

record numparts =
  np_neg :: bool
  np_int :: ustr
  np_frac :: ustr
  np_exp :: "(bool \<times> ustr) option"

definition exp_text :: "(bool \<times> ustr) option \<Rightarrow> ustr" where
  "exp_text ex = (case ex of None \<Rightarrow> [] | Some (neg, ds) \<Rightarrow> 101 # (if neg then 45 else 43) # ds)"

definition text_of_parts :: "numparts \<Rightarrow> ustr" where
  "text_of_parts p =
     (if np_neg p then [45] else []) @ np_int p @
     (if np_frac p = [] then [] else 46 # np_frac p) @ exp_text (np_exp p)"

definition int_digits_ok :: "ustr \<Rightarrow> bool" where
  "int_digits_ok ds \<longleftrightarrow> all_digits ds \<and> (ds = [48] \<or> hd ds \<noteq> 48)"

definition parts_ok :: "numparts \<Rightarrow> bool" where
  "parts_ok p \<longleftrightarrow> int_digits_ok (np_int p) \<and> list_all is_digit_ascii (np_frac p) \<and>
     (case np_exp p of None \<Rightarrow> True | Some (neg, ds) \<Rightarrow> all_digits ds)"

definition is_float_parts :: "numparts \<Rightarrow> bool" where
  "is_float_parts p \<longleftrightarrow> np_frac p \<noteq> [] \<or> np_exp p \<noteq> None"

text \<open>\<open>float(text)\<close>: the decimal value correctly rounded.\<close>

definition dec_float :: "bool \<Rightarrow> nat \<Rightarrow> int \<Rightarrow> pyfloat" where
  "dec_float s c x =
     (if 0 \<le> x then round_ratio s (c * 10 ^ nat x) 1 else round_ratio s c (10 ^ nat (- x)))"

definition exp_value :: "(bool \<times> ustr) option \<Rightarrow> int" where
  "exp_value ex =
     (case ex of None \<Rightarrow> 0
      | Some (neg, ds) \<Rightarrow> (if neg then - int (nat_of_digits ds) else int (nat_of_digits ds)))"

definition float_of_parts :: "numparts \<Rightarrow> pyfloat" where
  "float_of_parts p =
     dec_float (np_neg p) (nat_of_digits (np_int p @ np_frac p))
       (exp_value (np_exp p) - int (length (np_frac p)))"

section \<open>Digits of a positive ratio\<close>

function lead_zeros :: "nat \<Rightarrow> nat \<Rightarrow> nat" where
  "lead_zeros num den =
     (if num = 0 \<or> den \<le> num * 10 then 0 else Suc (lead_zeros (num * 10) den))"
  by pat_completeness auto
termination
  by (relation "measure (\<lambda>(num, den). den - num)") auto

declare lead_zeros.simps [simp del]

text \<open>The exponent \<open>p\<close> with \<open>10 ^ (p - 1) \<le> num / den < 10 ^ p\<close>.\<close>

definition decpt :: "nat \<Rightarrow> nat \<Rightarrow> int" where
  "decpt num den =
     (if den \<le> num then int (length (str_of_nat (num div den))) else - int (lead_zeros num den))"

text \<open>\<open>num / den / 10 ^ k\<close> as a ratio of naturals.\<close>

definition ten_scaled :: "nat \<Rightarrow> nat \<Rightarrow> int \<Rightarrow> nat \<times> nat" where
  "ten_scaled num den k =
     (if 0 \<le> k then (num, den * 10 ^ nat k) else (num * 10 ^ nat (- k), den))"

definition strip_zeros :: "ustr \<Rightarrow> ustr" where
  "strip_zeros ds = rev (dropWhile (\<lambda>c. c = 48) (rev ds))"

definition exp_part :: "int \<Rightarrow> bool \<times> ustr" where
  "exp_part x = (x < 0, zfill 2 (nat \<bar>x\<bar>))"

text \<open>The digit string \<open>0.ds\<close> times \<open>10 ^ p\<close> in the layout of \<open>repr\<close>.\<close>

definition repr_layout :: "bool \<Rightarrow> ustr \<Rightarrow> int \<Rightarrow> numparts" where
  "repr_layout s ds p =
     (if p \<le> - 4 \<or> 16 < p
      then \<lparr>np_neg = s, np_int = take 1 ds, np_frac = drop 1 ds, np_exp = Some (exp_part (p - 1))\<rparr>
      else if p \<le> 0
      then \<lparr>np_neg = s, np_int = [48], np_frac = replicate (nat (- p)) 48 @ ds, np_exp = None\<rparr>
      else if int (length ds) \<le> p
      then \<lparr>np_neg = s, np_int = ds @ replicate (nat p - length ds) 48, np_frac = [48], np_exp = None\<rparr>
      else \<lparr>np_neg = s, np_int = take (nat p) ds, np_frac = drop (nat p) ds, np_exp = None\<rparr>)"

text \<open>The two \<open>n\<close>-digit decimals around a ratio, the nearer first.\<close>

definition digit_candidates :: "bool \<Rightarrow> nat \<Rightarrow> nat \<Rightarrow> nat \<Rightarrow> numparts list" where
  "digit_candidates s num den n =
     (let p = decpt num den; (a, b) = ten_scaled num den (p - int n); lo = a div b;
          layout = (\<lambda>d. repr_layout s (strip_zeros (str_of_nat d))
                      (p + int (length (str_of_nat d)) - int n))
      in if half_even a b = lo then [layout lo, layout (lo + 1)] else [layout (lo + 1), layout lo])"

definition exact_parts :: "bool \<Rightarrow> nat \<Rightarrow> int \<Rightarrow> numparts" where
  "exact_parts s m e =
     (if 0 \<le> e
      then \<lparr>np_neg = s, np_int = str_of_nat (m * 2 ^ nat e), np_frac = [48], np_exp = None\<rparr>
      else let k = nat (- e); ds = zfill (k + 1) (m * 5 ^ k)
           in \<lparr>np_neg = s, np_int = take (length ds - k) ds, np_frac = drop (length ds - k) ds,
               np_exp = None\<rparr>)"

definition digit_counts :: "nat list" where
  "digit_counts = [1, 2, 3, 4, 5, 6, 7, 8, 9, 10, 11, 12, 13, 14, 15, 16, 17]"

definition ratio_of :: "nat \<Rightarrow> int \<Rightarrow> nat \<times> nat" where
  "ratio_of m e = (if 0 \<le> e then (m * 2 ^ nat e, 1) else (m, 2 ^ nat (- e)))"

definition shortest :: "(nat \<Rightarrow> numparts list) \<Rightarrow> pyfloat \<Rightarrow> numparts option" where
  "shortest cands x =
     first_some (\<lambda>n. find (\<lambda>p. parts_ok p \<and> is_float_parts p \<and> float_of_parts p = x) (cands n))
       digit_counts"

definition repr_parts :: "bool \<Rightarrow> nat \<Rightarrow> int \<Rightarrow> numparts" where
  "repr_parts s m e =
     (if m = 0 then \<lparr>np_neg = s, np_int = [48], np_frac = [48], np_exp = None\<rparr>
      else let (num, den) = ratio_of m e
           in case shortest (digit_candidates s num den) (PFin s m e) of
                Some p \<Rightarrow> p
              | None \<Rightarrow> exact_parts s m e)"

definition float_repr :: "pyfloat \<Rightarrow> ustr" where
  "float_repr x =
     (case x of
        PFin s m e \<Rightarrow> text_of_parts (repr_parts s m e)
      | PInf s \<Rightarrow> if s then u ''-inf'' else u ''inf''
      | PNaN \<Rightarrow> u ''nan'')"

section \<open>Reading the representation back\<close>

lemma shortest_SomeD:
  "shortest cands x = Some p \<Longrightarrow> parts_ok p \<and> is_float_parts p \<and> float_of_parts p = x"
  unfolding shortest_def by (drule first_some_SomeD) (auto simp: find_Some_iff)

lemma int_digits_ok_nat: "int_digits_ok (str_of_nat n)"
proof (cases "n = 0")
  case True
  then show ?thesis by (simp add: int_digits_ok_def all_digits_def str_of_nat.simps is_digit_ascii_def)
next
  case False
  then show ?thesis by (simp add: int_digits_ok_def all_digits_str_of_nat hd_str_of_nat)
qed

lemma zfill_split:
  assumes "0 < k"
  shows "\<exists>a b. zfill (k + 1) n = a @ b \<and> length b = k \<and> int_digits_ok a \<and> list_all is_digit_ascii b"
proof -
  let ?z = "zfill (k + 1) n"
  let ?j = "length ?z - k"
  have len: "k + 1 \<le> length ?z" by (simp add: zfill_def)
  have d: "list_all is_digit_ascii ?z" by (rule zfill_digits)
  have "int_digits_ok (take ?j ?z)"
  proof (cases "length (str_of_nat n) \<le> k")
    case True
    then have z: "?z = 48 # replicate (k - length (str_of_nat n)) 48 @ str_of_nat n"
      by (simp add: zfill_def Suc_diff_le)
    then have "length ?z = k + 1" using True by simp
    then have "take ?j ?z = [48]" using z by simp
    then show ?thesis by (simp add: int_digits_ok_def all_digits_def is_digit_ascii_def)
  next
    case False
    then have z: "?z = str_of_nat n" by (simp add: zfill_def)
    from False have "n \<noteq> 0" using assms by (cases "n = 0") (simp_all add: str_of_nat.simps [of 0])
    then have "hd (take ?j ?z) \<noteq> 48" using len z by (simp add: hd_str_of_nat hd_take)
    moreover have "list_all is_digit_ascii (take ?j ?z)"
      using d by (auto simp: list_all_iff dest: in_set_takeD)
    moreover have "take ?j ?z \<noteq> []" using len by (cases ?z) simp_all
    ultimately show ?thesis by (simp add: int_digits_ok_def all_digits_def)
  qed
  moreover have "list_all is_digit_ascii (drop ?j ?z)"
    using d by (auto simp: list_all_iff dest: in_set_dropD)
  ultimately show ?thesis
    using len by (intro exI [where x = "take ?j ?z"] exI [where x = "drop ?j ?z"]) simp
qed

lemma exact_parts_ok:
  assumes "canonical (PFin s m e)"
  shows "parts_ok (exact_parts s m e) \<and> is_float_parts (exact_parts s m e) \<and>
    float_of_parts (exact_parts s m e) = PFin s m e"
proof (cases "0 \<le> e")
  case True
  have "round_ratio s (nat_of_digits (str_of_nat (m * 2 ^ nat e) @ [48])) 10 = PFin s m e"
    using True by (intro round_ratio_exact [OF assms]) (simp_all add: mag_def power_int_def)
  with True show ?thesis
    by (simp add: exact_parts_def parts_ok_def is_float_parts_def float_of_parts_def dec_float_def
        exp_value_def int_digits_ok_nat is_digit_ascii_def del: nat_of_digits_snoc)
next
  case False
  define k where "k = nat (- e)"
  with False have k: "0 < k" "e = - int k" by simp_all
  obtain a b where z: "zfill (k + 1) (m * 5 ^ k) = a @ b" "length b = k" "int_digits_ok a"
    "list_all is_digit_ascii b" using zfill_split [OF k(1)] by blast
  have x: "exact_parts s m e = \<lparr>np_neg = s, np_int = a, np_frac = b, np_exp = None\<rparr>"
    using False z(1,2) k by (simp add: exact_parts_def Let_def)
  have n: "nat_of_digits (a @ b) = m * 5 ^ k"
    unfolding z(1) [symmetric] by (rule nat_of_digits_zfill)
  have "real (m * 5 ^ k) / real (10 ^ k) = mag m e"
  proof -
    have "(10::real) ^ k = 2 ^ k * 5 ^ k" by (simp flip: power_mult_distrib)
    then show ?thesis
      using k by (simp add: mag_def power_int_minus power_int_of_nat field_simps)
  qed
  then have "round_ratio s (m * 5 ^ k) (10 ^ k) = PFin s m e"
    by (intro round_ratio_exact [OF assms]) simp_all
  with z(2-4) k(1) n show ?thesis
    unfolding x parts_ok_def is_float_parts_def float_of_parts_def dec_float_def exp_value_def by auto
qed

lemma repr_parts_read:
  assumes "canonical (PFin s m e)"
  shows "parts_ok (repr_parts s m e) \<and> is_float_parts (repr_parts s m e) \<and>
    float_of_parts (repr_parts s m e) = PFin s m e"
proof (cases "m = 0")
  case True
  with assms have "e = - 1074" by auto
  with True show ?thesis
    by (simp add: repr_parts_def parts_ok_def is_float_parts_def float_of_parts_def dec_float_def
        exp_value_def nat_of_digits_def round_ratio_def int_digits_ok_def all_digits_def is_digit_ascii_def)
next
  case False
  then show ?thesis
    using exact_parts_ok [OF assms]
    by (auto simp: repr_parts_def split: prod.splits option.splits dest: shortest_SomeD)
qed

lemma parts_ok_digits:
  "parts_ok p \<Longrightarrow> np_int p \<noteq> [] \<and> is_digit_ascii (hd (np_int p))"
  by (cases "np_int p") (auto simp: parts_ok_def int_digits_ok_def all_digits_def)

section \<open>The format \<open>:g\<close>\<close>

definition general_format :: "pyfloat \<Rightarrow> ustr" where
  "general_format x =
     (case x of
        PFin s m e \<Rightarrow>
          (if s then [45] else []) @
          (if m = 0 then [48]
           else let (num, den) = ratio_of m e; q = decpt num den;
                    (a, b) = ten_scaled num den (q - 6); d = half_even a b;
                    p = q + int (length (str_of_nat d)) - 6; ds = strip_zeros (str_of_nat d)
                in if p < - 3 \<or> 6 < p
                   then take 1 ds @ (if drop 1 ds = [] then [] else 46 # drop 1 ds) @
                     exp_text (Some (exp_part (p - 1)))
                   else if p \<le> 0 then [48, 46] @ replicate (nat (- p)) 48 @ ds
                   else if int (length ds) \<le> p then ds @ replicate (nat p - length ds) 48
                   else take (nat p) ds @ [46] @ drop (nat p) ds)
      | PInf s \<Rightarrow> if s then u ''-inf'' else u ''inf''
      | PNaN \<Rightarrow> u ''nan'')"

end
