(* ===== verification/Json.thy ===== *)
theory Json
  imports FloatText PyDict Utf8
begin

text \<open>
  Python's \<open>json\<close> module as the program uses it: \<open>json.dumps\<close> with \<open>ensure_ascii=False\<close>,
  \<open>allow_nan=False\<close> and compact separators, and \<open>json.loads\<close> of a text. Objects are dictionaries in
  insertion order. \<open>loads\<close> raises \<open>JSONDecodeError\<close> or another \<open>ValueError\<close> (\<open>BadJson\<close>), or
  \<open>RecursionError\<close> (\<open>TooDeep\<close>) when containers nest deeper than the interpreter's stack allows; that
  limit is an argument. The scanner carries fuel; \<open>scan_enough\<close> shows that the fuel \<open>loads\<close> gives
  it never runs out, so \<open>OutOfFuel\<close> is not a result.
\<close>

datatype json =
    JNull
  | JBool bool
  | JInt int
  | JFloat pyfloat
  | JStr ustr
  | JArr "json list"
  | JObj "(ustr \<times> json) list"

datatype json_error = BadJson | TooDeep | OutOfFuel

section \<open>Writing\<close>

definition hex_digit :: "nat \<Rightarrow> nat" where
  "hex_digit n = (if n < 10 then 48 + n else 87 + n)"

definition esc_char :: "nat \<Rightarrow> ustr" where
  "esc_char c =
     (if c = 34 then [92, 34] else if c = 92 then [92, 92]
      else if c = 10 then [92, 110] else if c = 13 then [92, 114] else if c = 9 then [92, 116]
      else if c = 12 then [92, 102] else if c = 8 then [92, 98]
      else if c < 32 then [92, 117, 48, 48, hex_digit (c div 16), hex_digit (c mod 16)]
      else [c])"

definition dump_str :: "ustr \<Rightarrow> ustr" where
  "dump_str s = 34 # concat (map esc_char s) @ [34]"

fun dumps :: "json \<Rightarrow> json_error + ustr" where
  "dumps JNull = Inr (u ''null'')"
| "dumps (JBool b) = Inr (if b then u ''true'' else u ''false'')"
| "dumps (JInt i) = Inr (str_of_int i)"
| "dumps (JFloat x) = (if f_is_finite x then Inr (float_repr x) else Inl BadJson)"
| "dumps (JStr s) = Inr (dump_str s)"
| "dumps (JArr vs) = bindE (mapE dumps vs) (\<lambda>ts. Inr (91 # join_with [44] ts @ [93]))"
| "dumps (JObj kvs) =
     bindE (mapE (\<lambda>p. bindE (dumps (snd p)) (\<lambda>t. Inr (dump_str (fst p) @ 58 # t))) kvs)
       (\<lambda>ts. Inr (123 # join_with [44] ts @ [125]))"

section \<open>Reading strings and numbers\<close>

definition hex_value :: "nat \<Rightarrow> nat option" where
  "hex_value c =
     (if 48 \<le> c \<and> c \<le> 57 then Some (c - 48) else if 97 \<le> c \<and> c \<le> 102 then Some (c - 87)
      else if 65 \<le> c \<and> c \<le> 70 then Some (c - 55) else None)"

definition hex4 :: "ustr \<Rightarrow> (nat \<times> ustr) option" where
  "hex4 s =
     (case s of
        a # b # c # d # r \<Rightarrow>
          (case (hex_value a, hex_value b, hex_value c, hex_value d) of
             (Some a, Some b, Some c, Some d) \<Rightarrow> Some (((a * 16 + b) * 16 + c) * 16 + d, r)
           | _ \<Rightarrow> None)
      | _ \<Rightarrow> None)"

definition simple_escapes :: "(nat \<times> nat) list" where
  "simple_escapes = [(34, 34), (92, 92), (47, 47), (98, 8), (102, 12), (110, 10), (114, 13), (116, 9)]"

text \<open>The character after a backslash, and the rest; a surrogate pair is one character.\<close>

definition unescape :: "ustr \<Rightarrow> (nat \<times> ustr) option" where
  "unescape s =
     (case s of
        [] \<Rightarrow> None
      | e # r \<Rightarrow>
          (if e = 117
           then (case hex4 r of
                   None \<Rightarrow> None
                 | Some (n, r1) \<Rightarrow>
                     (if 55296 \<le> n \<and> n \<le> 56319 \<and> take 2 r1 = [92, 117]
                      then (case hex4 (drop 2 r1) of
                              None \<Rightarrow> None
                            | Some (k, r2) \<Rightarrow>
                                (if 56320 \<le> k \<and> k \<le> 57343
                                 then Some (65536 + (n - 55296) * 1024 + (k - 56320), r2)
                                 else Some (n, r1)))
                      else Some (n, r1)))
           else map_option (\<lambda>c. (c, r)) (map_of simple_escapes e)))"

lemma hex4_shorter: "hex4 s = Some (n, r) \<Longrightarrow> length r < length s"
  by (auto simp: hex4_def split: list.splits option.splits)

lemma unescape_shorter:
  assumes "unescape s = Some (c, r)"
  shows "length r < length s"
proof (cases s)
  case Nil
  with assms show ?thesis by (simp add: unescape_def)
next
  case (Cons e t)
  show ?thesis
  proof (cases "e = 117")
    case False
    with assms Cons show ?thesis by (auto simp: unescape_def)
  next
    case True
    with assms Cons obtain n r1 where 1: "hex4 t = Some (n, r1)"
      by (auto simp: unescape_def split: option.splits)
    show ?thesis
    proof (cases "r = r1")
      case True
      with hex4_shorter [OF 1] Cons show ?thesis by simp
    next
      case False
      with assms Cons True 1 obtain k where "hex4 (drop 2 r1) = Some (k, r)"
        by (auto simp: unescape_def split: option.splits if_splits)
      from hex4_shorter [OF this] hex4_shorter [OF 1] Cons show ?thesis by simp
    qed
  qed
qed

function scan_str :: "ustr \<Rightarrow> (ustr \<times> ustr) option" where
  "scan_str s =
     (case s of
        [] \<Rightarrow> None
      | c # r \<Rightarrow>
          if c = 34 then Some ([], r)
          else if c = 92
          then (case unescape r of
                  None \<Rightarrow> None
                | Some (x, r1) \<Rightarrow> map_option (\<lambda>(t, r2). (x # t, r2)) (scan_str r1))
          else if c < 32 then None
          else map_option (\<lambda>(t, r2). (c # t, r2)) (scan_str r))"
  by pat_completeness auto
termination
  by (relation "measure length") (auto dest: unescape_shorter)

declare scan_str.simps [simp del]

definition span_digits :: "ustr \<Rightarrow> ustr \<times> ustr" where
  "span_digits s = (takeWhile is_digit_ascii s, dropWhile is_digit_ascii s)"

definition starts_digit :: "ustr \<Rightarrow> bool" where
  "starts_digit s \<longleftrightarrow> s \<noteq> [] \<and> is_digit_ascii (hd s)"

definition scan_int :: "ustr \<Rightarrow> (ustr \<times> ustr) option" where
  "scan_int s =
     (if starts_digit s then (if hd s = 48 then Some ([48], tl s) else Some (span_digits s)) else None)"

definition scan_frac :: "ustr \<Rightarrow> ustr \<times> ustr" where
  "scan_frac s = (if take 1 s = [46] \<and> starts_digit (drop 1 s) then span_digits (drop 1 s) else ([], s))"

definition scan_exp :: "ustr \<Rightarrow> (bool \<times> ustr) option \<times> ustr" where
  "scan_exp s =
     (if take 1 s = [101] \<or> take 1 s = [69]
      then (let r = drop 1 s; signed = take 1 r = [43] \<or> take 1 r = [45];
                r1 = (if signed then drop 1 r else r)
            in if starts_digit r1
               then (let (ds, r2) = span_digits r1 in (Some (take 1 r = [45], ds), r2))
               else (None, s))
      else (None, s))"

definition scan_num :: "ustr \<Rightarrow> (numparts \<times> ustr) option" where
  "scan_num s =
     (let neg = (take 1 s = [45]) in
      case scan_int (if neg then drop 1 s else s) of
        None \<Rightarrow> None
      | Some (i, r) \<Rightarrow>
          (let (f, r1) = scan_frac r; (e, r2) = scan_exp r1
           in Some (\<lparr>np_neg = neg, np_int = i, np_frac = f, np_exp = e\<rparr>, r2)))"

definition MAX_INT_DIGITS :: nat where
  "MAX_INT_DIGITS = 4300"

definition num_value :: "numparts \<Rightarrow> json_error + json" where
  "num_value p =
     (if is_float_parts p then Inr (JFloat (float_of_parts p))
      else if MAX_INT_DIGITS < length (np_int p) then Inl BadJson
      else Inr (JInt (if np_neg p then - int (nat_of_digits (np_int p))
                      else int (nat_of_digits (np_int p)))))"

section \<open>Reading values\<close>

definition skip_ws :: "ustr \<Rightarrow> ustr" where
  "skip_ws s = dropWhile (\<lambda>c. c = 32 \<or> c = 9 \<or> c = 10 \<or> c = 13) s"

definition json_words :: "(ustr \<times> json) list" where
  "json_words =
     [(u ''null'', JNull), (u ''true'', JBool True), (u ''false'', JBool False),
      (u ''NaN'', JFloat PNaN), (u ''Infinity'', JFloat (PInf False)),
      (u ''-Infinity'', JFloat (PInf True))]"

definition scan_word :: "ustr \<Rightarrow> (json \<times> ustr) option" where
  "scan_word s =
     map_option (\<lambda>(w, v). (v, drop (length w) s)) (find (\<lambda>(w, v). starts_with w s) json_words)"

fun scan_value :: "nat \<Rightarrow> nat \<Rightarrow> ustr \<Rightarrow> json_error + (json \<times> ustr)"
and scan_items :: "nat \<Rightarrow> nat \<Rightarrow> ustr \<Rightarrow> json_error + (json list \<times> ustr)"
and scan_fields :: "nat \<Rightarrow> nat \<Rightarrow> ustr \<Rightarrow> json_error + ((ustr \<times> json) list \<times> ustr)"
where
  "scan_value 0 d s = Inl OutOfFuel"
| "scan_value (Suc f) d s =
     (case s of
        [] \<Rightarrow> Inl BadJson
      | c # r \<Rightarrow>
          if c = 34
          then (case scan_str r of None \<Rightarrow> Inl BadJson | Some (t, r1) \<Rightarrow> Inr (JStr t, r1))
          else if c = 123
          then (if d = 0 then Inl TooDeep
                else if take 1 (skip_ws r) = [125] then Inr (JObj [], drop 1 (skip_ws r))
                else bindE (scan_fields f (d - 1) (skip_ws r))
                       (\<lambda>(kvs, r1). Inr (JObj (dict_of kvs), r1)))
          else if c = 91
          then (if d = 0 then Inl TooDeep
                else if take 1 (skip_ws r) = [93] then Inr (JArr [], drop 1 (skip_ws r))
                else bindE (scan_items f (d - 1) (skip_ws r)) (\<lambda>(vs, r1). Inr (JArr vs, r1)))
          else (case scan_word s of
                  Some (v, r1) \<Rightarrow> Inr (v, r1)
                | None \<Rightarrow>
                    (case scan_num s of
                       None \<Rightarrow> Inl BadJson
                     | Some (p, r1) \<Rightarrow> bindE (num_value p) (\<lambda>v. Inr (v, r1)))))"
| "scan_items 0 d s = Inl OutOfFuel"
| "scan_items (Suc f) d s =
     bindE (scan_value f d s) (\<lambda>(v, r).
       if take 1 (skip_ws r) = [93] then Inr ([v], drop 1 (skip_ws r))
       else if take 1 (skip_ws r) = [44]
       then bindE (scan_items f d (skip_ws (drop 1 (skip_ws r)))) (\<lambda>(vs, r1). Inr (v # vs, r1))
       else Inl BadJson)"
| "scan_fields 0 d s = Inl OutOfFuel"
| "scan_fields (Suc f) d s =
     (if take 1 s = [34]
      then (case scan_str (drop 1 s) of
              None \<Rightarrow> Inl BadJson
            | Some (k, r) \<Rightarrow>
                if take 1 (skip_ws r) = [58]
                then bindE (scan_value f d (skip_ws (drop 1 (skip_ws r)))) (\<lambda>(v, r1).
                       if take 1 (skip_ws r1) = [125] then Inr ([(k, v)], drop 1 (skip_ws r1))
                       else if take 1 (skip_ws r1) = [44]
                       then bindE (scan_fields f d (skip_ws (drop 1 (skip_ws r1))))
                              (\<lambda>(kvs, r2). Inr ((k, v) # kvs, r2))
                       else Inl BadJson)
                else Inl BadJson)
      else Inl BadJson)"

definition loads :: "nat \<Rightarrow> ustr \<Rightarrow> json_error + json" where
  "loads limit s =
     (if take 1 s = [65279] then Inl BadJson
      else bindE (scan_value (2 * length s + 2) limit (skip_ws s))
             (\<lambda>(v, r). if skip_ws r = [] then Inr v else Inl BadJson))"

section \<open>The fuel is enough\<close>

lemma scan_str_shorter: "scan_str s = Some (t, r) \<Longrightarrow> length r < length s"
proof (induction s arbitrary: t rule: scan_str.induct)
  case (1 s)
  show ?case
  proof (cases s)
    case Nil
    with "1.prems" show ?thesis by (simp add: scan_str.simps [of "[]"])
  next
    case (Cons c q)
    with 1 show ?thesis
      by (fastforce simp: scan_str.simps [of "c # q"] split: option.splits if_splits
          dest: unescape_shorter)
  qed
qed

lemma skip_ws_le: "length (skip_ws s) \<le> length s"
  by (simp add: skip_ws_def length_dropWhile_le)

lemma span_digits_le: "span_digits s = (a, r) \<Longrightarrow> length r \<le> length s"
  by (auto simp: span_digits_def length_dropWhile_le)

lemma scan_int_shorter: "scan_int s = Some (i, r) \<Longrightarrow> length r < length s"
  by (cases s) (auto simp: scan_int_def starts_digit_def span_digits_def length_dropWhile_le
      less_Suc_eq_le split: if_splits)

lemma scan_frac_le: "scan_frac s = (a, r) \<Longrightarrow> length r \<le> length s"
  using span_digits_le [of "drop 1 s" a r] by (auto simp: scan_frac_def split: if_splits)

lemma scan_exp_le: "scan_exp s = (a, r) \<Longrightarrow> length r \<le> length s"
  by (auto simp: scan_exp_def Let_def split: if_splits prod.splits dest!: span_digits_le)

lemma scan_num_shorter:
  assumes "scan_num s = Some (p, r)"
  shows "length r < length s"
proof -
  from assms obtain i r0 f r1 e where
    *: "scan_int (if take 1 s = [45] then drop 1 s else s) = Some (i, r0)"
      "scan_frac r0 = (f, r1)" "scan_exp r1 = (e, r)"
    by (auto simp: scan_num_def Let_def split: option.splits prod.splits)
  from scan_int_shorter [OF *(1)] have "length r0 < length s" by (auto split: if_splits)
  with scan_frac_le [OF *(2)] scan_exp_le [OF *(3)] show ?thesis by simp
qed

lemma scan_word_shorter:
  assumes "scan_word s = Some (v, r)"
  shows "length r < length s"
proof -
  from assms obtain w where "(w, v) \<in> set json_words" "starts_with w s" "r = drop (length w) s"
    by (auto simp: scan_word_def find_Some_iff in_set_conv_nth) (metis nth_mem)
  moreover have "w \<noteq> []" using calculation(1) by (auto simp: json_words_def)
  ultimately show ?thesis
    by (metis append.right_neutral append_eq_conv_conj append_take_drop_id diff_less
        length_drop length_greater_0_conv starts_with_def take_eq_Nil)
qed

lemma take1_length: "take 1 s = [x] \<Longrightarrow> 0 < length s"
  by (cases s) simp_all

lemma ws_step: "take 1 (skip_ws r) = [x] \<Longrightarrow> length (drop 1 (skip_ws r)) < length r"
  using skip_ws_le [of r] by (cases "skip_ws r") simp_all

lemma ws_step_ws: "take 1 (skip_ws r) = [x] \<Longrightarrow> length (skip_ws (drop 1 (skip_ws r))) < length r"
  using ws_step [of r x] skip_ws_le [of "drop 1 (skip_ws r)"] by linarith

lemma scan_value_Cons:
  "scan_value (Suc f) d (c # r) =
     (if c = 34
      then (case scan_str r of None \<Rightarrow> Inl BadJson | Some (t, r1) \<Rightarrow> Inr (JStr t, r1))
      else if c = 123
      then (if d = 0 then Inl TooDeep
            else if take 1 (skip_ws r) = [125] then Inr (JObj [], drop 1 (skip_ws r))
            else bindE (scan_fields f (d - 1) (skip_ws r)) (\<lambda>(kvs, r1). Inr (JObj (dict_of kvs), r1)))
      else if c = 91
      then (if d = 0 then Inl TooDeep
            else if take 1 (skip_ws r) = [93] then Inr (JArr [], drop 1 (skip_ws r))
            else bindE (scan_items f (d - 1) (skip_ws r)) (\<lambda>(vs, r1). Inr (JArr vs, r1)))
      else (case scan_word (c # r) of
              Some (v, r1) \<Rightarrow> Inr (v, r1)
            | None \<Rightarrow> (case scan_num (c # r) of
                   None \<Rightarrow> Inl BadJson
                 | Some (p, r1) \<Rightarrow> bindE (num_value p) (\<lambda>v. Inr (v, r1)))))"
  by simp

lemma scan_shorter:
  "scan_value f d s = Inr (v, r) \<Longrightarrow> length r < length s"
  "scan_items f d s = Inr (vs, r) \<Longrightarrow> length r < length s"
  "scan_fields f d s = Inr (kvs, r) \<Longrightarrow> length r < length s"
proof (induction f d s and f d s and f d s arbitrary: v r and vs r and kvs r
    rule: scan_value_scan_items_scan_fields.induct)
  case (2 f d s)
  show ?case
  proof (cases s)
    case Nil
    with 2 show ?thesis by simp
  next
    case (Cons c q)
    consider "c = 34" | "c = 123" | "c = 91" | "c \<noteq> 34" "c \<noteq> 123" "c \<noteq> 91" by blast
    then show ?thesis
    proof cases
      case 1
      with 2 Cons show ?thesis
        by (auto split: option.splits dest!: scan_str_shorter)
    next
      case c: 2
      show ?thesis
      proof (cases "take 1 (skip_ws q) = [125]")
        case True
        with 2 Cons c show ?thesis using ws_step [OF True] by (auto split: if_splits)
      next
        case False
        with 2 Cons c obtain kvs where "scan_fields f (d - 1) (skip_ws q) = Inr (kvs, r)"
          by (auto simp: result_simps split: if_splits)
        with 2(1) Cons c False 2(3) skip_ws_le [of q] show ?thesis by (fastforce split: if_splits)
      qed
    next
      case c: 3
      show ?thesis
      proof (cases "take 1 (skip_ws q) = [93]")
        case True
        with 2 Cons c show ?thesis using ws_step [OF True] by (auto split: if_splits)
      next
        case False
        with 2 Cons c obtain vs where "scan_items f (d - 1) (skip_ws q) = Inr (vs, r)"
          by (auto simp: result_simps split: if_splits)
        with 2(2) Cons c False 2(3) skip_ws_le [of q] show ?thesis by (fastforce split: if_splits)
      qed
    next
      case 4
      with 2(3) Cons show ?thesis
        by (auto simp: result_simps split: option.splits dest!: scan_word_shorter scan_num_shorter)
    qed
  qed
next
  case (4 f d s)
  obtain w q where w: "scan_value f d s = Inr (w, q)"
    using 4(3) by (auto simp: result_simps)
  have q: "length q < length s" by (rule 4(1) [OF w])
  show ?case
  proof (cases "take 1 (skip_ws q) = [93]")
    case True
    with 4(3) w q ws_step [OF True] show ?thesis by auto
  next
    case False
    with 4(3) w have c: "take 1 (skip_ws q) = [44]" by (auto split: if_splits)
    with 4(3) w False obtain ws where
      "scan_items f d (skip_ws (drop 1 (skip_ws q))) = Inr (ws, r)" by (auto simp: result_simps)
    from 4(2) [OF w refl False c this] ws_step_ws [OF c] q show ?thesis by linarith
  qed
next
  case (6 f d s)
  from 6(3) obtain k q where k: "take 1 s = [34]" "scan_str (drop 1 s) = Some (k, q)"
    "take 1 (skip_ws q) = [58]" by (auto split: if_splits option.splits)
  with 6(3) obtain w q1 where w: "scan_value f d (skip_ws (drop 1 (skip_ws q))) = Inr (w, q1)"
    by (auto simp: result_simps)
  have q: "length q < length s"
    using scan_str_shorter [OF k(2)] by simp
  have q1: "length q1 < length q"
    using 6(1) [OF k(1,2) refl k(3) w] ws_step_ws [OF k(3)] by linarith
  show ?case
  proof (cases "take 1 (skip_ws q1) = [125]")
    case True
    with 6(3) k w q q1 ws_step [OF True] show ?thesis by auto
  next
    case False
    with 6(3) k w have c: "take 1 (skip_ws q1) = [44]" by (auto split: if_splits)
    with 6(3) k w False obtain ws where
      "scan_fields f d (skip_ws (drop 1 (skip_ws q1))) = Inr (ws, r)" by (auto simp: result_simps)
    from 6(2) [OF k(1,2) refl k(3) w refl False c this] ws_step_ws [OF c] q q1 show ?thesis
      by linarith
  qed
qed simp_all

declare scan_value.simps [simp del] scan_items.simps [simp del] scan_fields.simps [simp del]

lemma scan_no_fuel [simp]:
  "scan_value 0 d s = Inl OutOfFuel" "scan_items 0 d s = Inl OutOfFuel"
  "scan_fields 0 d s = Inl OutOfFuel"
  by (simp_all add: scan_value.simps scan_items.simps scan_fields.simps)

lemma scan_value_Nil [simp]: "scan_value (Suc f) d [] = Inl BadJson"
  by (simp add: scan_value.simps)

text \<open>More fuel never changes a result that was not for want of fuel.\<close>

definition approx :: "json_error + 'a \<Rightarrow> json_error + 'a \<Rightarrow> bool" where
  "approx a b \<longleftrightarrow> a = Inl OutOfFuel \<or> a = b"

lemma approx_refl [intro, simp]: "approx a a"
  by (simp add: approx_def)

lemma approx_bind:
  "approx m m' \<Longrightarrow> (\<And>x. approx (g x) (g' x)) \<Longrightarrow> approx (bindE m g) (bindE m' g')"
  unfolding approx_def by (cases m) fastforce+

lemma scan_mono_step:
  "approx (scan_value f d s) (scan_value (Suc f) d s)"
  "approx (scan_items f d s) (scan_items (Suc f) d s)"
  "approx (scan_fields f d s) (scan_fields (Suc f) d s)"
proof (induction f arbitrary: d s)
  case 0
  {
    case 1
    show ?case by (simp add: approx_def)
  next
    case 2
    show ?case by (simp add: approx_def)
  next
    case 3
    show ?case by (simp add: approx_def)
  }
next
  case (Suc f)
  {
    case 1
    show ?case
    proof (cases s)
      case Nil
      then show ?thesis by simp
    next
      case (Cons c r)
      then show ?thesis
        by (simp only: scan_value_Cons) (auto intro!: approx_bind Suc split: option.splits)
    qed
  next
    case 2
    show ?case
      by (simp only: scan_items.simps(2) [of f d s] scan_items.simps(2) [of "Suc f" d s])
        (auto intro!: approx_bind Suc split: prod.splits)
  next
    case 3
    show ?case
      by (simp only: scan_fields.simps(2) [of f d s] scan_fields.simps(2) [of "Suc f" d s])
        (auto intro!: approx_bind Suc split: option.splits prod.splits)
  }
qed

lemma scan_mono:
  "f \<le> f' \<Longrightarrow> scan_value f d s = x \<Longrightarrow> x \<noteq> Inl OutOfFuel \<Longrightarrow> scan_value f' d s = x"
proof (induction f' rule: dec_induct)
  case base
  then show ?case by simp
next
  case (step n)
  then show ?case using scan_mono_step(1) [of n d s] by (simp add: approx_def)
qed

lemma num_value_fuel: "num_value p \<noteq> Inl OutOfFuel"
  by (simp add: num_value_def)

lemma scan_enough:
  "2 * length s + 2 \<le> f \<Longrightarrow> scan_value f d s \<noteq> Inl OutOfFuel"
  "2 * length s + 3 \<le> f \<Longrightarrow> scan_items f d s \<noteq> Inl OutOfFuel"
  "2 * length s + 3 \<le> f \<Longrightarrow> scan_fields f d s \<noteq> Inl OutOfFuel"
proof (induction f arbitrary: d s)
  case 0
  {
    case 1
    then show ?case by simp
  next
    case 2
    then show ?case by simp
  next
    case 3
    then show ?case by simp
  }
next
  case (Suc f)
  {
    case 1
    show ?case
    proof (cases s)
      case Nil
      then show ?thesis by simp
    next
      case (Cons c r)
      have "2 * length (skip_ws r) + 3 \<le> f" using 1 Cons skip_ws_le [of r] by simp
      then have "scan_items f d' (skip_ws r) \<noteq> Inl OutOfFuel"
        "scan_fields f d' (skip_ws r) \<noteq> Inl OutOfFuel" for d'
        using Suc.IH(2,3) by simp_all
      then show ?thesis
        unfolding Cons scan_value_Cons
        by (auto simp: result_simps num_value_fuel split: option.splits)
    qed
  next
    case 2
    have v: "scan_value f d s \<noteq> Inl OutOfFuel" using Suc.IH(1) 2 by simp
    have "scan_items f d (skip_ws (drop 1 (skip_ws r))) \<noteq> Inl OutOfFuel"
      if "scan_value f d s = Inr (w, r)" "take 1 (skip_ws r) = [44]" for w r
      using scan_shorter(1) [OF that(1)] ws_step_ws [OF that(2)] 2 by (intro Suc.IH(2)) simp
    with v show ?case
      unfolding scan_items.simps(2) by (auto simp: result_simps split: prod.splits if_splits)
  next
    case 3
    have v: "scan_value f d (skip_ws (drop 1 (skip_ws q))) \<noteq> Inl OutOfFuel"
      if "scan_str (drop 1 s) = Some (k, q)" "take 1 (skip_ws q) = [58]" for k q
      using scan_str_shorter [OF that(1)] ws_step_ws [OF that(2)] 3 by (intro Suc.IH(1)) simp
    have "scan_fields f d (skip_ws (drop 1 (skip_ws r))) \<noteq> Inl OutOfFuel"
      if "scan_str (drop 1 s) = Some (k, q)" "take 1 (skip_ws q) = [58]"
        "scan_value f d (skip_ws (drop 1 (skip_ws q))) = Inr (w, r)" "take 1 (skip_ws r) = [44]"
      for k q w r
      using scan_str_shorter [OF that(1)] ws_step_ws [OF that(2)] scan_shorter(1) [OF that(3)]
        ws_step_ws [OF that(4)] 3 by (intro Suc.IH(3)) simp
    with v show ?case
      unfolding scan_fields.simps(2) by (auto simp: result_simps split: prod.splits option.splits if_splits)
  }
qed

lemma loads_no_fuel: "loads limit s \<noteq> Inl OutOfFuel"
proof -
  have "scan_value (2 * length s + 2) limit (skip_ws s) \<noteq> Inl OutOfFuel"
    using skip_ws_le [of s] by (intro scan_enough(1)) simp
  then show ?thesis by (auto simp: loads_def result_simps split: if_splits)
qed

section \<open>What is written is read back\<close>

fun json_ok :: "json \<Rightarrow> bool" where
  "json_ok (JInt i) = (length (str_of_nat (nat \<bar>i\<bar>)) \<le> MAX_INT_DIGITS)"
| "json_ok (JFloat x) = (canonical x \<and> f_is_finite x)"
| "json_ok (JArr vs) = list_all json_ok vs"
| "json_ok (JObj kvs) = (dict_ok kvs \<and> list_all (\<lambda>p. json_ok (snd p)) kvs)"
| "json_ok _ = True"

fun json_depth :: "json \<Rightarrow> nat" where
  "json_depth (JArr vs) = Suc (foldr (\<lambda>v. max (json_depth v)) vs 0)"
| "json_depth (JObj kvs) = Suc (foldr (\<lambda>p. max (json_depth (snd p))) kvs 0)"
| "json_depth _ = 0"

lemma foldr_max_le: "foldr (\<lambda>x. max (g x)) xs 0 \<le> (n::nat) \<longleftrightarrow> (\<forall>x\<in>set xs. g x \<le> n)"
  by (induction xs) auto

lemma hex_value_digit: "k < 16 \<Longrightarrow> hex_value (hex_digit k) = Some k"
  by (auto simp: hex_value_def hex_digit_def)

lemma unescape_control:
  assumes "c < 32"
  shows "unescape (117 # 48 # 48 # hex_digit (c div 16) # hex_digit (c mod 16) # q) = Some (c, q)"
proof -
  have "hex_value (hex_digit (c div 16)) = Some (c div 16)" "hex_value (hex_digit (c mod 16)) = Some (c mod 16)"
    using assms by (auto intro!: hex_value_digit)
  moreover have "c div 16 * 16 + c mod 16 = c" by simp
  ultimately have "hex4 (48 # 48 # hex_digit (c div 16) # hex_digit (c mod 16) # q) = Some (c, q)"
    by (simp add: hex4_def hex_value_def)
  with assms show ?thesis by (simp add: unescape_def)
qed

lemma scan_str_esc:
  "scan_str (esc_char c @ q) = map_option (\<lambda>(t, r). (c # t, r)) (scan_str q)"
proof (cases "c < 32 \<and> c \<noteq> 8 \<and> c \<noteq> 9 \<and> c \<noteq> 10 \<and> c \<noteq> 12 \<and> c \<noteq> 13")
  case True
  then have "esc_char c @ q = 92 # 117 # 48 # 48 # hex_digit (c div 16) # hex_digit (c mod 16) # q"
    by (auto simp: esc_char_def)
  with True show ?thesis
    by (simp add: scan_str.simps [of "92 # x" for x] unescape_control)
next
  case False
  then show ?thesis
    by (auto simp: esc_char_def scan_str.simps [of "c # q"] scan_str.simps [of "92 # x" for x]
        unescape_def simple_escapes_def)
qed

lemma scan_str_dump: "scan_str (concat (map esc_char t) @ 34 # r) = Some (t, r)"
  by (induction t) (simp_all add: scan_str_esc scan_str.simps [of "34 # r"])

definition num_stop :: "ustr \<Rightarrow> bool" where
  "num_stop s \<longleftrightarrow> s = [] \<or> \<not> is_digit_ascii (hd s) \<and> hd s \<noteq> 46 \<and> hd s \<noteq> 101 \<and> hd s \<noteq> 69"

lemma span_digits_append:
  assumes "list_all is_digit_ascii ds" "r = [] \<or> \<not> is_digit_ascii (hd r)"
  shows "span_digits (ds @ r) = (ds, r)"
proof -
  have "takeWhile is_digit_ascii r = [] \<and> dropWhile is_digit_ascii r = r"
    using assms(2) by (cases r) auto
  with assms(1) show ?thesis by (induction ds) (auto simp: span_digits_def)
qed

lemma scan_exp_text:
  assumes "case ex of None \<Rightarrow> True | Some (neg, ds) \<Rightarrow> all_digits ds" "num_stop rest"
  shows "scan_exp (exp_text ex @ rest) = (ex, rest)"
proof (cases ex)
  case None
  with assms(2) show ?thesis
    by (cases rest) (auto simp: exp_text_def scan_exp_def num_stop_def)
next
  case (Some e)
  obtain neg ds where e: "e = (neg, ds)" by fastforce
  with assms Some have ds: "ds \<noteq> []" "list_all is_digit_ascii ds" "starts_digit (ds @ rest)"
    by (cases ds; simp add: all_digits_def starts_digit_def)+
  have "span_digits (ds @ rest) = (ds, rest)"
    using ds(2) assms(2) by (intro span_digits_append) (auto simp: num_stop_def)
  with ds Some e show ?thesis
    by (simp add: exp_text_def scan_exp_def Let_def)
qed

lemma exp_text_stop: "num_stop rest \<Longrightarrow> \<not> starts_digit (exp_text ex @ rest)"
  by (cases ex) (auto simp: exp_text_def starts_digit_def num_stop_def is_digit_ascii_def
      split: prod.splits)

lemma exp_text_no_dot: "num_stop rest \<Longrightarrow> take 1 (exp_text ex @ rest) \<noteq> [46]"
  by (cases ex; cases rest) (auto simp: exp_text_def num_stop_def split: prod.splits)

lemma scan_frac_text:
  assumes "list_all is_digit_ascii f" "num_stop rest"
  shows "scan_frac ((if f = [] then [] else 46 # f) @ exp_text ex @ rest) = (f, exp_text ex @ rest)"
proof (cases "f = []")
  case True
  then show ?thesis using exp_text_no_dot [OF assms(2)] by (simp add: scan_frac_def)
next
  case False
  then have "starts_digit (f @ exp_text ex @ rest)"
    using assms(1) by (cases f) (simp_all add: starts_digit_def)
  moreover have "span_digits (f @ exp_text ex @ rest) = (f, exp_text ex @ rest)"
    using exp_text_stop [OF assms(2), of ex]
    by (intro span_digits_append [OF assms(1)]) (auto simp: starts_digit_def)
  ultimately show ?thesis using False by (simp add: scan_frac_def)
qed

lemma scan_int_text:
  assumes "int_digits_ok i" "\<not> starts_digit r"
  shows "scan_int (i @ r) = Some (i, r)"
proof (cases "i = [48]")
  case True
  then show ?thesis by (simp add: scan_int_def starts_digit_def is_digit_ascii_def)
next
  case False
  with assms(1) have i: "i \<noteq> []" "list_all is_digit_ascii i" "hd i \<noteq> 48"
    by (auto simp: int_digits_ok_def all_digits_def)
  moreover have "span_digits (i @ r) = (i, r)"
    using i(2) assms(2) by (intro span_digits_append) (auto simp: starts_digit_def)
  moreover have "starts_digit (i @ r)" using i by (cases i) (simp_all add: starts_digit_def)
  ultimately show ?thesis by (simp add: scan_int_def)
qed

lemma scan_num_text:
  assumes "parts_ok p" "num_stop rest"
  shows "scan_num (text_of_parts p @ rest) = Some (p, rest)"
proof -
  have ok: "int_digits_ok (np_int p)" "list_all is_digit_ascii (np_frac p)"
    "case np_exp p of None \<Rightarrow> True | Some (neg, ds) \<Rightarrow> all_digits ds"
    using assms(1) by (simp_all add: parts_ok_def)
  let ?f = "(if np_frac p = [] then [] else 46 # np_frac p) @ exp_text (np_exp p) @ rest"
  have nd: "\<not> starts_digit ?f"
    using exp_text_stop [OF assms(2)] by (simp add: starts_digit_def is_digit_ascii_def)
  have hd45: "take 1 (np_int p @ ?f) \<noteq> [45]"
    using parts_ok_digits [OF assms(1)] by (cases "np_int p") (auto simp: is_digit_ascii_def)
  have "scan_int (np_int p @ ?f) = Some (np_int p, ?f)"
    by (rule scan_int_text [OF ok(1) nd])
  moreover have "scan_frac ?f = (np_frac p, exp_text (np_exp p) @ rest)"
    by (rule scan_frac_text [OF ok(2) assms(2)])
  moreover have "scan_exp (exp_text (np_exp p) @ rest) = (np_exp p, rest)"
    by (rule scan_exp_text [OF ok(3) assms(2)])
  ultimately show ?thesis using hd45
    by (cases "np_neg p") (simp_all add: scan_num_def text_of_parts_def)
qed

definition good_head :: "ustr \<Rightarrow> bool" where
  "good_head t \<longleftrightarrow> t \<noteq> [] \<and> hd t \<notin> {32, 9, 10, 13, 93, 125, 65279}"

definition follow :: "ustr \<Rightarrow> bool" where
  "follow s \<longleftrightarrow> s = [] \<or> hd s \<in> {44, 93, 125}"

lemma follow_stop: "follow s \<Longrightarrow> num_stop s"
  by (auto simp: follow_def num_stop_def is_digit_ascii_def)

lemma follow_Cons [simp]: "follow (44 # s)" "follow (93 # s)" "follow (125 # s)" "follow []"
  by (simp_all add: follow_def)

lemma good_head_skip: "good_head t \<Longrightarrow> skip_ws (t @ r) = t @ r"
  by (cases t) (auto simp: good_head_def skip_ws_def)

lemma skip_ws_punct [simp]:
  "skip_ws (44 # s) = 44 # s" "skip_ws (93 # s) = 93 # s" "skip_ws (125 # s) = 125 # s"
  "skip_ws (58 # s) = 58 # s" "skip_ws [] = []" "skip_ws (34 # s) = 34 # s"
  by (simp_all add: skip_ws_def)

text \<open>\<open>reads d t v\<close>: with enough fuel the text \<open>t\<close>, whatever may follow it, is read as \<open>v\<close>.\<close>

definition reads :: "nat \<Rightarrow> ustr \<Rightarrow> json \<Rightarrow> bool" where
  "reads d t v \<longleftrightarrow> good_head t \<and>
     (\<exists>F. \<forall>f\<ge>F. \<forall>rest. follow rest \<longrightarrow> scan_value f d (t @ rest) = Inr (v, rest))"

lemma readsI:
  assumes "good_head t" "\<And>f rest. F \<le> f \<Longrightarrow> follow rest \<Longrightarrow> scan_value (Suc f) d (t @ rest) = Inr (v, rest)"
  shows "reads d t v"
  unfolding reads_def
proof (intro conjI exI allI impI)
  fix f rest
  assume "Suc F \<le> f" "follow rest"
  then show "scan_value f d (t @ rest) = Inr (v, rest)" using assms(2) by (cases f) auto
qed (rule assms(1))

lemma scan_items_reads:
  assumes "list_all2 (reads d) ts vs" "ts \<noteq> []"
  shows "\<exists>F. \<forall>f\<ge>F. \<forall>rest. scan_items f d (join_with [44] ts @ 93 # rest) = Inr (vs, rest)"
  using assms
proof (induction ts vs rule: list_all2_induct)
  case Nil
  then show ?case by simp
next
  case (Cons t ts v vs)
  from Cons.hyps(1) obtain F where
    F: "\<And>f rest. F \<le> f \<Longrightarrow> follow rest \<Longrightarrow> scan_value f d (t @ rest) = Inr (v, rest)"
    unfolding reads_def by blast
  show ?case
  proof (cases ts)
    case Nil
    with Cons.hyps(2) have vs: "vs = []" by simp
    have "scan_items f d (join_with [44] (t # ts) @ 93 # rest) = Inr (v # vs, rest)"
      if "Suc F \<le> f" for f rest
    proof -
      from that obtain g where g: "f = Suc g" "F \<le> g" by (cases f) auto
      have "scan_value g d (t @ 93 # rest) = Inr (v, 93 # rest)" by (rule F [OF g(2)]) simp
      then show ?thesis by (simp add: g(1) Nil vs scan_items.simps(2))
    qed
    then show ?thesis by blast
  next
    case (Cons t' ts')
    then obtain G where
      G: "\<And>f rest. G \<le> f \<Longrightarrow> scan_items f d (join_with [44] ts @ 93 # rest) = Inr (vs, rest)"
      using Cons.IH by auto
    from Cons Cons.hyps(2) have gh: "good_head t'" by (auto simp: list_all2_Cons1 reads_def)
    have ws: "skip_ws (join_with [44] ts @ r) = join_with [44] ts @ r" for r
      using good_head_skip [OF gh] Cons by (cases ts') simp_all
    have "scan_items f d (join_with [44] (t # ts) @ 93 # rest) = Inr (v # vs, rest)"
      if "Suc (max F G) \<le> f" for f rest
    proof -
      from that obtain g where g: "f = Suc g" "F \<le> g" "G \<le> g" by (cases f) auto
      let ?r = "44 # join_with [44] ts @ 93 # rest"
      have "scan_value g d (t @ ?r) = Inr (v, ?r)" by (rule F [OF g(2)]) simp
      moreover have "join_with [44] (t # ts) @ 93 # rest = t @ ?r" using Cons by simp
      ultimately show ?thesis
        by (simp add: g(1) scan_items.simps(2) ws G [OF g(3)])
    qed
    then show ?thesis by blast
  qed
qed

definition field_text :: "ustr \<Rightarrow> ustr \<Rightarrow> ustr" where
  "field_text k t = dump_str k @ 58 # t"

lemma field_head: "field_text k t @ r = 34 # concat (map esc_char k) @ 34 # 58 # t @ r"
  by (simp add: field_text_def dump_str_def)

lemma scan_fields_Suc:
  assumes "good_head t" "scan_value f d (t @ r) = Inr (v, r)"
  shows "scan_fields (Suc f) d (field_text k t @ r) =
    (if take 1 (skip_ws r) = [125] then Inr ([(k, v)], drop 1 (skip_ws r))
     else if take 1 (skip_ws r) = [44]
     then bindE (scan_fields f d (skip_ws (drop 1 (skip_ws r)))) (\<lambda>(kvs, r2). Inr ((k, v) # kvs, r2))
     else Inl BadJson)"
  by (simp add: field_head scan_fields.simps(2) scan_str_dump good_head_skip [OF assms(1)] assms(2))

lemma scan_fields_reads:
  assumes "list_all2 (\<lambda>ft kv. \<exists>t. ft = field_text (fst kv) t \<and> reads d t (snd kv)) fts kvs" "fts \<noteq> []"
  shows "\<exists>F. \<forall>f\<ge>F. \<forall>rest. scan_fields f d (join_with [44] fts @ 125 # rest) = Inr (kvs, rest)"
  using assms
proof (induction fts kvs rule: list_all2_induct)
  case Nil
  then show ?case by simp
next
  case (Cons ft fts kv kvs)
  obtain k v where kv: "kv = (k, v)" by fastforce
  with Cons.hyps(1) obtain t F where t: "ft = field_text k t" "good_head t"
    and F: "\<And>f rest. F \<le> f \<Longrightarrow> follow rest \<Longrightarrow> scan_value f d (t @ rest) = Inr (v, rest)"
    unfolding reads_def by auto
  show ?case
  proof (cases fts)
    case Nil
    with Cons.hyps(2) have kvs: "kvs = []" by simp
    have "scan_fields f d (join_with [44] (ft # fts) @ 125 # rest) = Inr (kv # kvs, rest)"
      if "Suc F \<le> f" for f rest
    proof -
      from that obtain g where g: "f = Suc g" "F \<le> g" by (cases f) auto
      have "scan_value g d (t @ 125 # rest) = Inr (v, 125 # rest)" by (rule F [OF g(2)]) simp
      from scan_fields_Suc [OF t(2) this] show ?thesis by (simp add: g(1) Nil kvs kv t(1))
    qed
    then show ?thesis by blast
  next
    case (Cons ft' fts')
    then obtain G where
      G: "\<And>f rest. G \<le> f \<Longrightarrow> scan_fields f d (join_with [44] fts @ 125 # rest) = Inr (kvs, rest)"
      using Cons.IH by auto
    from Cons Cons.hyps(2) obtain k' t' where "ft' = field_text k' t'" by (auto simp: list_all2_Cons1)
    then have ws: "skip_ws (join_with [44] fts @ r) = join_with [44] fts @ r" for r
      using Cons by (cases fts') (simp_all add: field_text_def dump_str_def)
    have "scan_fields f d (join_with [44] (ft # fts) @ 125 # rest) = Inr (kv # kvs, rest)"
      if "Suc (max F G) \<le> f" for f rest
    proof -
      from that obtain g where g: "f = Suc g" "F \<le> g" "G \<le> g" by (cases f) auto
      let ?r = "44 # join_with [44] fts @ 125 # rest"
      have "scan_value g d (t @ ?r) = Inr (v, ?r)" by (rule F [OF g(2)]) simp
      moreover have "join_with [44] (ft # fts) @ 125 # rest = ft @ ?r" using Cons by simp
      ultimately show ?thesis
        using scan_fields_Suc [OF t(2), of g d ?r v k] by (simp add: g(1) t(1) kv ws G [OF g(3)])
    qed
    then show ?thesis by blast
  qed
qed

lemma starts_with_Cons [simp]:
  "starts_with (a # p) (b # s) \<longleftrightarrow> a = b \<and> starts_with p s" "starts_with [] s"
  by (auto simp: starts_with_def)

lemma json_words_cps:
  "json_words =
     [([110, 117, 108, 108], JNull), ([116, 114, 117, 101], JBool True),
      ([102, 97, 108, 115, 101], JBool False), ([78, 97, 78], JFloat PNaN),
      ([73, 110, 102, 105, 110, 105, 116, 121], JFloat (PInf False)),
      ([45, 73, 110, 102, 105, 110, 105, 116, 121], JFloat (PInf True))]"
  by (simp add: json_words_def u_def)

lemma scan_word_digit: "is_digit_ascii c \<Longrightarrow> scan_word (c # r) = None"
  by (auto simp: scan_word_def json_words_cps is_digit_ascii_def)

lemma scan_word_minus: "is_digit_ascii c \<Longrightarrow> scan_word (45 # c # r) = None"
  by (auto simp: scan_word_def json_words_cps is_digit_ascii_def)

lemma reads_word: "(u w, v) \<in> set json_words \<Longrightarrow> v \<in> {JNull, JBool True, JBool False} \<Longrightarrow> reads d (u w) v"
proof (rule readsI [where F = 0])
  assume w: "(u w, v) \<in> set json_words" "v \<in> {JNull, JBool True, JBool False}"
  show "good_head (u w)" using w by (auto simp: json_words_cps good_head_def)
  show "scan_value (Suc f) d (u w @ rest) = Inr (v, rest)" for f rest
    using w by (auto simp: json_words_cps scan_value_Cons scan_word_def)
qed

lemma reads_number:
  assumes "parts_ok p" "num_value p = Inr v"
  shows "reads d (text_of_parts p) v"
proof -
  obtain c r where c: "np_int p = c # r" "is_digit_ascii c"
    using parts_ok_digits [OF assms(1)] by (cases "np_int p") auto
  then obtain h q where t: "text_of_parts p = h # q" "h = 45 \<or> is_digit_ascii h"
    "\<And>rest. scan_word (h # q @ rest) = None"
    by (cases "np_neg p") (auto simp: text_of_parts_def scan_word_minus scan_word_digit)
  then have h: "h \<noteq> 34" "h \<noteq> 123" "h \<noteq> 91" "h \<notin> {32, 9, 10, 13, 93, 125, 65279}"
    by (auto simp: is_digit_ascii_def)
  show ?thesis
  proof (rule readsI [where F = 0])
    show "good_head (text_of_parts p)" using t h by (simp add: good_head_def)
    show "scan_value (Suc f) d (text_of_parts p @ rest) = Inr (v, rest)" if "follow rest" for f rest
      using scan_num_text [OF assms(1) follow_stop [OF that]] t h assms(2)
      by (simp add: scan_value_Cons)
  qed
qed

lemma int_parts:
  assumes "length (str_of_nat (nat \<bar>i\<bar>)) \<le> MAX_INT_DIGITS"
  shows "reads d (str_of_int i) (JInt i)"
proof -
  let ?p = "\<lparr>np_neg = i < 0, np_int = str_of_nat (nat \<bar>i\<bar>), np_frac = [], np_exp = None\<rparr>"
  have "parts_ok ?p" by (simp add: parts_ok_def int_digits_ok_nat)
  moreover have "num_value ?p = Inr (JInt i)"
    using assms by (simp add: num_value_def is_float_parts_def)
  ultimately have "reads d (text_of_parts ?p) (JInt i)" by (rule reads_number)
  then show ?thesis
    by (cases "i < 0") (simp_all add: text_of_parts_def exp_text_def str_of_int_def)
qed

lemma float_reads:
  assumes "canonical x" "f_is_finite x"
  shows "reads d (float_repr x) (JFloat x)"
proof -
  obtain s m e where x: "x = PFin s m e" using assms(2) by (cases x) (auto simp: f_is_finite_def)
  have "parts_ok (repr_parts s m e)" "num_value (repr_parts s m e) = Inr (JFloat x)"
    using repr_parts_read [of s m e] assms(1) x by (auto simp: num_value_def)
  then show ?thesis using x reads_number by (simp add: float_repr_def)
qed

lemma str_reads: "reads d (dump_str t) (JStr t)"
  by (rule readsI [where F = 0])
    (simp_all add: dump_str_def good_head_def scan_value_Cons scan_str_dump)

lemma join_head:
  "ts \<noteq> [] \<Longrightarrow> good_head (hd ts) \<Longrightarrow> good_head (join_with [44] ts @ r)"
  by (cases ts) (auto simp: good_head_def hd_append)

lemma good_head_facts:
  "good_head s \<Longrightarrow> skip_ws s = s \<and> take 1 s \<noteq> [93] \<and> take 1 s \<noteq> [125] \<and> take 1 s \<noteq> [65279]"
  using good_head_skip [of s "[]"] by (cases s) (auto simp: good_head_def)

lemma arr_reads:
  assumes "list_all2 (reads d) ts vs"
  shows "reads (Suc d) (91 # join_with [44] ts @ [93]) (JArr vs)"
proof (cases "ts = []")
  case True
  with assms show ?thesis
    by (intro readsI [where F = 0]) (simp_all add: good_head_def scan_value_Cons)
next
  case False
  from scan_items_reads [OF assms False] obtain F where
    F: "\<And>f rest. F \<le> f \<Longrightarrow> scan_items f d (join_with [44] ts @ 93 # rest) = Inr (vs, rest)" by blast
  have "good_head (hd ts)"
    using assms False by (cases ts) (auto simp: list_all2_Cons1 reads_def)
  then have "good_head (join_with [44] ts @ r)" for r by (rule join_head [OF False])
  then show ?thesis
    by (intro readsI [where F = F]) (simp_all add: good_head_def [of "91 # x" for x] scan_value_Cons
        good_head_facts F del: take_Suc_Cons One_nat_def take_append)
qed

lemma obj_reads:
  assumes "list_all2 (\<lambda>ft kv. \<exists>t. ft = field_text (fst kv) t \<and> reads d t (snd kv)) fts kvs" "dict_ok kvs"
  shows "reads (Suc d) (123 # join_with [44] fts @ [125]) (JObj kvs)"
proof (cases "fts = []")
  case True
  with assms show ?thesis
    by (intro readsI [where F = 0]) (simp_all add: good_head_def scan_value_Cons)
next
  case False
  from scan_fields_reads [OF assms(1) False] obtain F where
    F: "\<And>f rest. F \<le> f \<Longrightarrow> scan_fields f d (join_with [44] fts @ 125 # rest) = Inr (kvs, rest)" by blast
  have "good_head (hd fts)"
    using assms(1) False
    by (cases fts) (auto simp: list_all2_Cons1 field_text_def dump_str_def good_head_def)
  then have "good_head (join_with [44] fts @ r)" for r by (rule join_head [OF False])
  then show ?thesis
    by (intro readsI [where F = F]) (simp_all add: good_head_def [of "123 # x" for x] scan_value_Cons
        good_head_facts F dict_of_distinct assms(2) del: take_Suc_Cons One_nat_def take_append)
qed

lemma list_all2_ex: "(\<forall>x\<in>set xs. \<exists>y. R y x) \<Longrightarrow> \<exists>ys. list_all2 R ys xs"
proof (induction xs)
  case Nil
  then show ?case by simp
next
  case (Cons x xs)
  then obtain ys y where "list_all2 R ys xs" "R y x" by auto
  then have "list_all2 R (y # ys) (x # xs)" by simp
  then show ?case by blast
qed

lemma list_all2_swap: "list_all2 (\<lambda>x y. P y x) xs ys \<longleftrightarrow> list_all2 P ys xs"
  by (auto simp: list_all2_conv_all_nth)

definition writes_reads :: "nat \<Rightarrow> json \<Rightarrow> bool" where
  "writes_reads d v \<longleftrightarrow> (\<exists>t. dumps v = Inr t \<and> reads d t v)"

lemma writes_reads_arr:
  assumes "\<forall>v\<in>set vs. writes_reads d v"
  shows "writes_reads (Suc d) (JArr vs)"
proof -
  obtain ts where ts: "list_all2 (\<lambda>t v. dumps v = Inr t \<and> reads d t v) ts vs"
    using list_all2_ex [of vs "\<lambda>t v. dumps v = Inr t \<and> reads d t v"] assms
    unfolding writes_reads_def by blast
  have "list_all2 (\<lambda>t v. dumps v = Inr t) ts vs" by (rule list_all2_mono [OF ts]) simp
  then have "mapE dumps vs = Inr ts"
    unfolding mapE_Inr_iff by (rule list_all2_swap [where P = "\<lambda>t v. dumps v = Inr t", THEN iffD2])
  then have "dumps (JArr vs) = Inr (91 # join_with [44] ts @ [93])" by simp
  moreover have "list_all2 (reads d) ts vs" by (rule list_all2_mono [OF ts]) simp
  ultimately show ?thesis using arr_reads unfolding writes_reads_def by blast
qed

lemma writes_reads_obj:
  assumes "\<forall>p\<in>set kvs. writes_reads d (snd p)" "dict_ok kvs"
  shows "writes_reads (Suc d) (JObj kvs)"
proof -
  let ?R = "\<lambda>ft kv. \<exists>t. dumps (snd kv) = Inr t \<and> ft = field_text (fst kv) t \<and> reads d t (snd kv)"
  let ?g = "\<lambda>p. bindE (dumps (snd p)) (\<lambda>t. Inr (dump_str (fst p) @ 58 # t))"
  obtain fts where fts: "list_all2 ?R fts kvs"
    using list_all2_ex [of kvs ?R] assms(1) unfolding writes_reads_def by blast
  have "list_all2 (\<lambda>ft kv. ?g kv = Inr ft) fts kvs"
    by (rule list_all2_mono [OF fts]) (auto simp: field_text_def)
  then have "mapE ?g kvs = Inr fts"
    unfolding mapE_Inr_iff by (rule list_all2_swap [where P = "\<lambda>ft kv. ?g kv = Inr ft", THEN iffD2])
  then have "dumps (JObj kvs) = Inr (123 # join_with [44] fts @ [125])" by simp
  moreover have "list_all2 (\<lambda>ft kv. \<exists>t. ft = field_text (fst kv) t \<and> reads d t (snd kv)) fts kvs"
    by (rule list_all2_mono [OF fts]) blast
  ultimately show ?thesis using obj_reads [OF _ assms(2)] unfolding writes_reads_def by blast
qed

lemma writes_reads_atom:
  "writes_reads d JNull" "writes_reads d (JBool b)" "writes_reads d (JStr s)"
  "json_ok (JInt i) \<Longrightarrow> writes_reads d (JInt i)" "json_ok (JFloat x) \<Longrightarrow> writes_reads d (JFloat x)"
proof -
  have "reads d (u ''null'') JNull" "reads d (u ''true'') (JBool True)" "reads d (u ''false'') (JBool False)"
    by (rule reads_word; simp add: json_words_def)+
  then show "writes_reads d JNull" "writes_reads d (JBool b)"
    by (simp_all add: writes_reads_def)
qed (simp_all add: writes_reads_def int_parts float_reads str_reads)

lemma writes_reads_all: "json_ok v \<Longrightarrow> json_depth v \<le> d \<Longrightarrow> writes_reads d v"
proof (induction v arbitrary: d rule: json_ok.induct)
  case (3 vs)
  then obtain d' where d: "d = Suc d'" by (cases d) simp_all
  have "\<forall>v\<in>set vs. writes_reads d' v"
    using 3 d by (simp add: list_all_iff foldr_max_le)
  then show ?case unfolding d by (rule writes_reads_arr)
next
  case (4 kvs)
  then obtain d' where d: "d = Suc d'" by (cases d) simp_all
  have "\<forall>p\<in>set kvs. writes_reads d' (snd p)"
    using 4 d by (simp add: list_all_iff foldr_max_le)
  then show ?case using 4(2) unfolding d by (intro writes_reads_obj) simp_all
qed (rule writes_reads_atom; assumption?)+

lemma dumps_reads: "json_ok v \<Longrightarrow> json_depth v \<le> d \<Longrightarrow> \<exists>t. dumps v = Inr t \<and> reads d t v"
  using writes_reads_all unfolding writes_reads_def by blast

text \<open>Every JSON value that Python can write is read back unchanged.\<close>

lemma loads_dumps:
  assumes "json_ok v" "json_depth v \<le> limit" "dumps v = Inr t"
  shows "loads limit t = Inr v"
proof -
  from dumps_reads [OF assms(1,2)] assms(3) have "reads limit t v" by auto
  then obtain F where h: "good_head t"
    and F: "\<And>f. F \<le> f \<Longrightarrow> scan_value f limit t = Inr (v, [])"
    unfolding reads_def by (metis append_Nil2 follow_Cons(4))
  let ?f = "2 * length t + 2"
  have "scan_value ?f limit t \<noteq> Inl OutOfFuel" by (rule scan_enough(1)) simp
  from scan_mono [OF _ refl this, of "max F ?f"] F [of "max F ?f"]
  have "scan_value ?f limit t = Inr (v, [])" by simp
  then show ?thesis using good_head_facts [OF h] by (simp add: loads_def)
qed

section \<open>JSON as an encoding\<close>

definition json_enc :: "nat \<Rightarrow> json \<Rightarrow> ustr option" where
  "json_enc limit v =
     (if json_ok v \<and> json_depth v \<le> limit
      then (case dumps v of Inl e \<Rightarrow> None | Inr t \<Rightarrow> Some t) else None)"

definition json_dec :: "nat \<Rightarrow> ustr \<Rightarrow> json option" where
  "json_dec limit s = (case loads limit s of Inl e \<Rightarrow> None | Inr v \<Rightarrow> Some v)"

interpretation json_text: codec "json_enc limit" "json_dec limit" for limit
  by unfold_locales (auto simp: json_enc_def json_dec_def loads_dumps split: if_splits sum.splits)

interpretation json_bytes: codec_chain "json_enc limit" "json_dec limit" utf8_encode utf8_decode
  for limit
  by unfold_locales

lemma json_enc_total: "json_ok v \<Longrightarrow> json_depth v \<le> limit \<Longrightarrow> \<exists>t. json_enc limit v = Some t \<and> dumps v = Inr t"
  using dumps_reads [of v limit] by (auto simp: json_enc_def)

section \<open>The written text is Unicode\<close>

fun json_unicode :: "json \<Rightarrow> bool" where
  "json_unicode (JStr s) = valid_unicode s"
| "json_unicode (JArr vs) = list_all json_unicode vs"
| "json_unicode (JObj kvs) = list_all (\<lambda>p. valid_unicode (fst p) \<and> json_unicode (snd p)) kvs"
| "json_unicode _ = True"

lemma is_ascii_append [simp]: "is_ascii (s @ t) \<longleftrightarrow> is_ascii s \<and> is_ascii t"
  by (simp add: is_ascii_def)

lemma is_ascii_Cons [simp]: "is_ascii (c # t) \<longleftrightarrow> c < 128 \<and> is_ascii t" "is_ascii []"
  by (simp_all add: is_ascii_def)

lemma text_of_parts_ascii: "parts_ok p \<Longrightarrow> is_ascii (text_of_parts p)"
  by (auto simp: text_of_parts_def parts_ok_def int_digits_ok_def all_digits_def exp_text_def
      digits_ascii split: option.splits)

lemma esc_char_valid: "valid_unicode [c] \<Longrightarrow> valid_unicode (esc_char c)"
proof -
  assume c: "valid_unicode [c]"
  have "hex_digit k < 128" if "k < 16" for k using that by (auto simp: hex_digit_def)
  then have "c < 32 \<Longrightarrow> valid_unicode [hex_digit (c div 16), hex_digit (c mod 16)]"
    by (intro valid_unicode_ascii) (auto simp: less_mult_imp_div_less)
  with c show ?thesis by (auto simp: esc_char_def is_surrogate_def)
qed

lemma dump_str_valid: "valid_unicode s \<Longrightarrow> valid_unicode (dump_str s)"
proof -
  assume "valid_unicode s"
  then have "valid_unicode (concat (map esc_char s))"
    by (induction s) (auto intro: esc_char_valid)
  then show ?thesis by (simp add: dump_str_def is_surrogate_def)
qed

lemma join_valid: "list_all valid_unicode ts \<Longrightarrow> valid_unicode (join_with [44] ts)"
  by (induction ts) (auto simp: is_surrogate_def)

lemma list_all2_map_valid:
  assumes "list_all2 (\<lambda>x y. f x = Inr y) xs ys" "\<And>x y. x \<in> set xs \<Longrightarrow> f x = Inr y \<Longrightarrow> valid_unicode y"
  shows "list_all valid_unicode ys"
  using assms by (induction rule: list_all2_induct) auto

lemma float_repr_ascii: "canonical x \<Longrightarrow> f_is_finite x \<Longrightarrow> is_ascii (float_repr x)"
proof (cases x)
  case (PFin s m e)
  assume "canonical x"
  with PFin repr_parts_read [of s m e] have "parts_ok (repr_parts s m e)" by simp
  then show ?thesis by (simp add: PFin float_repr_def text_of_parts_ascii)
qed (auto simp: f_is_finite_def)

lemma dumps_valid:
  "json_ok v \<Longrightarrow> json_unicode v \<Longrightarrow> dumps v = Inr t \<Longrightarrow> valid_unicode t"
proof (induction v arbitrary: t rule: json_unicode.induct)
  case (2 vs)
  from 2(4) obtain ts where ts: "list_all2 (\<lambda>v t. dumps v = Inr t) vs ts"
    "t = 91 # join_with [44] ts @ [93]" by (auto simp: result_simps)
  have "list_all valid_unicode ts"
    by (rule list_all2_map_valid [OF ts(1)]) (use 2 in \<open>auto simp: list_all_iff\<close>)
  then show ?case by (simp add: ts(2) join_valid is_surrogate_def)
next
  case (3 kvs)
  let ?g = "\<lambda>p. bindE (dumps (snd p)) (\<lambda>t. Inr (dump_str (fst p) @ 58 # t))"
  from 3(4) obtain ts where ts: "list_all2 (\<lambda>p t. ?g p = Inr t) kvs ts"
    "t = 123 # join_with [44] ts @ [125]" by (auto simp: result_simps)
  have "list_all valid_unicode ts"
  proof (rule list_all2_map_valid [OF ts(1)])
    fix p y
    assume p: "p \<in> set kvs" "?g p = Inr y"
    then obtain q where q: "dumps (snd p) = Inr q" "y = dump_str (fst p) @ 58 # q"
      by (auto simp: result_simps)
    have "valid_unicode (fst p)" "json_unicode (snd p)" "json_ok (snd p)"
      using 3(2,3) p(1) by (auto simp: list_all_iff)
    with 3(1) [OF p(1) _ _ q(1)] show "valid_unicode y"
      by (simp add: q(2) dump_str_valid is_surrogate_def)
  qed
  then show ?case by (simp add: ts(2) join_valid is_surrogate_def)
qed (auto simp: dump_str_valid str_of_int_ascii valid_unicode_ascii u_def is_surrogate_def float_repr_ascii)

text \<open>A Unicode value within the limits is written to bytes, and the bytes are read back to it.\<close>

lemma json_bytes_total:
  assumes "json_ok v" "json_depth v \<le> limit" "json_unicode v"
  shows "\<exists>t bs. dumps v = Inr t \<and> utf8_encode t = Some bs \<and>
    Option.bind (utf8_decode bs) (json_dec limit) = Some v"
proof -
  obtain t where t: "json_enc limit v = Some t" "dumps v = Inr t"
    using json_enc_total [OF assms(1,2)] by blast
  have "valid_unicode t" by (rule dumps_valid [OF assms(1,3) t(2)])
  then obtain bs where bs: "utf8_encode t = Some bs" by (simp add: utf8_encode_def)
  with t have "Option.bind (json_enc limit v) utf8_encode = Some bs" by simp
  from json_bytes.chain_dec_enc [OF this] t bs show ?thesis by blast
qed

end
