(* ===== verification/Protocol.thy ===== *)
theory Protocol
  imports Errors Json
begin

text \<open>
  \<open>protocol.py\<close>: the bounded capture of a response body, and the mapping of a captured response to
  an acknowledgement or a typed error. A response body is parsed with \<open>json.loads\<close>, whose nesting
  limit is an argument; a body nested deeper raises \<open>RecursionError\<close>, which \<open>_parse\<close> does not catch.
\<close>

definition MAX_RESPONSE_BYTES :: nat where
  "MAX_RESPONSE_BYTES = 65536"

definition STATUS_TEXT :: "(int \<times> ustr) list" where
  "STATUS_TEXT =
     [(400, u ''Bad Request''), (401, u ''Unauthorized''), (403, u ''Forbidden''),
      (404, u ''Not Found''), (405, u ''Method Not Allowed''), (408, u ''Request Timeout''),
      (409, u ''Conflict''), (413, u ''Content Too Large''), (415, u ''Unsupported Media Type''),
      (418, u ''I'' @ [39] @ u ''m a teapot''), (422, u ''Unprocessable Content''),
      (429, u ''Too Many Requests''), (500, u ''Internal Server Error''),
      (501, u ''Not Implemented''), (502, u ''Bad Gateway''), (503, u ''Service Unavailable''),
      (504, u ''Gateway Timeout'')]"

definition status_text :: "int \<Rightarrow> ustr" where
  "status_text code =
     (case map_of STATUS_TEXT code of Some t \<Rightarrow> t | None \<Rightarrow> u ''HTTP '' @ str_of_int code)"

section \<open>Captured responses\<close>

record received_response =
  status_code :: int
  reason_phrase :: ustr
  headers :: "(ustr \<times> ustr) list"
  body :: bytes
  body_truncated :: bool
  observed_body_bytes :: nat
  body_read_failure :: "foreign option"

definition header :: "received_response \<Rightarrow> ustr \<Rightarrow> ustr option" where
  "header r name = map_option snd (find (\<lambda>(key, v). py_lower key = py_lower name) (headers r))"

text \<open>A \<open>BoundedBuffer\<close> is the bytes it holds; \<open>buffer_append\<close> also returns whether to go on.\<close>

type_synonym bounded_buffer = bytes

definition buffer_append :: "bytes \<Rightarrow> bounded_buffer \<Rightarrow> bool \<times> bounded_buffer" where
  "buffer_append chunk data =
     (let room = int (MAX_RESPONSE_BYTES + 1) - int (length data);
          data' = (if 0 < room then data @ take (nat room) chunk else data)
      in (length data' \<le> MAX_RESPONSE_BYTES, data'))"

definition buffer_response ::
  "int \<Rightarrow> ustr \<Rightarrow> (ustr \<times> ustr) list \<Rightarrow> foreign option \<Rightarrow> bounded_buffer \<Rightarrow> received_response" where
  "buffer_response status reason hs failure data =
     (let truncated = (MAX_RESPONSE_BYTES < length data) in
      \<lparr>status_code = status, reason_phrase = reason, headers = hs,
       body = take MAX_RESPONSE_BYTES data, body_truncated = truncated,
       observed_body_bytes = length data,
       body_read_failure = (if truncated then None else failure)\<rparr>)"

section \<open>Decoding\<close>

definition recursion_error :: error where
  "recursion_error = Foreign (OtherExn (u ''RecursionError'') (u ''maximum recursion depth exceeded''))"

text \<open>Python's \<open>None\<close>, the result for an undecodable body, is also what the text \<open>null\<close> parses to.\<close>

definition parse_json :: "nat \<Rightarrow> bytes \<Rightarrow> error + json" where
  "parse_json limit bs =
     (case utf8_decode bs of
        None \<Rightarrow> Inr JNull
      | Some s \<Rightarrow>
          (case loads limit s of
             Inr v \<Rightarrow> Inr v
           | Inl TooDeep \<Rightarrow> Inl recursion_error
           | Inl BadJson \<Rightarrow> Inr JNull
           | Inl OutOfFuel \<Rightarrow> Inr JNull))"

definition as_dict :: "json \<Rightarrow> (ustr, json) pydict option" where
  "as_dict v = (case v of JObj d \<Rightarrow> Some d | _ \<Rightarrow> None)"

definition nonempty_str :: "json option \<Rightarrow> ustr option" where
  "nonempty_str v = (case v of Some (JStr s) \<Rightarrow> if s = [] then None else Some s | _ \<Rightarrow> None)"

definition is_json_str :: "json \<Rightarrow> bool" where
  "is_json_str v \<longleftrightarrow> (case v of JStr s \<Rightarrow> True | _ \<Rightarrow> False)"

definition json_str :: "json \<Rightarrow> ustr" where
  "json_str v = (case v of JStr s \<Rightarrow> s | _ \<Rightarrow> [])"

text \<open>The message and code of a valid error envelope.\<close>

definition error_envelope :: "json \<Rightarrow> (ustr \<times> ustr option) option" where
  "error_envelope envelope =
     (case as_dict envelope of
        None \<Rightarrow> None
      | Some d \<Rightarrow>
          if dict_get d (u ''success'') = Some (JBool False)
          then (case nonempty_str (dict_get d (u ''error'')) of
                  None \<Rightarrow> None
                | Some message \<Rightarrow>
                    (case dict_get d (u ''code'') of
                       None \<Rightarrow> Some (message, None)
                     | Some v \<Rightarrow> if is_json_str v then Some (message, Some (json_str v)) else None))
          else None)"

definition error_class :: "int \<Rightarrow> http_class" where
  "error_class status =
     (if status = 401 then AuthenticationError
      else if status = 404 then EventDefinitionNotFoundError else ApiError)"

text \<open>The message, event key and property names of a valid success envelope.\<close>

definition success_envelope :: "json \<Rightarrow> (ustr \<times> ustr \<times> ustr list) option" where
  "success_envelope envelope =
     (case as_dict envelope of
        None \<Rightarrow> None
      | Some d \<Rightarrow>
          (case Option.bind (dict_get d (u ''data'')) as_dict of
             None \<Rightarrow> None
           | Some data \<Rightarrow>
               if dict_get d (u ''success'') = Some (JBool True) \<and>
                  dict_get data (u ''success'') = Some (JBool True)
               then (case (nonempty_str (dict_get data (u ''message'')),
                           nonempty_str (dict_get data (u ''event_key'')),
                           dict_get data (u ''validated_properties'')) of
                       (Some message, Some key, Some (JArr vs)) \<Rightarrow>
                         if list_all is_json_str vs then Some (message, key, map json_str vs) else None
                     | _ \<Rightarrow> None)
               else None))"

definition acknowledge :: "nat \<Rightarrow> received_response \<Rightarrow> nat \<Rightarrow> error + acknowledgement" where
  "acknowledge limit response attempts =
     (let raw = body response in
      case body_read_failure response of
        Some failure \<Rightarrow>
          Inl (ResponseDecodeError (u ''response body could not be read'') raw attempts (Some failure))
      | None \<Rightarrow>
          if body_truncated response
          then Inl (ResponseDecodeError
                 (u ''response body exceeds '' @ str_of_nat MAX_RESPONSE_BYTES @ u '' bytes'')
                 raw attempts None)
          else bindE (parse_json limit raw) (\<lambda>envelope.
                 case success_envelope envelope of
                   Some (message, key, props) \<Rightarrow>
                     Inr \<lparr>ack_success = True, ack_message = message, ack_event_key = key,
                          ack_validated_properties = props, ack_raw_body = raw\<rparr>
                 | None \<Rightarrow>
                     Inl (ResponseDecodeError (u ''response body is not a valid success envelope'')
                       raw attempts None)))"

definition decode_response :: "nat \<Rightarrow> received_response \<Rightarrow> nat \<Rightarrow> error + acknowledgement" where
  "decode_response limit response attempts =
     (if status_code response = 200 then acknowledge limit response attempts
      else bindE (parse_json limit (body response)) (\<lambda>envelope.
        let (message, code) =
              (case error_envelope envelope of
                 Some (message, code) \<Rightarrow> (message, code)
               | None \<Rightarrow>
                   (if py_strip (reason_phrase response) = [] then status_text (status_code response)
                    else py_strip (reason_phrase response), None))
        in Inl (HttpError (error_class (status_code response)) (status_code response) message code
             (body response) attempts)))"

section \<open>The buffer keeps a prefix\<close>

definition feed_all :: "bytes list \<Rightarrow> bounded_buffer" where
  "feed_all chunks = foldl (\<lambda>data chunk. snd (buffer_append chunk data)) [] chunks"

lemma buffer_append_take:
  "length data \<le> MAX_RESPONSE_BYTES + 1 \<Longrightarrow>
    buffer_append chunk data =
      (length (data @ chunk) \<le> MAX_RESPONSE_BYTES, take (MAX_RESPONSE_BYTES + 1) (data @ chunk))"
proof -
  have "nat (1 + int MAX_RESPONSE_BYTES) = Suc MAX_RESPONSE_BYTES" by simp
  then show "length data \<le> MAX_RESPONSE_BYTES + 1 \<Longrightarrow> ?thesis"
    by (auto simp: buffer_append_def Let_def nat_diff_distrib min_def)
qed

lemma buffer_append_prefix:
  "buffer_append chunk (take (MAX_RESPONSE_BYTES + 1) sofar) =
     (length (sofar @ chunk) \<le> MAX_RESPONSE_BYTES, take (MAX_RESPONSE_BYTES + 1) (sofar @ chunk))"
  by (subst buffer_append_take) (auto simp: min_def)

lemma feed_from:
  "foldl (\<lambda>data chunk. snd (buffer_append chunk data)) (take (MAX_RESPONSE_BYTES + 1) sofar) chunks =
     take (MAX_RESPONSE_BYTES + 1) (sofar @ concat chunks)"
proof (induction chunks arbitrary: sofar)
  case Nil
  then show ?case by simp
next
  case (Cons c cs)
  from Cons.IH [of "sofar @ c"] show ?case by (simp only: foldl.simps buffer_append_prefix) simp
qed

lemma feed_all_prefix: "feed_all chunks = take (MAX_RESPONSE_BYTES + 1) (concat chunks)"
  using feed_from [of "[]" chunks] by (simp add: feed_all_def)

section \<open>When a response is acknowledged\<close>

lemma parse_json_Inr:
  "parse_json limit bs = Inr v \<longleftrightarrow>
     (\<exists>s. utf8_decode bs = Some s \<and> loads limit s = Inr v) \<or>
     v = JNull \<and> (utf8_decode bs = None \<or> (\<exists>s. utf8_decode bs = Some s \<and> loads limit s = Inl BadJson))"
  using loads_no_fuel [of limit]
  by (auto simp: parse_json_def split: option.splits sum.splits json_error.splits)

lemma parse_json_Inl: "parse_json limit bs = Inl e \<Longrightarrow> e = recursion_error"
  by (auto simp: parse_json_def split: option.splits sum.splits json_error.splits)

lemma success_envelope_null [simp]: "success_envelope JNull = None"
  by (simp add: success_envelope_def as_dict_def)

lemma nonempty_str_Some: "nonempty_str v = Some s \<Longrightarrow> s \<noteq> []"
  by (auto simp: nonempty_str_def split: option.splits json.splits if_splits)

lemma error_envelope_message: "error_envelope v = Some (m, c) \<Longrightarrow> m \<noteq> []"
  by (auto simp: error_envelope_def split: option.splits if_splits dest: nonempty_str_Some)

lemma status_text_not_Nil: "status_text code \<noteq> []"
proof -
  have "\<forall>(c, t) \<in> set STATUS_TEXT. t \<noteq> []" by (simp add: STATUS_TEXT_def)
  then show ?thesis
    by (auto simp: status_text_def split: option.splits dest!: map_of_SomeD)
qed

lemma decode_other:
  assumes "status_code r \<noteq> 200" "parse_json limit (body r) = Inr v"
  shows "\<exists>m c. m \<noteq> [] \<and> decode_response limit r n =
    Inl (HttpError (error_class (status_code r)) (status_code r) m c (body r) n)"
  using assms
  by (auto simp: decode_response_def status_text_not_Nil split: option.splits
      dest: error_envelope_message)

lemma acknowledge_Inl:
  assumes "acknowledge limit r n = Inl e"
  shows "e = recursion_error \<or> (\<exists>m c. e = ResponseDecodeError m (body r) n c)"
  using assms
  by (auto simp: acknowledge_def Let_def result_simps split: option.splits if_splits prod.splits
      dest: parse_json_Inl)

text \<open>The envelope a server sends for an accepted event.\<close>

definition ack_envelope :: "ustr \<Rightarrow> ustr \<Rightarrow> ustr list \<Rightarrow> json" where
  "ack_envelope message key props =
     JObj [(u ''success'', JBool True),
           (u ''data'', JObj [(u ''success'', JBool True), (u ''message'', JStr message),
              (u ''event_key'', JStr key), (u ''validated_properties'', JArr (map JStr props))])]"

lemma ack_envelope_read:
  "message \<noteq> [] \<Longrightarrow> key \<noteq> [] \<Longrightarrow> success_envelope (ack_envelope message key props) = Some (message, key, props)"
  by (simp add: ack_envelope_def success_envelope_def as_dict_def dict_get_def nonempty_str_def
      list_all_iff is_json_str_def json_str_def comp_def)

lemma ack_envelope_good:
  "json_ok (ack_envelope message key props)" "json_depth (ack_envelope message key props) = 3"
proof -
  have "foldr (\<lambda>v. max (json_depth v)) (map JStr props) 0 = 0" by (induction props) simp_all
  then show "json_depth (ack_envelope message key props) = 3" by (simp add: ack_envelope_def)
qed (simp add: ack_envelope_def dict_ok_def list_all_iff)

section \<open>Too deep a body\<close>

lemma scan_deep: "2 * d + 2 \<le> f \<Longrightarrow> scan_value f d (replicate (Suc d) 91 @ r) = Inl TooDeep"
proof (induction d arbitrary: f)
  case 0
  then obtain g where "f = Suc g" by (cases f) auto
  then show ?case by (simp add: scan_value_Cons)
next
  case (Suc d)
  then obtain g where f: "f = Suc (Suc g)" "2 * d + 2 \<le> g" by (cases f; cases "f - 1") auto
  have "skip_ws (replicate (Suc d) 91 @ r) = replicate (Suc d) 91 @ r" by (simp add: skip_ws_def)
  then show ?case using Suc.IH [OF f(2)]
    by (simp add: f(1) scan_value_Cons scan_items.simps(2))
qed

lemma loads_deep: "loads limit (replicate (Suc limit) 91) = Inl TooDeep"
proof -
  have "scan_value (2 * length (replicate (Suc limit) 91) + 2) limit (replicate (Suc limit) 91 @ []) =
      Inl TooDeep" by (rule scan_deep) simp
  moreover have "skip_ws (replicate (Suc limit) 91) = replicate (Suc limit) 91"
    by (simp add: skip_ws_def)
  ultimately show ?thesis by (simp add: loads_def)
qed

lemma decode_brackets: "utf8_decode (replicate n (byte 91)) = Some (replicate n 91)"
proof -
  have v: "valid_unicode (replicate n 91)" by (simp add: valid_unicode_def list_all_iff is_surrogate_def)
  have "concat (map utf8_cp (replicate n 91)) = replicate n (byte 91)"
    by (induction n) (simp_all add: utf8_cp_def)
  with v have "utf8_encode (replicate n 91) = Some (replicate n (byte 91))"
    by (simp add: utf8_encode_def)
  then show ?thesis by (rule utf8.dec_enc)
qed

lemma decode_outcome:
  "case decode_response limit r n of
     Inr a \<Rightarrow> status_code r = 200 \<and> ack_raw_body a = body r
   | Inl e \<Rightarrow> e = recursion_error \<or>
       (if status_code r = 200 then \<exists>m c. e = ResponseDecodeError m (body r) n c
        else \<exists>m c. m \<noteq> [] \<and>
          e = HttpError (error_class (status_code r)) (status_code r) m c (body r) n)"
proof (cases "status_code r = 200")
  case True
  then show ?thesis
    using acknowledge_Inl [of limit r n]
    by (auto simp: decode_response_def acknowledge_def [of limit r n] Let_def result_simps
        split: sum.splits option.splits)
next
  case False
  show ?thesis
  proof (cases "parse_json limit (body r)")
    case (Inl e)
    with False parse_json_Inl [OF Inl] show ?thesis by (simp add: decode_response_def)
  next
    case (Inr v)
    from decode_other [OF False Inr, of n] False show ?thesis by auto
  qed
qed

section \<open>Envelopes, written out\<close>

text \<open>
  The body is the UTF-8 JSON text of an accepted event's envelope, or of an error's envelope with this message
  and code: member by member, apart from the definitions above.
\<close>

definition says_accepted :: "nat \<Rightarrow> bytes \<Rightarrow> ustr \<Rightarrow> ustr \<Rightarrow> ustr list \<Rightarrow> bool" where
  "says_accepted limit bs message key props \<longleftrightarrow>
     (\<exists>s d data. utf8_decode bs = Some s \<and> loads limit s = Inr (JObj d) \<and>
        dict_get d (u ''success'') = Some (JBool True) \<and> dict_get d (u ''data'') = Some (JObj data) \<and>
        dict_get data (u ''success'') = Some (JBool True) \<and>
        dict_get data (u ''message'') = Some (JStr message) \<and> message \<noteq> [] \<and>
        dict_get data (u ''event_key'') = Some (JStr key) \<and> key \<noteq> [] \<and>
        dict_get data (u ''validated_properties'') = Some (JArr (map JStr props)))"

definition says_error :: "nat \<Rightarrow> bytes \<Rightarrow> ustr \<Rightarrow> ustr option \<Rightarrow> bool" where
  "says_error limit bs message code \<longleftrightarrow>
     (\<exists>s d. utf8_decode bs = Some s \<and> loads limit s = Inr (JObj d) \<and>
        dict_get d (u ''success'') = Some (JBool False) \<and>
        dict_get d (u ''error'') = Some (JStr message) \<and> message \<noteq> [] \<and>
        dict_get d (u ''code'') = map_option JStr code)"

definition too_deep :: "nat \<Rightarrow> bytes \<Rightarrow> bool" where
  "too_deep limit bs \<longleftrightarrow> (\<exists>s. utf8_decode bs = Some s \<and> loads limit s = Inl TooDeep)"

lemma all_strings: "list_all is_json_str vs \<longleftrightarrow> (\<exists>ss. vs = map JStr ss)"
proof (induction vs)
  case (Cons v vs)
  then show ?case by (cases v) (auto simp: is_json_str_def Cons_eq_map_conv)
qed simp

lemma nonempty_str_iff: "nonempty_str v = Some s \<longleftrightarrow> v = Some (JStr s) \<and> s \<noteq> []"
  by (auto simp: nonempty_str_def split: option.splits json.splits)

lemma as_dict_iff: "as_dict v = Some d \<longleftrightarrow> v = JObj d"
  by (cases v) (auto simp: as_dict_def)

lemma read_members [simp]: "as_dict (JObj d) = Some d" "message \<noteq> [] \<Longrightarrow> nonempty_str (Some (JStr message)) = Some message"
  by (simp_all add: as_dict_def nonempty_str_def)

lemma success_envelope_Some:
  "success_envelope v = Some (message, key, props) \<longleftrightarrow>
    (\<exists>d data. v = JObj d \<and> dict_get d (u ''success'') = Some (JBool True) \<and> dict_get d (u ''data'') = Some (JObj data) \<and>
      dict_get data (u ''success'') = Some (JBool True) \<and>
      dict_get data (u ''message'') = Some (JStr message) \<and> message \<noteq> [] \<and>
      dict_get data (u ''event_key'') = Some (JStr key) \<and> key \<noteq> [] \<and>
      dict_get data (u ''validated_properties'') = Some (JArr (map JStr props)))"
  unfolding success_envelope_def
  by (auto simp: as_dict_iff all_strings nonempty_str_iff json_str_def comp_def bind_eq_Some_conv
      split: option.splits json.splits if_splits)

lemma error_envelope_Some:
  "error_envelope v = Some (message, code) \<longleftrightarrow>
    (\<exists>d. v = JObj d \<and> dict_get d (u ''success'') = Some (JBool False) \<and>
      dict_get d (u ''error'') = Some (JStr message) \<and> message \<noteq> [] \<and> dict_get d (u ''code'') = map_option JStr code)"
proof -
  have s: "is_json_str w \<longleftrightarrow> (\<exists>x. w = JStr x)" for w by (cases w) (auto simp: is_json_str_def)
  show ?thesis
    unfolding error_envelope_def
    by (cases code) (auto simp: as_dict_iff s nonempty_str_iff json_str_def split: option.splits if_splits)
qed

lemma says_accepted_iff:
  "says_accepted limit bs message key props \<longleftrightarrow> (\<exists>v. parse_json limit bs = Inr v \<and> success_envelope v = Some (message, key, props))"
  unfolding says_accepted_def success_envelope_Some parse_json_Inr by auto

lemma says_error_iff:
  "says_error limit bs message code \<longleftrightarrow> (\<exists>v. parse_json limit bs = Inr v \<and> error_envelope v = Some (message, code))"
  unfolding says_error_def error_envelope_Some parse_json_Inr by auto

lemma parse_json_too_deep: "parse_json limit bs = Inl e \<longleftrightarrow> e = recursion_error \<and> too_deep limit bs"
  by (auto simp: parse_json_def too_deep_def split: option.splits sum.splits json_error.splits)

text \<open>The message and code for a response other than a 200: the envelope's, or the reason phrase, or the standard text.\<close>

definition error_told :: "nat \<Rightarrow> received_response \<Rightarrow> ustr \<Rightarrow> ustr option \<Rightarrow> bool" where
  "error_told limit r message code \<longleftrightarrow>
     (if \<exists>m c. says_error limit (body r) m c then says_error limit (body r) message code
      else code = None \<and>
        message = (if py_strip (reason_phrase r) \<noteq> [] then py_strip (reason_phrase r) else status_text (status_code r)))"

lemma error_outcome:
  assumes "status_code r \<noteq> 200"
  shows "decode_response limit r n = Inl e \<longleftrightarrow>
    e = recursion_error \<and> too_deep limit (body r) \<or>
    \<not> too_deep limit (body r) \<and> (\<exists>m c. error_told limit r m c \<and>
      e = HttpError (error_class (status_code r)) (status_code r) m c (body r) n)"
proof (cases "parse_json limit (body r)")
  case (Inl e')
  then have "e' = recursion_error" "too_deep limit (body r)" by (simp_all add: parse_json_too_deep)
  with assms Inl show ?thesis by (auto simp: decode_response_def)
next
  case (Inr v)
  then have deep: "\<not> too_deep limit (body r)" using parse_json_too_deep [of limit "body r" recursion_error] by auto
  have told: "error_told limit r m c \<longleftrightarrow>
      (case error_envelope v of Some (m', c') \<Rightarrow> m = m' \<and> c = c'
       | None \<Rightarrow> c = None \<and> m = (if py_strip (reason_phrase r) \<noteq> [] then py_strip (reason_phrase r) else status_text (status_code r)))" for m c
    by (auto simp: error_told_def says_error_iff Inr split: option.split)
  show ?thesis
    using assms deep by (auto simp: decode_response_def Inr told Let_def split: option.splits)
qed

section \<open>Properties\<close>

text \<open>
  C19: however the body arrives in chunks, the buffer holds the first 65,537 bytes of it, the
  captured body is the first 65,536, it is marked truncated exactly when there were more, and a
  read failure is kept only for a body that was not truncated.
\<close>

theorem buffer_keeps_prefix:
  "body (buffer_response status reason hs failure (feed_all chunks)) = take 65536 (concat chunks) \<and>
   (body_truncated (buffer_response status reason hs failure (feed_all chunks)) \<longleftrightarrow>
      65536 < length (concat chunks)) \<and>
   observed_body_bytes (buffer_response status reason hs failure (feed_all chunks)) =
      min 65537 (length (concat chunks)) \<and>
   body_read_failure (buffer_response status reason hs failure (feed_all chunks)) =
      (if 65536 < length (concat chunks) then None else failure) \<and>
   fst (buffer_append chunk (feed_all chunks)) = (length (concat chunks @ chunk) \<le> 65536)"
  unfolding feed_all_prefix buffer_append_prefix
  by (simp add: buffer_response_def Let_def MAX_RESPONSE_BYTES_def min_def)

text \<open>
  C12: an acknowledgement is returned exactly for a 200 response whose whole body was read and is the UTF-8
  JSON text of an object with \<open>success\<close> true and a \<open>data\<close> object with \<open>success\<close> true, a nonempty message, a
  nonempty event key and a list of property names; it carries these and the body.
\<close>

theorem acknowledged_iff:
  "decode_response limit r n = Inr a \<longleftrightarrow>
     status_code r = 200 \<and> body_read_failure r = None \<and> body_truncated r = False \<and>
     (\<exists>message key props. says_accepted limit (body r) message key props \<and>
        a = \<lparr>ack_success = True, ack_message = message, ack_event_key = key,
             ack_validated_properties = props, ack_raw_body = body r\<rparr>)"
proof (cases "status_code r = 200")
  case True
  then show ?thesis
    by (auto simp: decode_response_def acknowledge_def Let_def result_simps says_accepted_iff
        split: option.splits) fastforce+
next
  case False
  then show ?thesis
    by (auto simp: decode_response_def result_simps split: option.splits prod.splits)
qed

text \<open>
  C20: a response that is not acknowledged ends in an error with its body and the number of attempts. For a 200
  that is a \<open>ResponseDecodeError\<close> whose cause is the failed read, if the read failed; for 401 an
  \<open>AuthenticationError\<close>, for 404 an \<open>EventDefinitionNotFoundError\<close> and for any other status an \<open>ApiError\<close>, each
  with the message and code of the error envelope in the body or else the reason phrase or the standard text.
  Only a body that is nested too deep for the JSON parser leads to its \<open>RecursionError\<close>.
\<close>

theorem error_of_response:
  "case decode_response limit r n of
     Inr a \<Rightarrow> status_code r = 200 \<and> ack_raw_body a = body r
   | Inl e \<Rightarrow> e = recursion_error \<and> too_deep limit (body r) \<or>
       (if status_code r = 200 then \<exists>m. e = ResponseDecodeError m (body r) n (body_read_failure r)
        else \<exists>m c. error_told limit r m c \<and> m \<noteq> [] \<and>
          e = HttpError
                (if status_code r = 401 then AuthenticationError
                 else if status_code r = 404 then EventDefinitionNotFoundError else ApiError)
                (status_code r) m c (body r) n)"
proof (cases "status_code r = 200")
  case True
  then show ?thesis
    by (auto simp: decode_response_def acknowledge_def Let_def parse_json_too_deep bindE_def
        split: sum.splits option.splits)
next
  case False
  have "error_told limit r m c \<Longrightarrow> m \<noteq> []" for m c
    by (auto simp: error_told_def says_error_def status_text_not_Nil split: if_splits)
  moreover obtain e where e: "decode_response limit r n = Inl e"
  proof (cases "parse_json limit (body r)")
    case (Inl e)
    with False have "decode_response limit r n = Inl e" by (simp add: decode_response_def)
    then show ?thesis by (rule that)
  next
    case (Inr v)
    from decode_other [OF False this, of n] that show ?thesis by blast
  qed
  moreover note e [unfolded error_outcome [OF False] error_class_def]
  ultimately show ?thesis using False by (simp only: sum.case if_False) blast
qed

text \<open>
  What a server acknowledges is what the caller gets: the envelope of a message, an event key
  and property names, written as UTF-8 JSON, is decoded to an acknowledgement with these.
\<close>

theorem acknowledgement_roundtrip:
  assumes "message \<noteq> []" "key \<noteq> []" "3 \<le> limit"
    and "dumps (ack_envelope message key props) = Inr t" "utf8_encode t = Some bs"
    and "length bs \<le> 65536"
  shows "decode_response limit (buffer_response 200 reason hs None (feed_all [bs])) n =
    Inr \<lparr>ack_success = True, ack_message = message, ack_event_key = key,
         ack_validated_properties = props, ack_raw_body = bs\<rparr>"
proof -
  have "loads limit t = Inr (ack_envelope message key props)"
    using assms(3,4) by (intro loads_dumps) (simp_all add: ack_envelope_good)
  moreover have "utf8_decode bs = Some t" by (rule utf8.dec_enc [OF assms(5)])
  ultimately show ?thesis
    using assms(6) ack_envelope_read [OF assms(1,2), of props]
    by (simp add: decode_response_def acknowledge_def parse_json_def feed_all_prefix buffer_response_def
        Let_def MAX_RESPONSE_BYTES_def)
qed

lemma dumps_ack_example:
  "dumps (ack_envelope (u ''ok'') (u ''k'') []) =
     Inr (map of_char (''{'' @ [CHR 0x22] @ ''success'' @ [CHR 0x22] @ '':true,'' @ [CHR 0x22] @ ''data'' @
       [CHR 0x22] @ '':{'' @ [CHR 0x22] @ ''success'' @ [CHR 0x22] @ '':true,'' @ [CHR 0x22] @ ''message'' @
       [CHR 0x22] @ '':'' @ [CHR 0x22] @ ''ok'' @ [CHR 0x22] @ '','' @ [CHR 0x22] @ ''event_key'' @
       [CHR 0x22] @ '':'' @ [CHR 0x22] @ ''k'' @ [CHR 0x22] @ '','' @ [CHR 0x22] @
       ''validated_properties'' @ [CHR 0x22] @ '':[]}}''))"
  by (simp add: ack_envelope_def dump_str_def esc_char_def u_def)

lemma utf8_encode_ascii:
  assumes "is_ascii s"
  shows "utf8_encode s = Some (map byte s)"
proof -
  have "concat (map utf8_cp s) = map byte s"
    using assms by (induction s) (simp_all add: utf8_cp_def)
  then show ?thesis using valid_unicode_ascii [OF assms] by (simp add: utf8_encode_def)
qed

theorem acknowledgement_roundtrip_witness:
  "\<exists>t bs. dumps (ack_envelope (u ''ok'') (u ''k'') []) = Inr t \<and> utf8_encode t = Some bs \<and>
     decode_response 3 (buffer_response 200 (u ''OK'') [] None (feed_all [bs])) 1 =
       Inr \<lparr>ack_success = True, ack_message = u ''ok'', ack_event_key = u ''k'',
         ack_validated_properties = [], ack_raw_body = bs\<rparr>"
proof -
  obtain t where t: "dumps (ack_envelope (u ''ok'') (u ''k'') []) = Inr t" "is_ascii t" "length t \<le> 65536"
    using dumps_ack_example by (simp add: u_def)
  have bs: "utf8_encode t = Some (map byte t)" by (rule utf8_encode_ascii [OF t(2)])
  have "decode_response 3 (buffer_response 200 (u ''OK'') [] None (feed_all [map byte t])) 1 =
       Inr \<lparr>ack_success = True, ack_message = u ''ok'', ack_event_key = u ''k'',
         ack_validated_properties = [], ack_raw_body = map byte t\<rparr>"
    using t(3) by (intro acknowledgement_roundtrip [OF _ _ _ t(1) bs]) simp_all
  with t(1) bs show ?thesis by blast
qed

text \<open>
  A body of more opening brackets than the interpreter may recurse is not reported as one of
  the SDK's errors: the \<open>RecursionError\<close> of the parser reaches the caller, also for a 200 response.
\<close>

theorem deep_body_escapes:
  "decode_response limit \<lparr>status_code = status, reason_phrase = reason, headers = hs,
     body = replicate (Suc limit) (byte 91), body_truncated = False,
     observed_body_bytes = Suc limit, body_read_failure = None\<rparr> n = Inl recursion_error"
  by (simp add: decode_response_def acknowledge_def parse_json_def decode_brackets loads_deep
      del: replicate_Suc)

end
