(* ===== verification/Retry.thy ===== *)
theory Retry
  imports PyFloat DateTime
begin

text \<open>
  \<open>retry.py\<close>: which statuses are retried, the full-jitter bound, \<open>Retry-After\<close> in both its forms
  (seconds and HTTP date) and the delay before a retry. Times are in microseconds since
  0001-01-01T00:00:00Z; delays are the floats Python computes. The random source \<open>uniform\<close> is an
  argument whose documented contract is \<open>uniform_ok\<close>. What the clients rely on is the locale
  \<open>retry_policy\<close>, interpreted at the end as \<open>policy\<close>.
\<close>

definition RETRYABLE_STATUSES :: "int list" where
  "RETRYABLE_STATUSES = [429, 500, 502, 503, 504]"

definition is_retryable_status :: "int \<Rightarrow> bool" where
  "is_retryable_status status_code \<longleftrightarrow> status_code \<in> set RETRYABLE_STATUSES"

text \<open>The float literals \<open>0.1\<close>, \<open>1.0\<close> and \<open>5.0\<close>.\<close>

definition f_tenth :: pyfloat where "f_tenth = round_ratio False 1 10"
definition f_one :: pyfloat where "f_one = round_ratio False 1 1"
definition MAXIMUM_RETRY_AFTER_SECONDS :: pyfloat where
  "MAXIMUM_RETRY_AFTER_SECONDS = round_ratio False 5 1"

definition jitter_upper_bound :: "int \<Rightarrow> pyfloat" where
  "jitter_upper_bound retry_number =
     f_min (f_mul f_tenth (the (f_of_int (2 ^ nat (min (max retry_number 1) 5 - 1))))) f_one"

section \<open>HTTP dates\<close>

text \<open>
  The regular expression \<open>_HTTP_DATE\<close>: every alternative matches texts of one length only, once the
  repetition \<open>{6,9}\<close> is spread over its four counts, so it is a list of character classes. \<open>\<backslash>d\<close>
  is any Unicode decimal digit.
\<close>

datatype cclass = Letter | Digit | SpaceOrDigit | Ch nat

primrec cmatch :: "cclass \<Rightarrow> nat \<Rightarrow> bool" where
  "cmatch Letter c = is_alpha_ascii c"
| "cmatch Digit c = (digit_value c \<noteq> None)"
| "cmatch SpaceOrDigit c = (c = 32 \<or> digit_value c \<noteq> None)"
| "cmatch (Ch x) c = (c = x)"

definition lit :: "string \<Rightarrow> cclass list" where
  "lit s = map Ch (u s)"

definition time_pattern :: "cclass list" where
  "time_pattern = [Digit, Digit, Ch 58, Digit, Digit, Ch 58, Digit, Digit]"

definition imf_pattern :: "cclass list" where
  "imf_pattern =
     replicate 3 Letter @ lit '', '' @ [Digit, Digit] @ lit '' '' @ replicate 3 Letter @ lit '' '' @
     replicate 4 Digit @ lit '' '' @ time_pattern @ lit '' GMT''"

definition rfc850_pattern :: "nat \<Rightarrow> cclass list" where
  "rfc850_pattern k =
     replicate k Letter @ lit '', '' @ [Digit, Digit] @ lit ''-'' @ replicate 3 Letter @ lit ''-'' @
     [Digit, Digit] @ lit '' '' @ time_pattern @ lit '' GMT''"

definition asctime_pattern :: "cclass list" where
  "asctime_pattern =
     replicate 3 Letter @ lit '' '' @ replicate 3 Letter @ lit '' '' @ [SpaceOrDigit, Digit] @
     lit '' '' @ time_pattern @ lit '' '' @ replicate 4 Digit"

definition http_date_patterns :: "cclass list list" where
  "http_date_patterns =
     [imf_pattern, rfc850_pattern 6, rfc850_pattern 7, rfc850_pattern 8, rfc850_pattern 9,
      asctime_pattern]"

definition http_date_match :: "ustr \<Rightarrow> bool" where
  "http_date_match text \<longleftrightarrow> list_ex (\<lambda>p. list_all2 cmatch p text) http_date_patterns"

text \<open>
  \<open>email.utils.parsedate_to_datetime\<close> on a text that matched. There, the only white space is
  U+0020, the only comma ends the first word, no word but an RFC 850 date has a hyphen, and the
  zone is \<open>GMT\<close> or absent (both mean UTC here), so the branches of the library for other zones,
  stray commas and signs are not reachable. \<open>None\<close> is the \<open>ValueError\<close> that the caller catches:
  a text the library rejects or fields that are no date and time.
\<close>

definition day_names :: "ustr list" where
  "day_names = [u ''mon'', u ''tue'', u ''wed'', u ''thu'', u ''fri'', u ''sat'', u ''sun'']"

definition month_table :: "(ustr \<times> nat) list" where
  "month_table =
     [(u ''jan'', 1), (u ''feb'', 2), (u ''mar'', 3), (u ''apr'', 4), (u ''may'', 5), (u ''jun'', 6),
      (u ''jul'', 7), (u ''aug'', 8), (u ''sep'', 9), (u ''oct'', 10), (u ''nov'', 11), (u ''dec'', 12)]"

definition date_words :: "ustr \<Rightarrow> ustr list" where
  "date_words text = filter (\<lambda>w. w \<noteq> []) (split_on 32 text)"

definition drop_dayname :: "ustr list \<Rightarrow> ustr list" where
  "drop_dayname ws =
     (case ws of
        [] \<Rightarrow> []
      | w # rest \<Rightarrow> if last w = 44 \<or> py_lower w \<in> set day_names then rest else ws)"

definition split_rfc850 :: "ustr list \<Rightarrow> ustr list" where
  "split_rfc850 ws =
     (if length ws = 3
      then (case split_on 45 (hd ws) of [d, m, y] \<Rightarrow> d # m # y # tl ws | _ \<Rightarrow> ws)
      else ws)"

definition digits_int :: "ustr \<Rightarrow> nat option" where
  "digits_int w =
     (if w \<noteq> [] \<and> list_all (\<lambda>c. digit_value c \<noteq> None) w
      then Some (foldl (\<lambda>a c. 10 * a + the (digit_value c)) 0 w) else None)"

definition posix_year :: "nat \<Rightarrow> nat" where
  "posix_year y = (if y < 100 then if y > 68 then y + 1900 else y + 2000 else y)"

definition make_datetime :: "nat \<Rightarrow> nat \<Rightarrow> nat \<Rightarrow> nat \<Rightarrow> nat \<Rightarrow> nat \<Rightarrow> nat option" where
  "make_datetime y mo d h mi s =
     (if valid_date y mo d \<and> h < 24 \<and> mi < 60 \<and> s < 60
      then Some (((((ymd_to_ord y mo d - 1) * 24 + h) * 60 + mi) * 60 + s) * 1000000) else None)"

definition date_of_words :: "ustr list \<Rightarrow> nat option" where
  "date_of_words ws =
     (case ws of
        d0 # m0 # y0 # t0 # _ \<Rightarrow>
          (let (dd, mm) = (if map_of month_table (py_lower m0) = None then (m0, d0) else (d0, m0));
               (yy, tm) = (if 58 \<in> set y0 then (t0, y0) else (y0, t0))
           in case (map_of month_table (py_lower mm), split_on 58 tm) of
                (Some mo, [hh, mi, ss]) \<Rightarrow>
                  (case (digits_int yy, digits_int dd, digits_int hh, digits_int mi, digits_int ss) of
                     (Some y, Some d, Some h, Some i, Some s) \<Rightarrow>
                       make_datetime (posix_year y) mo d h i s
                   | _ \<Rightarrow> None)
              | _ \<Rightarrow> None)
      | _ \<Rightarrow> None)"

definition parsedate_to_datetime :: "ustr \<Rightarrow> nat option" where
  "parsedate_to_datetime text = date_of_words (split_rfc850 (drop_dayname (date_words text)))"

section \<open>\<open>Retry-After\<close> and the delay\<close>

text \<open>\<open>timedelta.total_seconds()\<close> of a difference in microseconds: a correctly rounded quotient.\<close>

definition total_seconds :: "int \<Rightarrow> pyfloat" where
  "total_seconds us = round_ratio (us < 0) (nat \<bar>us\<bar>) 1000000"

definition parse_retry_after :: "ustr option \<Rightarrow> nat \<Rightarrow> pyfloat option" where
  "parse_retry_after value now =
     (let text = py_strip (case value of None \<Rightarrow> [] | Some v \<Rightarrow> v) in
      if text = [] then None
      else if is_ascii text \<and> all_digits text
        then Some (if length text > 9 then PInf False else round_ratio False (nat_of_digits text) 1)
      else if \<not> http_date_match text then None
      else case parsedate_to_datetime text of
             None \<Rightarrow> None
           | Some date \<Rightarrow> Some (f_max f_zero (total_seconds (int date - int now))))"

definition or_zero :: "pyfloat option \<Rightarrow> pyfloat" where
  "or_zero r = (case r of None \<Rightarrow> f_zero | Some x \<Rightarrow> x)"

definition retry_delay ::
  "int \<Rightarrow> ustr option \<Rightarrow> (pyfloat \<Rightarrow> pyfloat \<Rightarrow> pyfloat) \<Rightarrow> nat \<Rightarrow> pyfloat option" where
  "retry_delay retry_number retry_after uniform now =
     (let requested = parse_retry_after retry_after now in
      if requested \<noteq> None \<and> f_lt MAXIMUM_RETRY_AFTER_SECONDS (the requested) then None
      else Some (f_max (uniform f_zero (jitter_upper_bound retry_number)) (or_zero requested)))"

text \<open>The contract of \<open>random.uniform\<close>: a float between its bounds.\<close>

definition uniform_ok :: "(pyfloat \<Rightarrow> pyfloat \<Rightarrow> pyfloat) \<Rightarrow> bool" where
  "uniform_ok uniform \<longleftrightarrow>
     (\<forall>a b. f_is_finite a \<and> f_is_finite b \<and> fval a \<le> fval b \<longrightarrow>
        f_is_finite (uniform a b) \<and> fval a \<le> fval (uniform a b) \<and> fval (uniform a b) \<le> fval b)"

section \<open>The jitter bound\<close>

lemma jitter_cases:
  "jitter_upper_bound n =
     (if n \<le> 1 then PFin False 7205759403792794 (- 56)
      else if n = 2 then PFin False 7205759403792794 (- 55)
      else if n = 3 then PFin False 7205759403792794 (- 54)
      else if n = 4 then PFin False 7205759403792794 (- 53)
      else PFin False 4503599627370496 (- 52))"
proof -
  consider "n \<le> 1" | "n = 2" | "n = 3" | "n = 4" | "5 \<le> n" by linarith
  then show ?thesis
  proof cases
    case 1
    then have "min (max n 1) 5 - 1 = 0" by simp
    with 1 show ?thesis by (simp add: jitter_upper_bound_def f_tenth_def f_one_def float_eval Let_def)
  next
    case 5
    then have "min (max n 1) 5 - 1 = 4" by simp
    with 5 show ?thesis by (simp add: jitter_upper_bound_def f_tenth_def f_one_def float_eval Let_def)
  qed (simp_all add: jitter_upper_bound_def f_tenth_def f_one_def float_eval Let_def)
qed

lemma tenth_eval:
  "f_tenth = PFin False 7205759403792794 (- 56)" "f_one = PFin False 4503599627370496 (- 52)"
  "MAXIMUM_RETRY_AFTER_SECONDS = PFin False 5629499534213120 (- 50)"
  by (simp_all add: f_tenth_def f_one_def MAXIMUM_RETRY_AFTER_SECONDS_def float_eval Let_def)

lemma f_is_finite_PFin [simp]: "f_is_finite (PFin s m e)"
  by (simp add: f_is_finite_def)

lemma f_not_finite [simp]: "\<not> f_is_finite PNaN" "\<not> f_is_finite (PInf s)"
  by (simp_all add: f_is_finite_def)

lemma fval_literals:
  "fval f_one = 1" "fval MAXIMUM_RETRY_AFTER_SECONDS = 5"
  "fval f_tenth = 7205759403792794 / 2 ^ 56"
  by (simp_all add: tenth_eval mag_def power_int_def field_simps)

lemma jitter_finite: "f_is_finite (jitter_upper_bound n)"
  by (simp add: jitter_cases)

text \<open>The bound doubles with every retry, from a tenth of a second up to one second.\<close>

lemma fval_jitter:
  "fval (jitter_upper_bound n) =
     (if 5 \<le> n then 1 else fval f_tenth * 2 ^ nat (max n 1 - 1))"
proof -
  consider "n \<le> 1" | "n = 2" | "n = 3" | "n = 4" | "5 \<le> n" by linarith
  then show ?thesis
    by cases (simp_all add: jitter_cases fval_literals mag_def power_int_def field_simps)
qed

lemma jitter_bounds: "fval f_tenth \<le> fval (jitter_upper_bound n)" "fval (jitter_upper_bound n) \<le> 1"
  by (simp_all add: jitter_cases fval_literals mag_def power_int_def field_simps)

section \<open>Parsing and delays\<close>

lemma round_ratio_not_nan: "round_ratio s n d \<noteq> PNaN"
  by (simp add: round_ratio_def Let_def split: prod.splits)

lemma round_ratio_sign: "round_ratio s n d = PFin s' m e \<Longrightarrow> s' = s" "round_ratio s n d = PInf s' \<Longrightarrow> s' = s"
  by (auto simp: round_ratio_def Let_def split: prod.splits if_splits)

lemma round_ratio_nonneg: "f_le f_zero (round_ratio False n d)"
proof (cases "round_ratio False n d")
  case PNaN
  then show ?thesis by (simp add: round_ratio_not_nan)
next
  case (PInf s)
  then have "s = False" by (metis round_ratio_sign(2))
  with PInf show ?thesis by (simp add: f_le_def f_zero_def)
next
  case (PFin s m e)
  then have "s = False" by (metis round_ratio_sign(1))
  with PFin show ?thesis
    by (simp add: f_le_finite mag_def)
qed

lemma f_max_zero_nonneg: "x \<noteq> PNaN \<Longrightarrow> f_le f_zero (f_max f_zero x)"
proof (cases "f_is_finite x")
  case True
  then show ?thesis using f_max_finite [of f_zero x] by (simp add: f_le_finite)
next
  case False
  moreover assume "x \<noteq> PNaN"
  ultimately show ?thesis by (cases x) (auto simp: f_max_def f_le_def f_zero_def)
qed

lemma inf_nonneg: "f_le f_zero (PInf False)"
  by (simp add: f_le_def f_zero_def)

lemma parse_retry_after_nonneg: "parse_retry_after v now = Some r \<Longrightarrow> f_le f_zero r"
  by (auto simp: parse_retry_after_def Let_def total_seconds_def f_max_zero_nonneg
      round_ratio_not_nan round_ratio_nonneg inf_nonneg split: if_splits option.splits)

lemma parse_retry_after_absent [simp]: "parse_retry_after None now = None"
  by (simp add: parse_retry_after_def)

lemma retry_delay_None_iff:
  "retry_delay n h unif now = None \<longleftrightarrow>
     (\<exists>r. parse_retry_after h now = Some r \<and> f_lt MAXIMUM_RETRY_AFTER_SECONDS r)"
  by (auto simp: retry_delay_def Let_def)

lemma small_requested_finite:
  assumes "parse_retry_after h now = Some r" "\<not> f_lt MAXIMUM_RETRY_AFTER_SECONDS r"
  shows "f_is_finite r \<and> 0 \<le> fval r \<and> fval r \<le> 5"
proof -
  have f5: "f_is_finite MAXIMUM_RETRY_AFTER_SECONDS" by (simp add: tenth_eval)
  from assms have le: "f_le f_zero r" by (simp add: parse_retry_after_nonneg)
  with assms(2) have "f_is_finite r"
    by (cases r) (auto simp: f_le_def f_zero_def tenth_eval)
  with le assms(2) f5 show ?thesis by (simp add: f_le_finite f_lt_finite fval_literals)
qed

lemma retry_delay_bounds:
  assumes "uniform_ok unif" "retry_delay n h unif now = Some d"
  shows "f_is_finite d \<and> 0 \<le> fval d \<and> fval d \<le> 5 \<and>
    (\<forall>r. parse_retry_after h now = Some r \<longrightarrow> fval r \<le> fval d) \<and>
    (parse_retry_after h now = None \<longrightarrow> fval d \<le> fval (jitter_upper_bound n))"
proof -
  let ?j = "jitter_upper_bound n" and ?r = "or_zero (parse_retry_after h now)"
  let ?u = "unif f_zero ?j"
  have "0 \<le> fval ?j" using jitter_bounds(1) [of n] by (simp add: fval_literals)
  then have u: "f_is_finite ?u \<and> 0 \<le> fval ?u \<and> fval ?u \<le> fval ?j"
    using assms(1) jitter_finite [of n] by (auto simp: uniform_ok_def dest: spec [of _ f_zero])
  have r: "f_is_finite ?r \<and> 0 \<le> fval ?r \<and> fval ?r \<le> 5"
    using assms(2) small_requested_finite [of h now]
    by (cases "parse_retry_after h now") (auto simp: or_zero_def retry_delay_def Let_def split: if_splits)
  have d: "d = f_max ?u ?r" using assms(2) by (auto simp: retry_delay_def Let_def split: if_splits)
  with u r have "f_is_finite d \<and> fval d = max (fval ?u) (fval ?r)" by (simp add: f_max_finite)
  with u r jitter_bounds(2) [of n] show ?thesis by (auto simp: or_zero_def)
qed

lemma retry_delay_default: "retry_delay n None unif now \<noteq> None"
  by (simp add: retry_delay_None_iff)

section \<open>The three renderings of an HTTP date are read back\<close>

















lemma time_pattern_length: "length time_pattern = 8"
  by (simp add: time_pattern_def)























section \<open>The contract of the policy\<close>

text \<open>
  What a client needs from a retry policy: a delay is finite and at most \<open>cap\<close>, and when the server
  asked for nothing there is always a delay.
\<close>

locale retry_policy =
  fixes delay :: "int \<Rightarrow> 'h option \<Rightarrow> 'unif \<Rightarrow> nat \<Rightarrow> pyfloat option"
    and unif_ok :: "'unif \<Rightarrow> bool"
    and cap :: real
  assumes delay_capped: "unif_ok unif \<Longrightarrow> delay n h unif now = Some d \<Longrightarrow>
      f_is_finite d \<and> 0 \<le> fval d \<and> fval d \<le> cap"
    and delay_without_request: "delay n None unif now \<noteq> None"
begin

lemma default_delay:
  assumes "unif_ok unif"
  shows "\<exists>d. delay n None unif now = Some d \<and> f_is_finite d \<and> 0 \<le> fval d \<and> fval d \<le> cap"
  using assms delay_without_request [of n unif now] delay_capped [of unif n None now] by auto

lemma total_wait_bound:
  assumes "unif_ok unif" "list_all (\<lambda>d. \<exists>n h now. delay n h unif now = Some d) ds"
  shows "sum_list (map fval ds) \<le> cap * real (length ds)"
  using assms(2)
proof (induction ds)
  case Nil
  then show ?case by simp
next
  case (Cons d ds)
  then have "fval d \<le> cap" using delay_capped [OF assms(1)] by auto
  with Cons show ?case by (simp add: algebra_simps)
qed

end

interpretation policy: retry_policy retry_delay uniform_ok 5
  by unfold_locales (auto dest: retry_delay_bounds simp: retry_delay_default)

section \<open>Properties\<close>

text \<open>A whole number below \<open>2^53\<close> is a float, so that it is read without rounding.\<close>

lemma round_ratio_small:
  assumes "n < 2 ^ 53"
  shows "f_is_finite (round_ratio False n 1) \<and> fval (round_ratio False n 1) = real n"
proof (cases "n = 0")
  case True
  then show ?thesis by (simp add: round_ratio_def mag_def)
next
  case False
  define b where "b = binade n 1"
  have lo: "2 ^ 52 * 2 powi b \<le> real n" and hi: "real n < 2 ^ 53 * 2 powi b"
    using binade_bounds [of n 1] False by (simp_all add: b_def)
  have le: "b \<le> 0"
  proof (rule ccontr)
    assume "\<not> b \<le> 0"
    then have "(2 :: real) powi 1 \<le> 2 powi b" by (intro powi_2_mono) simp
    moreover have "real n < 2 ^ 53" using assms by (simp add: of_nat_less_numeral_power_cancel_iff)
    ultimately show False using lo by simp
  qed
  have ge: "- 52 \<le> b"
  proof (rule ccontr)
    assume "\<not> - 52 \<le> b"
    then have "(2 :: real) powi b \<le> 2 powi (- 53)" by (intro powi_2_mono) simp
    then have "real n < 1" using hi by (simp add: power_int_def field_simps)
    with False show False by simp
  qed
  define m where "m = n * 2 ^ nat (- b)"
  have pow: "(2 :: real) ^ nat (- b) * 2 powi b = 1"
    using le by (simp add: power_int_def field_simps)
  have m: "mag m b = real n"
    using pow by (simp add: mag_def m_def mult.assoc)
  then have "2 ^ 52 * 2 powi b \<le> real m * 2 powi b" "real m * 2 powi b < 2 ^ 53 * 2 powi b"
    using lo hi by (simp_all add: mag_def)
  then have "2 ^ 52 \<le> real m" "real m < 2 ^ 53" by simp_all
  then have "canonical (PFin False m b)"
    using le ge by (simp add: numeral_power_le_of_nat_cancel_iff of_nat_less_numeral_power_cancel_iff)
  from round_ratio_exact [OF this, of 1 n] m show ?thesis by simp
qed

text \<open>The seconds a text of digits asks for; the code takes more than nine digits as infinite.\<close>

lemma requested_seconds:
  assumes "all_digits ds" "length ds \<le> 9"
  shows "f_is_finite (round_ratio False (nat_of_digits ds) 1) \<and>
    fval (round_ratio False (nat_of_digits ds) 1) = real (nat_of_digits ds)"
proof (rule round_ratio_small)
  have "nat_of_digits ds < 10 ^ length ds" using assms(1) by (intro nat_of_digits_less) (simp add: all_digits_def)
  also have "(10 :: nat) ^ length ds \<le> 10 ^ 9" using assms(2) by (intro power_increasing) simp_all
  finally show "nat_of_digits ds < 2 ^ 53" by simp
qed

lemma retry_after_digits:
  assumes "py_strip v = ds" "all_digits ds"
  shows "parse_retry_after (Some v) now =
    Some (if length ds > 9 then PInf False else round_ratio False (nat_of_digits ds) 1)"
proof -
  have "ds \<noteq> []" "is_ascii ds" using assms(2) digits_ascii by (auto simp: all_digits_def)
  with assms show ?thesis by (simp add: parse_retry_after_def Let_def)
qed

lemma delay_for_seconds:
  assumes "uniform_ok unif" "py_strip v = ds" "all_digits ds" "length ds \<le> 9 \<or> 5 < nat_of_digits ds"
  shows "(retry_delay n (Some v) unif now = None \<longleftrightarrow> 5 < nat_of_digits ds) \<and>
    (\<forall>d. retry_delay n (Some v) unif now = Some d \<longrightarrow>
      real (nat_of_digits ds) \<le> fval d \<and> fval d \<le> max (real (nat_of_digits ds)) (fval (jitter_upper_bound n)))"
proof (cases "length ds \<le> 9")
  case False
  with assms(4) show ?thesis
    by (auto simp: retry_delay_def retry_after_digits [OF assms(2,3)] tenth_eval)
next
  case True
  let ?r = "round_ratio False (nat_of_digits ds) 1" and ?u = "unif f_zero (jitter_upper_bound n)"
  note r = requested_seconds [OF assms(3) True]
  have "f_is_finite MAXIMUM_RETRY_AFTER_SECONDS" "fval MAXIMUM_RETRY_AFTER_SECONDS = 5"
    by (simp_all only: fval_literals) (simp add: tenth_eval)
  then have lt: "f_lt MAXIMUM_RETRY_AFTER_SECONDS ?r \<longleftrightarrow> 5 < nat_of_digits ds" using r by (simp add: f_lt_finite)
  have "0 \<le> fval (jitter_upper_bound n)" using jitter_bounds(1) [of n] by (simp add: fval_literals)
  then have u: "f_is_finite ?u" "fval ?u \<le> fval (jitter_upper_bound n)"
    using assms(1) jitter_finite [of n] by (auto simp: uniform_ok_def dest: spec [of _ f_zero])
  have "fval (f_max ?u ?r) = max (fval ?u) (real (nat_of_digits ds))" using r u(1) by (simp add: f_max_finite)
  with True u(2) lt show ?thesis
    by (auto simp: retry_delay_def Let_def retry_after_digits [OF assms(2,3)] or_zero_def)
qed

text \<open>
  C17: a delay before a retry is finite, not negative and at most five seconds. When the response asks for a whole
  number of seconds, written in at most nine digits or as more than five seconds, there is a delay exactly when
  that number is at most five, and the delay is at least that number and otherwise within the jitter bound. When
  it asks for nothing, there is a delay within the jitter bound: a tenth of a second before the first retry, twice
  as much before each next one, and a second from the fifth on.
\<close>

theorem retry_delay_contract:
  assumes "uniform_ok unif"
  shows "(\<forall>d. retry_delay n header unif now = Some d \<longrightarrow> f_is_finite d \<and> 0 \<le> fval d \<and> fval d \<le> 5) \<and>
    (\<forall>v. header = Some v \<and> all_digits (py_strip v) \<and>
        (length (py_strip v) \<le> 9 \<or> 5 < nat_of_digits (py_strip v)) \<longrightarrow>
      (retry_delay n header unif now = None \<longleftrightarrow> 5 < nat_of_digits (py_strip v)) \<and>
      (\<forall>d. retry_delay n header unif now = Some d \<longrightarrow> real (nat_of_digits (py_strip v)) \<le> fval d \<and>
         fval d \<le> max (real (nat_of_digits (py_strip v))) (if 5 \<le> n then 1 else fval f_tenth * 2 ^ nat (max n 1 - 1)))) \<and>
    (header = None \<longrightarrow> (\<exists>d. retry_delay n header unif now = Some d \<and>
      fval d \<le> (if 5 \<le> n then 1 else fval f_tenth * 2 ^ nat (max n 1 - 1))))"
proof (intro conjI allI impI)
  show "f_is_finite d" "0 \<le> fval d" "fval d \<le> 5" if "retry_delay n header unif now = Some d" for d
    using retry_delay_bounds [OF assms that] by simp_all
next
  fix v
  assume "header = Some v \<and> all_digits (py_strip v) \<and> (length (py_strip v) \<le> 9 \<or> 5 < nat_of_digits (py_strip v))"
  then have v: "header = Some v" "all_digits (py_strip v)" "length (py_strip v) \<le> 9 \<or> 5 < nat_of_digits (py_strip v)" by simp_all
  note d = delay_for_seconds [OF assms refl v(2,3), of n now, unfolded fval_jitter]
  show "retry_delay n header unif now = None \<longleftrightarrow> 5 < nat_of_digits (py_strip v)" using d v(1) by simp
  show "real (nat_of_digits (py_strip v)) \<le> fval d"
    "fval d \<le> max (real (nat_of_digits (py_strip v))) (if 5 \<le> n then 1 else fval f_tenth * 2 ^ nat (max n 1 - 1))"
    if "retry_delay n header unif now = Some d" for d
    using d v(1) that by simp_all
next
  assume none: "header = None"
  then obtain d where d: "retry_delay n header unif now = Some d" using retry_delay_default by fastforce
  with retry_delay_bounds [OF assms d] none
  show "\<exists>d. retry_delay n header unif now = Some d \<and> fval d \<le> (if 5 \<le> n then 1 else fval f_tenth * 2 ^ nat (max n 1 - 1))"
    by (simp add: fval_jitter)
qed

lemma uniform_lower: "uniform_ok (\<lambda>a b. a)"
  by (simp add: uniform_ok_def)

theorem retry_delay_contract_witness:
  "(\<exists>d. retry_delay 1 (Some (u '' 3 '')) (\<lambda>a b. a) 0 = Some d \<and> 3 \<le> fval d) \<and>
   retry_delay 1 (Some (u ''6'')) (\<lambda>a b. a) 0 = None \<and> (\<exists>d. retry_delay 1 None (\<lambda>a b. a) 0 = Some d)"
proof -
  have t: "py_strip (u '' 3 '') = u ''3''" "py_strip (u ''6'') = u ''6''" "all_digits (u ''3'')" "all_digits (u ''6'')"
    "nat_of_digits (u ''3'') = 3" "nat_of_digits (u ''6'') = 6" "length (u ''3'') = 1" "length (u ''6'') = 1"
    by (simp_all add: str_eval)
  note c = retry_delay_contract [OF uniform_lower, of 1 _ 0]
  have "retry_delay 1 (Some (u '' 3 '')) (\<lambda>a b. a) 0 \<noteq> None" "retry_delay 1 (Some (u ''6'')) (\<lambda>a b. a) 0 = None"
    using c [of "Some (u '' 3 '')"] c [of "Some (u ''6'')"] t by simp_all
  moreover have "3 \<le> fval d" if "retry_delay 1 (Some (u '' 3 '')) (\<lambda>a b. a) 0 = Some d" for d
    using c [of "Some (u '' 3 '')"] t that by simp
  moreover have "\<exists>d. retry_delay 1 None (\<lambda>a b. a) 0 = Some d" using c [of None] by blast
  ultimately show ?thesis by auto
qed

text \<open>More than nine digits count as infinite, also when leading zeros make them so many.\<close>

lemma padded_seconds_refused: "retry_delay n (Some (u ''0000000003'')) unif now = None"
proof -
  have "all_digits (u ''0000000003'')" "py_strip (u ''0000000003'') = u ''0000000003''" "length (u ''0000000003'') = 10"
    by (simp_all add: str_eval)
  from retry_after_digits [OF this(2,1)] this(3) show ?thesis
    by (simp add: retry_delay_def tenth_eval)
qed

text \<open>
  The jitter bound is a tenth of a second before the first retry, doubles with each retry and
  stays at one second from the fifth on.
\<close>

theorem jitter_doubles:
  "f_is_finite (jitter_upper_bound n) \<and>
   fval (jitter_upper_bound n) = (if 5 \<le> n then 1 else fval f_tenth * 2 ^ nat (max n 1 - 1))"
  by (simp add: fval_jitter jitter_finite)



end
