(* ===== verification/Validation.thy ===== *)
theory Validation
  imports Errors Retry
begin

text \<open>
  \<open>validation.py\<close>, the configuration half: access token, timeout, retry count and origin. A value the
  caller passes is a \<open>pyval\<close>. \<open>normalize_origin\<close> goes through a model of \<open>urllib.parse.urlsplit\<close>
  and of the properties \<open>hostname\<close> and \<open>port\<close> of its result. Two checks of the library are
  arguments: \<open>nfkc_ok\<close>, that a non-ASCII network location has no delimiter under the NFKC
  normalization of the Unicode database, and \<open>bracket_ok\<close>, that a bracketed host is an IPv6 or future
  IP literal (\<open>ipaddress\<close>).
\<close>

definition invalid_arg :: "string \<Rightarrow> error" where
  "invalid_arg s = ValidationError (u s)"

definition overflow_error :: error where
  "overflow_error = Foreign (OtherExn (u ''OverflowError'') (u ''int too large to convert to float''))"

definition validate_access_token :: "pyval \<Rightarrow> error + ustr" where
  "validate_access_token access_token =
     (case access_token of
        VStr s \<Rightarrow>
          if py_strip s = [] then Inl (invalid_arg ''access token must be a non-empty string'') else Inr s
      | _ \<Rightarrow> Inl (invalid_arg ''access token must be a non-empty string''))"

text \<open>\<open>math.isfinite\<close> converts an integer to a float first, which may overflow.\<close>

definition timeout_error :: error where
  "timeout_error = invalid_arg ''timeout must be a finite number of seconds greater than zero''"

definition validate_timeout :: "pyval \<Rightarrow> error + pyfloat" where
  "validate_timeout timeout =
     (case timeout of
        VInt i \<Rightarrow>
          (case f_of_int i of
             None \<Rightarrow> Inl overflow_error
           | Some x \<Rightarrow> if i \<le> 0 then Inl timeout_error else Inr x)
      | VFloat x \<Rightarrow> if \<not> f_is_finite x \<or> f_le x f_zero then Inl timeout_error else Inr x
      | _ \<Rightarrow> Inl timeout_error)"

definition validate_retry_count :: "pyval \<Rightarrow> error + nat" where
  "validate_retry_count retry_count =
     (case retry_count of
        VInt i \<Rightarrow>
          if i < 0 then Inl (invalid_arg ''retry_count must be a non-negative integer'') else Inr (nat i)
      | _ \<Rightarrow> Inl (invalid_arg ''retry_count must be a non-negative integer''))"

section \<open>\<open>urlsplit\<close>\<close>

definition scheme_char :: "nat \<Rightarrow> bool" where
  "scheme_char c \<longleftrightarrow> is_alnum_ascii c \<or> c \<in> {43, 45, 46}"

definition split_scheme :: "ustr \<Rightarrow> ustr \<times> ustr" where
  "split_scheme url =
     (case partition_at 58 url of
        (pre, found, post) \<Rightarrow>
          if found \<and> pre \<noteq> [] \<and> is_alpha_ascii (hd pre) \<and> list_all scheme_char pre
          then (py_lower pre, post) else ([], url))"

definition delimiter :: "nat \<Rightarrow> bool" where
  "delimiter c \<longleftrightarrow> c \<in> {47, 63, 35}"

definition brackets_ok :: "(ustr \<Rightarrow> bool) \<Rightarrow> ustr \<Rightarrow> bool" where
  "brackets_ok bracket_ok netloc \<longleftrightarrow>
     (91 \<in> set netloc \<longleftrightarrow> 93 \<in> set netloc) \<and>
     (91 \<in> set netloc \<longrightarrow>
        bracket_ok (fst (partition_at 93 (snd (snd (partition_at 91 netloc))))))"

text \<open>
  \<open>urlsplit\<close> of a text without question mark, number sign, space, tab and line ends, as the caller
  has checked: scheme, network location and path. \<open>None\<close> is a \<open>ValueError\<close>.
\<close>

definition urlsplit :: "(ustr \<Rightarrow> bool) \<Rightarrow> (ustr \<Rightarrow> bool) \<Rightarrow> ustr \<Rightarrow> (ustr \<times> ustr \<times> ustr) option" where
  "urlsplit nfkc_ok bracket_ok s =
     (let (scheme, rest) = split_scheme (dropWhile (\<lambda>c. c \<le> 32) s) in
      if take 2 rest = [47, 47]
      then (let netloc = takeWhile (\<lambda>c. \<not> delimiter c) (drop 2 rest);
                path = dropWhile (\<lambda>c. \<not> delimiter c) (drop 2 rest)
            in if brackets_ok bracket_ok netloc \<and> (is_ascii netloc \<or> nfkc_ok netloc)
               then Some (scheme, netloc, path) else None)
      else Some (scheme, [], rest))"

text \<open>\<open>_hostinfo\<close>: the host text and the port text of a network location.\<close>

definition hostinfo :: "ustr \<Rightarrow> ustr \<times> ustr" where
  "hostinfo netloc =
     (case rpartition_at 64 netloc of
        (_, _, info) \<Rightarrow>
          (case partition_at 91 info of
             (_, True, bracketed) \<Rightarrow>
               (case partition_at 93 bracketed of
                  (host, _, rest) \<Rightarrow> (host, snd (snd (partition_at 58 rest))))
           | (_, False, _) \<Rightarrow>
               (case partition_at 58 info of (host, _, port) \<Rightarrow> (host, port))))"

text \<open>\<open>hostname\<close>: lower case up to a zone identifier. An empty text stands for \<open>None\<close>.\<close>

definition url_hostname :: "ustr \<Rightarrow> ustr" where
  "url_hostname netloc =
     (case partition_at 37 (fst (hostinfo netloc)) of
        (host, percent, zone) \<Rightarrow> py_lower host @ (if percent then [37] else []) @ zone)"

text \<open>\<open>port\<close>: \<open>None\<close> is the \<open>ValueError\<close>, \<open>Some None\<close> an absent port.\<close>

definition url_port :: "ustr \<Rightarrow> nat option option" where
  "url_port netloc =
     (let port = snd (hostinfo netloc) in
      if port = [] then Some None
      else if all_digits port \<and> nat_of_digits port \<le> 65535 then Some (Some (nat_of_digits port))
      else None)"

section \<open>\<open>normalize_origin\<close>\<close>

definition origin_error :: error where
  "origin_error = invalid_arg
     ''base_url must be an absolute HTTP(S) origin without credentials, path, query, or fragment''"

definition forbidden_in_origin :: "nat \<Rightarrow> bool" where
  "forbidden_in_origin c \<longleftrightarrow> c \<in> {63, 35, 32, 9, 13, 10}"

definition port_suffix :: "nat option \<Rightarrow> ustr" where
  "port_suffix port = (case port of None \<Rightarrow> [] | Some n \<Rightarrow> 58 # str_of_nat n)"

definition normalize_origin :: "(ustr \<Rightarrow> bool) \<Rightarrow> (ustr \<Rightarrow> bool) \<Rightarrow> pyval \<Rightarrow> error + ustr" where
  "normalize_origin nfkc_ok bracket_ok base_url =
     (case base_url of
        VStr s \<Rightarrow>
          if list_ex forbidden_in_origin s then Inl origin_error
          else (case urlsplit nfkc_ok bracket_ok s of
                  None \<Rightarrow> Inl origin_error
                | Some (scheme, netloc, path) \<Rightarrow>
                    (case url_port netloc of
                       None \<Rightarrow> Inl origin_error
                     | Some port \<Rightarrow>
                         if py_lower scheme \<notin> {u ''http'', u ''https''} \<or> url_hostname netloc = []
                         then Inl origin_error
                         else if 64 \<in> set netloc \<or> path \<notin> {[], [47]} then Inl origin_error
                         else (let host = py_lower (url_hostname netloc);
                                   host' = (if 58 \<in> set host then [91] @ host @ [93] else host)
                               in Inr (py_lower scheme @ u ''://'' @ host' @ port_suffix port))))
      | _ \<Rightarrow> Inl origin_error)"

section \<open>The shape of an origin\<close>

lemma lower_ranges_bound: "list_all (\<lambda>(a, b, s, d). 97 \<le> int a + d) lower_ranges"
  by (simp add: lower_ranges_def)

lemma lower_cp_small: "d \<in> set (lower_cp c) \<Longrightarrow> d < 97 \<Longrightarrow> d = c"
proof -
  assume d: "d \<in> set (lower_cp c)" "d < 97"
  show "d = c"
  proof (cases "c < 128")
    case True
    with d show ?thesis by (auto simp: lower_cp_def split: if_splits)
  next
    case False
    have "97 \<le> lower_high c"
    proof (cases "find (\<lambda>(a, b, s, d). a \<le> c \<and> c \<le> b \<and> (c - a) mod s = 0) lower_ranges")
      case None
      with False show ?thesis by (simp add: lower_high_def)
    next
      case (Some r)
      obtain a b t e where r: "r = (a, b, t, e)" by (metis prod.exhaust)
      with Some have "r \<in> set lower_ranges" "a \<le> c" by (auto simp: find_Some_iff) (metis nth_mem)
      with lower_ranges_bound r have "97 \<le> int c + e" by (auto simp: list_all_iff)
      with Some r show ?thesis by (simp add: lower_high_def)
    qed
    with d False show ?thesis by (auto simp: lower_cp_def split: if_splits)
  qed
qed

lemma py_lower_small: "d \<in> set (py_lower s) \<Longrightarrow> d < 97 \<Longrightarrow> d \<in> set s"
  by (auto simp: py_lower_def dest: lower_cp_small)

lemma set_partition_at:
  "partition_at c s = (a, f, b) \<Longrightarrow> set a \<subseteq> set s \<and> set b \<subseteq> set s \<and> (f \<longleftrightarrow> c \<in> set s) \<and> c \<notin> set a"
  by (auto simp: partition_at_def dest: set_takeWhileD set_dropWhileD in_set_dropD)

lemma set_rpartition_at: "rpartition_at c s = (a, f, b) \<Longrightarrow> set b \<subseteq> set s"
proof
  fix x
  assume r: "rpartition_at c s = (a, f, b)" and x: "x \<in> set b"
  then have "x \<in> set s \<or> x \<in> set (takeWhile (\<lambda>x. x \<noteq> c) (rev s))"
    by (auto simp: rpartition_at_def split: if_splits)
  then show "x \<in> set s" using set_takeWhileD [of x _ "rev s"] by auto
qed

lemma set_partition_post: "set (snd (snd (partition_at c s))) \<subseteq> set s"
  by (metis prod.collapse set_partition_at)

lemma set_hostinfo: "hostinfo netloc = (host, port) \<Longrightarrow> set host \<subseteq> set netloc \<and> set port \<subseteq> set netloc"
  unfolding hostinfo_def
  by (auto split: prod.splits bool.splits dest!: set_partition_at set_rpartition_at
      subsetD [OF set_partition_post])

lemma hostinfo_no_colon: "91 \<notin> set netloc \<Longrightarrow> 58 \<notin> set (fst (hostinfo netloc))"
proof -
  assume n: "91 \<notin> set netloc"
  obtain a f info where r: "rpartition_at 64 netloc = (a, f, info)" by (metis prod.exhaust)
  then have "91 \<notin> set info" using n set_rpartition_at by blast
  then have "fst (snd (partition_at 91 info)) = False" by (simp add: partition_at_def)
  then have "fst (hostinfo netloc) = fst (partition_at 58 info)"
    by (auto simp: hostinfo_def r split: prod.splits bool.splits)
  then show ?thesis by (cases "partition_at 58 info") (auto dest: set_partition_at)
qed

lemma url_hostname_small: "d \<in> set (url_hostname netloc) \<Longrightarrow> d < 97 \<Longrightarrow> d \<in> set (fst (hostinfo netloc))"
proof -
  assume d: "d \<in> set (url_hostname netloc)" "d < 97"
  obtain a f b where p: "partition_at 37 (fst (hostinfo netloc)) = (a, f, b)" by (metis prod.exhaust)
  with d set_partition_at [OF p] show ?thesis
    by (auto simp: url_hostname_def dest: py_lower_small split: if_splits)
qed

lemma host_small:
  "d \<in> set (py_lower (url_hostname netloc)) \<Longrightarrow> d < 97 \<Longrightarrow> d \<in> set (fst (hostinfo netloc)) \<and> d \<in> set netloc"
  using set_hostinfo [of netloc "fst (hostinfo netloc)" "snd (hostinfo netloc)"]
  by (auto dest!: py_lower_small dest: url_hostname_small)

lemma py_lower_eq_Nil [simp]: "py_lower s = [] \<longleftrightarrow> s = []"
  by (cases s) (auto simp: py_lower_def lower_cp_def)

lemma urlsplit_netloc:
  assumes "urlsplit p q s = Some (scheme, netloc, path)"
  shows "set netloc \<subseteq> set s" "list_all (\<lambda>c. \<not> delimiter c) netloc" "91 \<in> set netloc \<longleftrightarrow> 93 \<in> set netloc"
proof -
  let ?w = "dropWhile (\<lambda>c. c \<le> 32) s"
  obtain sch rest where r: "split_scheme ?w = (sch, rest)" by fastforce
  have "set rest \<subseteq> set ?w"
    using r by (auto simp: split_scheme_def split: prod.splits if_splits dest!: set_partition_at)
  then have rs: "set rest \<subseteq> set s" by (auto dest: set_dropWhileD)
  have n: "netloc = takeWhile (\<lambda>c. \<not> delimiter c) (drop 2 rest) \<and> brackets_ok q netloc \<or> netloc = []"
    using assms by (auto simp: urlsplit_def r Let_def split: if_splits)
  then show "set netloc \<subseteq> set s"
    using rs by (auto dest!: set_takeWhileD in_set_dropD)
  show "list_all (\<lambda>c. \<not> delimiter c) netloc"
    using n by (auto simp: list_all_iff dest: set_takeWhileD)
  show "91 \<in> set netloc \<longleftrightarrow> 93 \<in> set netloc"
    using n by (auto simp: brackets_ok_def)
qed

lemma normalize_origin_Inr:
  assumes "normalize_origin p q v = Inr t"
  obtains s scheme netloc path port where "v = VStr s" "\<not> list_ex forbidden_in_origin s"
    "urlsplit p q s = Some (scheme, netloc, path)" "url_port netloc = Some port"
    "py_lower scheme = u ''http'' \<or> py_lower scheme = u ''https''" "url_hostname netloc \<noteq> []"
    "64 \<notin> set netloc"
    "t = py_lower scheme @ u ''://'' @ (let host = py_lower (url_hostname netloc)
       in if 58 \<in> set host then [91] @ host @ [93] else host) @ port_suffix port"
  using assms
  by (cases v) (auto simp: normalize_origin_def Let_def split: if_splits option.splits prod.splits)

lemma url_port_bound: "url_port netloc = Some (Some n) \<Longrightarrow> n \<le> 65535"
  by (auto simp: url_port_def Let_def split: if_splits)

section \<open>An origin is a fixed point\<close>

lemma split_scheme_http:
  "sch = u ''http'' \<or> sch = u ''https'' \<Longrightarrow> split_scheme (sch @ 58 # rest) = (sch, rest)"
proof -
  assume sch: "sch = u ''http'' \<or> sch = u ''https''"
  then have "58 \<notin> set sch" "sch \<noteq> []" "is_alpha_ascii (hd sch)" "list_all scheme_char sch" "py_lower sch = sch"
    by (auto simp: u_def is_alpha_ascii_def scheme_char_def is_alnum_ascii_def py_lower_def lower_cp_def)
  then show ?thesis by (simp add: split_scheme_def partition_at_append)
qed

lemma urlsplit_http:
  assumes "sch = u ''http'' \<or> sch = u ''https''"
    and "\<And>c. c \<in> set netloc \<Longrightarrow> \<not> delimiter c" "brackets_ok q netloc" "is_ascii netloc"
  shows "urlsplit p q (sch @ u ''://'' @ netloc) = Some (sch, netloc, [])"
proof -
  have t: "sch @ u ''://'' @ netloc = sch @ 58 # 47 # 47 # netloc" by (simp add: u_def)
  have "dropWhile (\<lambda>c. c \<le> 32) (sch @ 58 # 47 # 47 # netloc) = sch @ 58 # 47 # 47 # netloc"
    using assms(1) by (auto simp: u_def)
  moreover have tw: "takeWhile (\<lambda>c. \<not> delimiter c) netloc = netloc"
    and dw: "dropWhile (\<lambda>c. \<not> delimiter c) netloc = []"
    using assms(2) by (auto simp: takeWhile_eq_all_conv dropWhile_eq_Nil_conv)
  ultimately show ?thesis
    using assms(3,4) unfolding t
    by (simp add: urlsplit_def split_scheme_http [OF assms(1)] Let_def tw dw)
qed

lemma port_suffix_chars:
  "c \<in> set (port_suffix port) \<Longrightarrow> c = 58 \<or> is_digit_ascii c"
  using str_of_nat_digits by (auto simp: port_suffix_def list_all_iff split: option.splits)

lemma port_suffix_bounds: "c \<in> set (port_suffix port) \<Longrightarrow> 48 \<le> c \<and> c \<le> 58"
  using port_suffix_chars [of c port] by (auto simp: is_digit_ascii_def)

lemma hostinfo_plain:
  assumes "58 \<notin> set host" "64 \<notin> set host" "91 \<notin> set host"
  shows "hostinfo (host @ port_suffix port) =
    (host, case port of None \<Rightarrow> [] | Some n \<Rightarrow> str_of_nat n)"
proof -
  have c: "64 \<notin> set (port_suffix port)" "91 \<notin> set (port_suffix port)"
    using port_suffix_bounds [of 64 port] port_suffix_bounds [of 91 port] by auto
  then have "rpartition_at 64 (host @ port_suffix port) = ([], False, host @ port_suffix port)"
    "partition_at 91 (host @ port_suffix port) = (host @ port_suffix port, False, [])"
    using assms by (auto simp: rpartition_at_def intro!: partition_at_absent)
  moreover have "partition_at 58 (host @ port_suffix port) =
      (host, port \<noteq> None, case port of None \<Rightarrow> [] | Some n \<Rightarrow> str_of_nat n)"
    using assms(1) by (auto simp: port_suffix_def partition_at_append partition_at_absent split: option.splits)
  ultimately show ?thesis by (simp add: hostinfo_def)
qed

lemma hostname_lower_idem:
  assumes "is_ascii host" "py_lower host = host"
  shows "py_lower (fst (partition_at 37 host)) @
    (if fst (snd (partition_at 37 host)) then [37] else []) @ snd (snd (partition_at 37 host)) = host"
proof -
  have l: "py_lower x = x" if "host = x @ y" for x y
  proof -
    have "length (py_lower z) = length z" if "is_ascii z" for z
      using that by (induction z) (auto simp: py_lower_def is_ascii_def lower_cp_def)
    then show ?thesis using assms that by (auto simp: is_ascii_def)
  qed
  show ?thesis
  proof (cases "37 \<in> set host")
    case False
    then show ?thesis using assms by (simp add: partition_at_absent)
  next
    case True
    then obtain x y where "host = x @ 37 # y" "37 \<notin> set x" by (meson split_list_first)
    with l show ?thesis by (simp add: partition_at_append)
  qed
qed

lemma normalize_origin_fixpoint:
  assumes sch: "sch = u ''http'' \<or> sch = u ''https''"
    and host: "host \<noteq> []" "is_ascii host" "py_lower host = host"
      "\<And>c. c \<in> set host \<Longrightarrow> c \<notin> {58, 64, 91, 93} \<and> \<not> delimiter c \<and> \<not> forbidden_in_origin c"
    and port: "case port of None \<Rightarrow> True | Some n \<Rightarrow> n \<le> 65535"
  shows "normalize_origin p q (VStr (sch @ u ''://'' @ host @ port_suffix port)) =
    Inr (sch @ u ''://'' @ host @ port_suffix port)"
proof -
  let ?n = "host @ port_suffix port" and ?t = "sch @ u ''://'' @ host @ port_suffix port"
  have n: "c \<notin> {64, 91, 93} \<and> \<not> delimiter c \<and> \<not> forbidden_in_origin c" if "c \<in> set ?n" for c
    using that host(4) port_suffix_chars [of c port]
    by (auto simp: delimiter_def forbidden_in_origin_def is_digit_ascii_def)
  have f: "\<not> list_ex forbidden_in_origin ?t"
    using sch n by (auto simp: list_ex_iff u_def forbidden_in_origin_def)
  have "is_ascii ?n"
    using host(2) by (auto simp: is_ascii_def list_all_iff dest: port_suffix_bounds)
  moreover have "brackets_ok q ?n" using n by (auto simp: brackets_ok_def)
  ultimately have s: "urlsplit p q ?t = Some (sch, ?n, [])"
    using n by (intro urlsplit_http [OF sch]) auto
  have h: "hostinfo ?n = (host, case port of None \<Rightarrow> [] | Some n \<Rightarrow> str_of_nat n)"
    using host(4) by (intro hostinfo_plain) auto
  then have hn: "url_hostname ?n = host"
    using hostname_lower_idem [OF host(2,3)]
    by (cases "partition_at 37 host") (simp add: url_hostname_def)
  have pt: "url_port ?n = Some port"
    using port by (auto simp: url_port_def h all_digits_str_of_nat split: option.splits)
  have "py_lower sch = sch" using sch by (auto simp: u_def py_lower_def lower_cp_def)
  moreover have "64 \<notin> set ?n" "58 \<notin> set host" using n host(4) by auto
  ultimately show ?thesis
    using sch f s hn pt host(1,3) by (auto simp: normalize_origin_def)
qed

section \<open>Properties\<close>

lemma hostinfo_no_bracket:
  assumes "64 \<notin> set netloc" "91 \<in> set netloc \<longleftrightarrow> 93 \<in> set netloc"
  shows "93 \<notin> set (fst (hostinfo netloc))"
proof -
  have info: "rpartition_at 64 netloc = ([], False, netloc)" using assms(1) by (simp add: rpartition_at_def)
  obtain pre found post where p: "partition_at 91 netloc = (pre, found, post)" by (metis prod.exhaust)
  obtain host closed rest where q: "partition_at 93 post = (host, closed, rest)" by (metis prod.exhaust)
  show ?thesis
  proof (cases found)
    case True
    then show ?thesis using set_partition_at [OF q] by (simp add: hostinfo_def info p q)
  next
    case False
    then have "93 \<notin> set netloc" using set_partition_at [OF p] assms(2) by simp
    then show ?thesis using set_hostinfo [of netloc "fst (hostinfo netloc)" "snd (hostinfo netloc)"] by auto
  qed
qed

text \<open>
  C21: an accepted origin is \<open>http://\<close> or \<open>https://\<close>, a host, and at most a port up to 65535. The host
  is not empty and holds no \<open>@\<close>, \<open>/\<close>, \<open>?\<close>, \<open>#\<close>, space, tab or line end; colons occur in it only between
  one pair of square brackets around the whole of it.
\<close>

theorem origin_shape:
  assumes "normalize_origin nfkc_ok bracket_ok v = Inr t"
  shows "\<exists>scheme host suffix. t = scheme @ u ''://'' @ host @ suffix \<and>
    scheme \<in> {u ''http'', u ''https''} \<and> host \<noteq> [] \<and>
    set host \<inter> {64, 47, 63, 35, 32, 9, 10, 13} = {} \<and>
    (58 \<notin> set host \<or> (\<exists>inner. host = [91] @ inner @ [93] \<and> 58 \<in> set inner \<and> 93 \<notin> set inner)) \<and>
    (suffix = [] \<or> (\<exists>n \<le> 65535. suffix = 58 # str_of_nat n))"
proof -
  from assms obtain s scheme netloc path port where
    s: "\<not> list_ex forbidden_in_origin s" "urlsplit nfkc_ok bracket_ok s = Some (scheme, netloc, path)"
      "url_port netloc = Some port" "url_hostname netloc \<noteq> []" "64 \<notin> set netloc"
    and sch: "py_lower scheme = u ''http'' \<or> py_lower scheme = u ''https''"
    and t: "t = py_lower scheme @ u ''://'' @ (let host = py_lower (url_hostname netloc)
       in if 58 \<in> set host then [91] @ host @ [93] else host) @ port_suffix port"
    by (rule normalize_origin_Inr)
  let ?h = "py_lower (url_hostname netloc)"
  let ?host = "if 58 \<in> set ?h then [91] @ ?h @ [93] else ?h"
  note n = urlsplit_netloc [OF s(2)]
  have "c \<notin> {64, 47, 63, 35, 32, 9, 10, 13}" if "c \<in> set ?h" for c
  proof (cases "c < 97")
    case True
    with that have "c \<in> set netloc" using host_small by blast
    then have "c \<noteq> 64" "\<not> delimiter c" "\<not> forbidden_in_origin c"
      using n(1,2) s(1,5) by (auto simp: list_all_iff list_ex_iff)
    then show ?thesis by (simp add: delimiter_def forbidden_in_origin_def)
  qed auto
  then have "set ?h \<inter> {64, 47, 63, 35, 32, 9, 10, 13} = {}" by blast
  then have "set ?host \<inter> {64, 47, 63, 35, 32, 9, 10, 13} = {}" by simp
  moreover have "93 \<notin> set ?h"
    using host_small [of 93 netloc] hostinfo_no_bracket [OF s(5) n(3)] by auto
  then have "58 \<notin> set ?host \<or> (\<exists>inner. ?host = [91] @ inner @ [93] \<and> 58 \<in> set inner \<and> 93 \<notin> set inner)"
    by simp
  moreover have "port_suffix port = [] \<or> (\<exists>n \<le> 65535. port_suffix port = 58 # str_of_nat n)"
    using s(3) url_port_bound by (cases port) (auto simp: port_suffix_def)
  moreover have "?host \<noteq> []" using s(4) by simp
  moreover have "t = py_lower scheme @ u ''://'' @ ?host @ port_suffix port"
    using t by (simp only: Let_def)
  moreover have "py_lower scheme \<in> {u ''http'', u ''https''}" using sch by simp
  ultimately show ?thesis by blast
qed

lemma origin_example:
  "normalize_origin (\<lambda>_. False) (\<lambda>_. False) (VStr (u ''HTTPS://T.Cekat.ai/'')) = Inr (u ''https://t.cekat.ai'')"
  by (simp add: normalize_origin_def forbidden_in_origin_def urlsplit_def split_scheme_def delimiter_def
      scheme_char_def brackets_ok_def hostinfo_def url_hostname_def url_port_def port_suffix_def
      partition_at_def rpartition_at_def py_lower_def lower_cp_def is_alpha_ascii_def
      is_alnum_ascii_def is_digit_ascii_def is_ascii_def u_def Let_def)

theorem origin_shape_witness:
  "\<exists>t scheme host suffix. normalize_origin (\<lambda>_. False) (\<lambda>_. False) (VStr (u ''HTTPS://T.Cekat.ai/'')) = Inr t \<and>
     t = scheme @ u ''://'' @ host @ suffix \<and> host \<noteq> [] \<and> (suffix = [] \<or> (\<exists>n \<le> 65535. suffix = 58 # str_of_nat n))"
proof -
  from origin_shape [OF origin_example] obtain scheme host suffix where
    "u ''https://t.cekat.ai'' = scheme @ u ''://'' @ host @ suffix" "host \<noteq> []"
    "suffix = [] \<or> (\<exists>n \<le> 65535. suffix = 58 # str_of_nat n)"
    by (elim exE conjE) (rule that)
  with origin_example show ?thesis by (intro exI conjI)
qed

text \<open>
  Normalizing is done once: the origin of an ASCII URL without a bracketed host is its own
  origin.
\<close>

theorem origin_idempotent:
  assumes "is_ascii s" "91 \<notin> set s" "normalize_origin nfkc_ok bracket_ok (VStr s) = Inr t"
  shows "normalize_origin nfkc_ok bracket_ok (VStr t) = Inr t"
proof -
  from assms(3) obtain scheme netloc path port where
    s: "\<not> list_ex forbidden_in_origin s" "urlsplit nfkc_ok bracket_ok s = Some (scheme, netloc, path)"
      "url_port netloc = Some port" "url_hostname netloc \<noteq> []" "64 \<notin> set netloc"
    and sch: "py_lower scheme = u ''http'' \<or> py_lower scheme = u ''https''"
    and t: "t = py_lower scheme @ u ''://'' @ (let host = py_lower (url_hostname netloc)
       in if 58 \<in> set host then [91] @ host @ [93] else host) @ port_suffix port"
    by (rule normalize_origin_Inr) auto
  let ?h = "py_lower (url_hostname netloc)"
  note n = urlsplit_netloc [OF s(2)]
  have "91 \<notin> set netloc" "93 \<notin> set netloc" using n(1,3) assms(2) by auto
  then have c58: "58 \<notin> set (fst (hostinfo netloc))" by (intro hostinfo_no_colon)
  have small: "c \<in> set netloc \<and> c \<noteq> 58" if "c \<in> set ?h" "c < 97" for c
    using host_small [OF that] c58 by auto
  have h: "c \<notin> {58, 64, 91, 93} \<and> \<not> delimiter c \<and> \<not> forbidden_in_origin c" if "c \<in> set ?h" for c
  proof (cases "c < 97")
    case True
    with small [OF that] show ?thesis
      using n(1,2) s(1,5) \<open>91 \<notin> set netloc\<close> \<open>93 \<notin> set netloc\<close> by (auto simp: list_all_iff list_ex_iff)
  next
    case False
    then show ?thesis by (auto simp: delimiter_def forbidden_in_origin_def)
  qed
  have "set (fst (hostinfo netloc)) \<subseteq> set s"
    using n(1) set_hostinfo [of netloc "fst (hostinfo netloc)" "snd (hostinfo netloc)"] by auto
  then have a: "is_ascii (url_hostname netloc)"
  proof -
    assume sub: "set (fst (hostinfo netloc)) \<subseteq> set s"
    obtain x f y where p: "partition_at 37 (fst (hostinfo netloc)) = (x, f, y)" by (metis prod.exhaust)
    then have "is_ascii x" "is_ascii y"
      using set_partition_at [OF p] sub assms(1) by (auto simp: is_ascii_def list_all_iff)
    then have "is_ascii (py_lower x)" "is_ascii y" by (simp_all add: py_lower_is_ascii)
    then show ?thesis using p by (auto simp: url_hostname_def is_ascii_def)
  qed
  have "58 \<notin> set ?h" using h by blast
  then have t': "t = py_lower scheme @ u ''://'' @ ?h @ port_suffix port" using t by simp
  show ?thesis unfolding t'
  proof (rule normalize_origin_fixpoint [OF sch])
    show "is_ascii ?h" using a by (rule py_lower_is_ascii)
    show "py_lower ?h = ?h" using a by (rule py_lower_ascii_idem)
    show "case port of None \<Rightarrow> True | Some n \<Rightarrow> n \<le> 65535"
      using s(3) by (auto split: option.splits dest: url_port_bound)
  qed (use s(4) h in auto)
qed

theorem origin_idempotent_witness:
  "normalize_origin (\<lambda>_. False) (\<lambda>_. False) (VStr (u ''https://t.cekat.ai'')) = Inr (u ''https://t.cekat.ai'')"
  by (rule origin_idempotent [OF _ _ origin_example]) (simp_all add: is_ascii_def u_def)

lemma f_of_int_positive:
  assumes "f_of_int i = Some x" "0 < i"
  shows "f_is_finite x \<and> 0 < fval x"
proof -
  from assms obtain s m e where r: "round_ratio False (nat i) 1 = PFin s m e" "x = PFin s m e"
    by (auto simp: f_of_int_def split: pyfloat.splits)
  have s: "s = False" using round_ratio_sign(1) [OF r(1)] .
  have "m \<noteq> 0"
  proof
    assume m: "m = 0"
    with round_ratio_canonical [of 1 False "nat i"] r have e: "e = - 1074" by auto
    have "\<bar>mag m e - real (nat i) / real 1\<bar> \<le> 2 powi e / 2"
      by (rule round_ratio_near [OF _ r(1)]) simp
    moreover have "(2::real) powi (- 1074) \<le> 1" using powi_2_mono [of "- 1074" 0] by simp
    ultimately show False using m e assms(2) by (simp add: mag_def)
  qed
  then show ?thesis using s r(2) by (simp add: mag_pos f_is_finite_def)
qed

text \<open>
  An accepted timeout is a finite positive float, an accepted retry count is the caller's
  integer, which is not negative, and an accepted token is the caller's string and is not blank;
  booleans are none of these.
\<close>

theorem settings_valid:
  "(case validate_timeout v of Inl e \<Rightarrow> e = timeout_error \<or> e = overflow_error
      | Inr x \<Rightarrow> f_is_finite x \<and> 0 < fval x \<and> (v = VFloat x \<or> (\<exists>i. v = VInt i \<and> f_of_int i = Some x))) \<and>
   (case validate_retry_count v of Inl e \<Rightarrow> e = invalid_arg ''retry_count must be a non-negative integer''
      | Inr n \<Rightarrow> v = VInt (int n)) \<and>
   (case validate_access_token v of Inl e \<Rightarrow> e = invalid_arg ''access token must be a non-empty string''
      | Inr s \<Rightarrow> v = VStr s \<and> blank s = False)"
proof (cases v)
  case (VInt i)
  then show ?thesis
    using f_of_int_positive [of i]
    by (auto simp: validate_timeout_def validate_retry_count_def validate_access_token_def
        split: option.splits)
next
  case (VFloat x)
  then show ?thesis
    by (auto simp: validate_timeout_def validate_retry_count_def validate_access_token_def
        f_le_finite not_le)
qed (auto simp: validate_timeout_def validate_retry_count_def validate_access_token_def blank_def)

lemma round_ratio_overflow:
  assumes "0 < den" "2 ^ 1024 * den \<le> num"
  shows "round_ratio s num den = PInf s"
proof -
  have num: "0 < num" using assms by (metis less_le_trans nat_0_less_mult_iff zero_less_numeral zero_less_power)
  let ?b = "binade num den"
  have "(2::real) powi 1024 * real den \<le> real num"
    using assms(2) by (metis of_nat_le_iff of_nat_mult of_nat_numeral of_nat_power power_int_numeral)
  then have "(2::real) powi 1024 \<le> real num / real den" using assms(1) by (simp add: le_divide_eq)
  also have "real num / real den < 2 ^ 53 * 2 powi ?b" by (rule binade_bounds(2) [OF num assms(1)])
  also have "\<dots> = 2 powi (53 + ?b)" by (simp add: power_int_add)
  finally have lt: "(2::real) powi 1024 < 2 powi (53 + ?b)" .
  have "971 < ?b"
  proof (rule ccontr)
    assume "\<not> 971 < ?b"
    then have "(2::real) powi (53 + ?b) \<le> 2 powi 1024" by (intro powi_2_mono) simp
    with lt show False by simp
  qed
  then have "max (- 1074) ?b = ?b" "971 < ?b" by simp_all
  with num show ?thesis by (simp add: round_ratio_def Let_def split: prod.splits)
qed

text \<open>
  An integer timeout of at least \<open>2 ^ 1024\<close> is not rejected with a \<open>ValidationError\<close>: the
  conversion in \<open>math.isfinite\<close> raises \<open>OverflowError\<close>, which reaches the caller.
\<close>

theorem huge_timeout_overflows: "validate_timeout (VInt (2 ^ 1024 + int n)) = Inl overflow_error"
proof -
  have "nat (2 ^ 1024 + int n) = 2 ^ 1024 + n" by (simp add: nat_add_distrib nat_power_eq)
  then have "round_ratio False (nat (2 ^ 1024 + int n)) 1 = PInf False"
    by (intro round_ratio_overflow) simp_all
  moreover have "\<not> (2 ^ 1024 + int n < 0)" by (simp add: not_less)
  ultimately have "f_of_int (2 ^ 1024 + int n) = None" by (simp add: f_of_int_def del: of_nat_add)
  then show ?thesis by (simp add: validate_timeout_def)
qed

end
