(* ===== verification/Shared.thy ===== *)
theory Shared
  imports Protocol Validation FloatText
begin

text \<open>
  \<open>_shared.py\<close> and what both clients do to the outside: the settings, the request, the observable
  actions of a call (\<open>action\<close>), and the surroundings they run in (\<open>surroundings\<close>: the HTTP library,
  the clocks, the random generator). Everything the surroundings answer may depend on the whole
  history of actions so far. The retry loop of a client is the locale \<open>retrying\<close>: its lemmas hold
  for any attempt operation that behaves like the clients' one.
\<close>

section \<open>Settings\<close>

definition SDK_VERSION :: ustr where
  "SDK_VERSION = u ''0.4.0''"

definition INGEST_PATH :: ustr where
  "INGEST_PATH = u ''/api/events/ingest''"

definition DEFAULT_BASE_URL :: pyval where
  "DEFAULT_BASE_URL = VStr (u ''https://t.cekat.ai'')"

definition DEFAULT_TIMEOUT :: pyval where
  "DEFAULT_TIMEOUT = VFloat (round_ratio False 3 1)"

definition DEFAULT_RETRY_COUNT :: pyval where
  "DEFAULT_RETRY_COUNT = VInt 2"

definition USER_AGENT :: "ustr \<Rightarrow> ustr" where
  "USER_AGENT python_version = u ''cekat-event-sdk-python/'' @ SDK_VERSION @ u '' python/'' @ python_version"

record settings =
  settings_url :: ustr
  settings_headers :: "(ustr \<times> ustr) list"
  settings_timeout :: pyfloat
  settings_retry_count :: nat

text \<open>The library checks of \<open>normalize_origin\<close> and the version of the interpreter.\<close>

record platform =
  pf_nfkc_ok :: "ustr \<Rightarrow> bool"
  pf_bracket_ok :: "ustr \<Rightarrow> bool"
  pf_python_version :: ustr

definition create_settings :: "platform \<Rightarrow> pyval \<Rightarrow> pyval \<Rightarrow> pyval \<Rightarrow> pyval \<Rightarrow> error + settings" where
  "create_settings pf access_token base_url timeout retry_count =
     bindE (validate_access_token access_token) (\<lambda>token.
     bindE (normalize_origin (pf_nfkc_ok pf) (pf_bracket_ok pf) base_url) (\<lambda>origin.
     bindE (validate_timeout timeout) (\<lambda>seconds.
     bindE (validate_retry_count retry_count) (\<lambda>count.
       Inr \<lparr>settings_url = origin @ INGEST_PATH,
            settings_headers =
              [(u ''Authorization'', u ''Bearer '' @ token),
               (u ''Content-Type'', u ''application/json''),
               (u ''Accept'', u ''application/json''),
               (u ''User-Agent'', USER_AGENT (pf_python_version pf))],
            settings_timeout = seconds,
            settings_retry_count = count\<rparr>))))"

section \<open>Requests, responses and actions\<close>

record http_request =
  req_method :: ustr
  req_url :: ustr
  req_content :: bytes
  req_headers :: "(ustr \<times> ustr) list"
  req_timeout :: pyfloat

text \<open>
  A response whose headers arrived: its body comes in chunks, each with the reading of the monotonic
  clock once it is there, and then ends or fails. Closing it may raise, too.
\<close>

record http_response =
  resp_status :: int
  resp_reason :: ustr
  resp_headers :: "(ustr \<times> ustr) list"
  resp_chunks :: "(bytes \<times> pyfloat) list"
  resp_failure :: "foreign option"
  resp_close :: "foreign option"

datatype action =
    Sent http_request
  | Opened
  | Closed
  | Slept pyfloat
  | HttpClosed

text \<open>When the cancel scope of an asynchronous attempt fires, if it does.\<close>

datatype scope_fires = Never | BeforeHeaders | AfterChunks nat

record surroundings =
  build_fails :: "http_request \<Rightarrow> foreign option"
  sends :: "action list \<Rightarrow> foreign + http_response"
  pauses :: "action list \<Rightarrow> foreign option"
  clock :: "action list \<Rightarrow> pyfloat"
  random_uniform :: "action list \<Rightarrow> pyfloat \<Rightarrow> pyfloat \<Rightarrow> pyfloat"
  wall_clock :: "action list \<Rightarrow> nat"
  deadline_scope :: "action list \<Rightarrow> scope_fires"

definition build_request :: "settings \<Rightarrow> bytes \<Rightarrow> http_request" where
  "build_request st content =
     \<lparr>req_method = u ''POST'', req_url = settings_url st, req_content = content,
      req_headers = settings_headers st, req_timeout = settings_timeout st\<rparr>"

definition received :: "http_response \<Rightarrow> bounded_buffer \<Rightarrow> foreign option \<Rightarrow> received_response" where
  "received response buffer failure =
     buffer_response (resp_status response) (resp_reason response) (resp_headers response) failure buffer"

definition body_timeout :: "pyfloat \<Rightarrow> foreign" where
  "body_timeout timeout =
     TransportExn (u ''ReadTimeout'')
       (u ''response body was not received within '' @ general_format timeout @ u '' seconds'')"

definition transport_error :: "foreign \<Rightarrow> nat \<Rightarrow> error" where
  "transport_error cause attempts =
     TransportError
       (u ''no response from Cekat after '' @ str_of_nat attempts @ u '' '' @
        (if attempts = 1 then u ''attempt'' else u ''attempts'') @ u '' ('' @ exn_class_name cause @
        u ''); the event may have been received'')
       attempts (Some cause)"

text \<open>\<open>delay or 0.0\<close>: no delay, and a delay of either zero, count as zero.\<close>

definition delay_or_zero :: "pyfloat option \<Rightarrow> pyfloat" where
  "delay_or_zero delay =
     (case delay of
        None \<Rightarrow> f_zero
      | Some x \<Rightarrow> (case x of PFin s m e \<Rightarrow> if m = 0 then f_zero else x | _ \<Rightarrow> x))"

lemma delay_or_zero_value: "fval (delay_or_zero (Some x)) = fval x"
  by (auto simp: delay_or_zero_def mag_def split: pyfloat.splits)

lemma delay_or_zero_finite: "f_is_finite x \<Longrightarrow> f_is_finite (delay_or_zero (Some x))"
  by (auto simp: delay_or_zero_def split: pyfloat.splits)

section \<open>The shape of a call\<close>

text \<open>
  What one attempt leaves in the history: nothing if the request cannot be built, else the request, or
  the request with a response that was opened and closed. A call is attempts with a wait between
  each and the next; it may end in a wait that was interrupted.
\<close>

definition attempt_log :: "bool \<Rightarrow> http_request \<Rightarrow> action list \<Rightarrow> bool" where
  "attempt_log built q ws \<longleftrightarrow>
     (if built then ws = [Sent q] \<or> ws = [Sent q, Opened, Closed] else ws = [])"

definition good_wait :: "pyfloat \<Rightarrow> bool" where
  "good_wait d \<longleftrightarrow> f_is_finite d \<and> 0 \<le> fval d \<and> fval d \<le> 5"

inductive call_log :: "bool \<Rightarrow> http_request \<Rightarrow> nat \<Rightarrow> action list \<Rightarrow> bool" for built q where
  last_attempt: "attempt_log built q ws \<Longrightarrow> call_log built q (Suc 0) ws"
| interrupted_wait: "attempt_log built q ws \<Longrightarrow> good_wait d \<Longrightarrow> call_log built q (Suc 0) (ws @ [Slept d])"
| another_attempt: "attempt_log built q ws \<Longrightarrow> good_wait d \<Longrightarrow> call_log built q k vs \<Longrightarrow>
    call_log built q (Suc k) (ws @ Slept d # vs)"

definition is_sent :: "action \<Rightarrow> bool" where
  "is_sent a \<longleftrightarrow> (case a of Sent _ \<Rightarrow> True | _ \<Rightarrow> False)"

definition waits :: "action list \<Rightarrow> pyfloat list" where
  "waits ws = concat (map (\<lambda>a. case a of Slept d \<Rightarrow> [d] | _ \<Rightarrow> []) ws)"

text \<open>Every response that was opened is closed before anything else happens.\<close>

fun closes_all :: "action list \<Rightarrow> bool" where
  "closes_all [] = True"
| "closes_all (Opened # ws) = (case ws of Closed # vs \<Rightarrow> closes_all vs | _ \<Rightarrow> False)"
| "closes_all (_ # ws) = closes_all ws"

lemma waits_simps [simp]:
  "waits [] = []" "waits (Slept d # ws) = d # waits ws" "waits (Sent q # ws) = waits ws"
  "waits (Opened # ws) = waits ws" "waits (Closed # ws) = waits ws"
  "waits (ws @ vs) = waits ws @ waits vs"
  by (simp_all add: waits_def)

lemma is_sent_simps [simp]:
  "is_sent (Sent q)" "\<not> is_sent Opened" "\<not> is_sent Closed" "\<not> is_sent (Slept d)" "\<not> is_sent HttpClosed"
  by (simp_all add: is_sent_def)

lemma attempt_log_props:
  assumes "attempt_log built q ws"
  shows "length (filter is_sent ws) = (if built then 1 else 0)" "waits ws = []" "closes_all vs \<Longrightarrow> closes_all (ws @ vs)"
    "\<forall>a\<in>set ws. is_sent a \<longrightarrow> a = Sent q"
  using assms by (auto simp: attempt_log_def split: if_splits)

lemma call_log_props:
  assumes "call_log built q k ws"
  shows "length (filter is_sent ws) = (if built then k else 0) \<and> list_all good_wait (waits ws) \<and>
    closes_all ws \<and> (\<forall>a\<in>set ws. is_sent a \<longrightarrow> a = Sent q)"
  using assms
proof induction
  case (last_attempt ws)
  note a = attempt_log_props [OF last_attempt]
  show ?case using a(1,2) a(3) [of "[]"] a(4) by auto
next
  case (interrupted_wait ws d)
  note a = attempt_log_props [OF interrupted_wait(1)]
  show ?case using a(1,2) a(3) [of "[Slept d]"] a(4) interrupted_wait(2) by auto
next
  case (another_attempt ws d k vs)
  note a = attempt_log_props [OF another_attempt(1)]
  show ?case
    using a(1,2) a(3) [of "Slept d # vs"] a(4) another_attempt(2,4) by auto
qed

text \<open>The number of attempts an outcome reports: none for an exception of another library.\<close>

definition reports :: "error + acknowledgement \<Rightarrow> nat \<Rightarrow> bool" where
  "reports r k \<longleftrightarrow>
     (case r of Inr _ \<Rightarrow> True | Inl e \<Rightarrow> (case e of Foreign _ \<Rightarrow> True | _ \<Rightarrow> attempts_of e = k))"

lemma reports_simps [simp]:
  "reports (Inl (Foreign e)) k" "reports (Inl (transport_error e k)) k" "reports (Inr a) k"
  by (simp_all add: reports_def transport_error_def)

lemma decode_reports: "reports (decode_response limit r k) k"
  using decode_outcome [where limit = limit and r = r and n = k]
  by (auto simp: reports_def recursion_error_def split: sum.splits if_splits)

text \<open>A policy: delays are within five seconds and exist when the server asked for nothing.\<close>

definition policy_ok :: "(nat \<Rightarrow> ustr option \<Rightarrow> action list \<Rightarrow> pyfloat option) \<Rightarrow> bool" where
  "policy_ok delay \<longleftrightarrow>
     (\<forall>n v h d. delay n v h = Some d \<longrightarrow> good_wait d) \<and> (\<forall>n h. delay n None h \<noteq> None)"

text \<open>
  How a call can end: \<open>k\<close> is the number of its last attempt, which started in \<open>h1\<close>. A response is
  decoded if it is not to be retried, if no retry is left, or if the server asked for a longer wait
  than the policy allows; a missing response is reported if no retry is left; any other exception,
  also one that interrupts a wait, passes unchanged.
\<close>

definition call_ends ::
  "(action list \<Rightarrow> (foreign + received_response) \<times> action list) \<Rightarrow> (action list \<Rightarrow> foreign option)
    \<Rightarrow> (nat \<Rightarrow> ustr option \<Rightarrow> action list \<Rightarrow> pyfloat option)
    \<Rightarrow> (received_response \<Rightarrow> nat \<Rightarrow> error + acknowledgement) \<Rightarrow> nat \<Rightarrow> nat \<Rightarrow> action list
    \<Rightarrow> error + acknowledgement \<Rightarrow> action list \<Rightarrow> bool" where
  "call_ends attempt pause delay finish retries k h1 r h' \<longleftrightarrow>
     (case attempt h1 of
        (Inr resp, h2) \<Rightarrow>
          h' = h2 \<and> r = finish resp k \<and>
            (\<not> is_retryable_status (status_code resp) \<or> k = retries + 1 \<or>
             delay k (header resp (u ''Retry-After'')) h2 = None) \<or>
          (\<exists>d e. is_retryable_status (status_code resp) \<and> k \<le> retries \<and>
             delay k (header resp (u ''Retry-After'')) h2 = Some d \<and> h' = h2 @ [Slept d] \<and>
             pause h' = Some e \<and> r = Inl (Foreign e))
      | (Inl e, h2) \<Rightarrow>
          is_transport_error e \<and> k = retries + 1 \<and> h' = h2 \<and> r = Inl (transport_error e k) \<or>
          \<not> is_transport_error e \<and> h' = h2 \<and> r = Inl (Foreign e) \<or>
          (\<exists>e'. is_transport_error e \<and> k \<le> retries \<and> h' = h2 @ [Slept (delay_or_zero (delay k None h2))] \<and>
             pause h' = Some e' \<and> r = Inl (Foreign e')))"

text \<open>
  A call within its bounds: it sends one request, unchanged, at most once more than the retries, waits
  at most once before each retry and five seconds at most, and closes every response it opened.
\<close>

definition bounded_call :: "http_request \<Rightarrow> nat \<Rightarrow> action list \<Rightarrow> bool" where
  "bounded_call q retries ws \<longleftrightarrow>
     length (filter is_sent ws) \<le> retries + 1 \<and> (\<forall>a\<in>set ws. is_sent a \<longrightarrow> a = Sent q) \<and>
     length (waits ws) \<le> retries \<and> list_all good_wait (waits ws) \<and> closes_all ws"

section \<open>The retry loop\<close>

text \<open>
  A client's loop: \<open>attempt\<close> sends the request once, \<open>pause\<close> waits, \<open>delay\<close> is the retry policy and
  \<open>finish\<close> decodes a response. The laws are what an attempt may leave in the history, the bound on
  a delay, and the equation of the loop.
\<close>

locale retrying =
  fixes built :: bool
    and request :: http_request
    and attempt :: "action list \<Rightarrow> (foreign + received_response) \<times> action list"
    and pause :: "action list \<Rightarrow> foreign option"
    and delay :: "nat \<Rightarrow> ustr option \<Rightarrow> action list \<Rightarrow> pyfloat option"
    and finish :: "received_response \<Rightarrow> nat \<Rightarrow> error + acknowledgement"
    and retries :: nat
    and run :: "nat \<Rightarrow> action list \<Rightarrow> (error + acknowledgement) \<times> action list"
  assumes attempt_adds: "\<exists>ws. attempt_log built request ws \<and> snd (attempt h) = h @ ws"
    and run_equation: "run n h =
      (case attempt h of
         (Inl e, h1) \<Rightarrow>
           if \<not> is_transport_error e then (Inl (Foreign e), h1)
           else if retries < n + 1 then (Inl (transport_error e (n + 1)), h1)
           else (let h2 = h1 @ [Slept (delay_or_zero (delay (n + 1) None h1))]
                 in case pause h2 of Some e' \<Rightarrow> (Inl (Foreign e'), h2) | None \<Rightarrow> run (n + 1) h2)
       | (Inr r, h1) \<Rightarrow>
           if is_retryable_status (status_code r) \<and> n + 1 \<le> retries
           then (case delay (n + 1) (header r (u ''Retry-After'')) h1 of
                   None \<Rightarrow> (finish r (n + 1), h1)
                 | Some d \<Rightarrow>
                     (let h2 = h1 @ [Slept d]
                      in case pause h2 of Some e' \<Rightarrow> (Inl (Foreign e'), h2) | None \<Rightarrow> run (n + 1) h2))
           else (finish r (n + 1), h1))"
begin

text \<open>The step the loop takes after attempt \<open>n + 1\<close>: stop with a result, or wait and go on.\<close>

definition step :: "nat \<Rightarrow> action list \<Rightarrow> ((error + acknowledgement) \<times> action list) + action list" where
  "step n h =
     (case attempt h of
        (Inl e, h1) \<Rightarrow>
          if \<not> is_transport_error e then Inl (Inl (Foreign e), h1)
          else if retries < n + 1 then Inl (Inl (transport_error e (n + 1)), h1)
          else Inr (h1 @ [Slept (delay_or_zero (delay (n + 1) None h1))])
      | (Inr r, h1) \<Rightarrow>
          if is_retryable_status (status_code r) \<and> n + 1 \<le> retries
          then (case delay (n + 1) (header r (u ''Retry-After'')) h1 of
                  None \<Rightarrow> Inl (finish r (n + 1), h1)
                | Some d \<Rightarrow> Inr (h1 @ [Slept d]))
          else Inl (finish r (n + 1), h1))"

lemma run_step:
  "run n h =
     (case step n h of
        Inl stop \<Rightarrow> stop
      | Inr h2 \<Rightarrow> (case pause h2 of Some e \<Rightarrow> (Inl (Foreign e), h2) | None \<Rightarrow> run (n + 1) h2))"
  unfolding run_equation [of n h] step_def
  by (cases "attempt h") (auto simp: Let_def split: sum.splits option.splits)

lemma step_continues: "step n h = Inr h2 \<Longrightarrow> n + 1 \<le> retries"
  by (auto simp: step_def split: prod.splits sum.splits option.splits if_splits)

lemma step_log:
  "step n h = Inl (r, h1) \<Longrightarrow> \<exists>ws. attempt_log built request ws \<and> h1 = h @ ws"
  "step n h = Inr h2 \<Longrightarrow> \<exists>ws d. attempt_log built request ws \<and> h2 = h @ ws @ [Slept d] \<and>
     (d = delay_or_zero (delay (n + 1) None (h @ ws)) \<or> (\<exists>v. delay (n + 1) v (h @ ws) = Some d))"
  using attempt_adds [of h]
  by (cases "attempt h"; fastforce simp: step_def split: sum.splits option.splits if_splits)+

text \<open>
  Induction along a call: its last step stops it or is interrupted, every other step waits and goes on.
\<close>

lemma run_induct [consumes 1, case_names stop interrupted continue]:
  assumes "run n h = (r, h')"
    and stop: "\<And>n h. step n h = Inl (r, h') \<Longrightarrow> P n h"
    and interrupted: "\<And>n h e. step n h = Inr h' \<Longrightarrow> pause h' = Some e \<Longrightarrow> r = Inl (Foreign e) \<Longrightarrow>
      n + 1 \<le> retries \<Longrightarrow> P n h"
    and continue: "\<And>n h h2. step n h = Inr h2 \<Longrightarrow> pause h2 = None \<Longrightarrow> n + 1 \<le> retries \<Longrightarrow>
      run (n + 1) h2 = (r, h') \<Longrightarrow> P (n + 1) h2 \<Longrightarrow> P n h"
  shows "P n h"
  using assms(1)
proof (induction "retries - n" arbitrary: n h rule: less_induct)
  case less
  show ?case
  proof (cases "step n h")
    case (Inl outcome)
    with less.prems show ?thesis by (intro stop) (simp add: run_step [of n h])
  next
    case (Inr h2)
    note n = step_continues [OF Inr]
    show ?thesis
    proof (cases "pause h2")
      case (Some e)
      with Inr less.prems n show ?thesis
        by (intro interrupted [of n h e]) (auto simp: run_step [of n h])
    next
      case None
      with Inr less.prems have rest: "run (n + 1) h2 = (r, h')" by (simp add: run_step [of n h])
      have "retries - (n + 1) < retries - n" using n by simp
      from continue [OF Inr None n rest less.hyps [OF this rest]] show ?thesis .
    qed
  qed
qed

lemma run_extends: "run n h = (r, h') \<Longrightarrow> \<exists>ws. h' = h @ ws"
proof (induction rule: run_induct)
  case (continue n h h2)
  then show ?case using step_log(2) [OF continue(1)] by auto
qed (use step_log in blast)+

text \<open>Two loops over the same attempts are equal: the equation determines \<open>run\<close>.\<close>

lemma run_unique:
  assumes "\<And>m g. other m g =
     (case step m g of
        Inl stop \<Rightarrow> stop
      | Inr h2 \<Rightarrow> (case pause h2 of Some e \<Rightarrow> (Inl (Foreign e), h2) | None \<Rightarrow> other (m + 1) h2))"
  shows "other n h = run n h"
proof (induction "retries - n" arbitrary: n h rule: less_induct)
  case less
  show ?case
  proof (cases "step n h")
    case (Inr h2)
    then have "other (n + 1) h2 = run (n + 1) h2"
      using step_continues [OF Inr] by (intro less) simp
    with Inr show ?thesis by (simp add: run_step [of n h] assms [of n h] split: option.split)
  qed (simp add: run_step [of n h] assms [of n h])
qed

lemma policy_wait:
  assumes "policy_ok delay" "d = delay_or_zero (delay n None h) \<or> (\<exists>v. delay n v h = Some d)"
  shows "good_wait d"
proof -
  obtain x where x: "delay n None h = Some x" "good_wait x"
    using assms(1) unfolding policy_ok_def by (metis option.exhaust)
  have "good_wait (delay_or_zero (Some x))"
    using x(2) by (simp add: good_wait_def delay_or_zero_value delay_or_zero_finite)
  with assms x(1) show ?thesis unfolding policy_ok_def by auto
qed

lemma run_log:
  assumes "policy_ok delay" "\<And>r k. reports (finish r k) k" "run n h = (r, h')" "n \<le> retries"
  shows "\<exists>ws k. h' = h @ ws \<and> call_log built request k ws \<and> k + n \<le> retries + 1 \<and> reports r (k + n) \<and>
    length (waits ws) + n \<le> retries"
  using assms(3,4)
proof (induction rule: run_induct)
  case (stop n h)
  from step_log(1) [OF stop(1)] obtain ws where ws: "attempt_log built request ws" "h' = h @ ws" by blast
  have "reports r (1 + n)"
    using stop(1) assms(2) by (auto simp: step_def split: prod.splits sum.splits if_splits option.splits)
  with ws stop(2) show ?case
    by (intro exI [of _ ws] exI [of _ 1]) (auto intro: call_log.intros simp: attempt_log_props(2))
next
  case (interrupted n h e)
  from step_log(2) [OF interrupted(1)] obtain ws d where
    ws: "attempt_log built request ws" "h' = h @ ws @ [Slept d]"
    and d: "d = delay_or_zero (delay (n + 1) None (h @ ws)) \<or> (\<exists>v. delay (n + 1) v (h @ ws) = Some d)" by blast
  with interrupted(3,4) policy_wait [OF assms(1) d] show ?case
    by (intro exI [of _ "ws @ [Slept d]"] exI [of _ 1]) (auto simp: attempt_log_props(2) intro: call_log.intros)
next
  case (continue n h h2)
  from step_log(2) [OF continue(1)] obtain ws d where
    ws: "attempt_log built request ws" "h2 = h @ ws @ [Slept d]"
    and d: "d = delay_or_zero (delay (n + 1) None (h @ ws)) \<or> (\<exists>v. delay (n + 1) v (h @ ws) = Some d)" by blast
  from continue(5) [OF continue(3)] obtain vs k where
    "h' = h2 @ vs" "call_log built request k vs" "k + (n + 1) \<le> retries + 1" "reports r (k + (n + 1))"
    "length (waits vs) + (n + 1) \<le> retries" by blast
  with ws policy_wait [OF assms(1) d] show ?case
    by (intro exI [of _ "ws @ Slept d # vs"] exI [of _ "Suc k"]) (auto simp: attempt_log_props(2) intro: call_log.intros)
qed

lemma step_stops: "n \<le> retries \<Longrightarrow> step n h = Inl (r, h') \<Longrightarrow> call_ends attempt pause delay finish retries (n + 1) h r h'"
  by (cases "attempt h") (auto simp: step_def call_ends_def split: sum.splits if_splits option.splits)

lemma step_interrupted:
  "n \<le> retries \<Longrightarrow> step n h = Inr h' \<Longrightarrow> pause h' = Some e \<Longrightarrow> call_ends attempt pause delay finish retries (n + 1) h (Inl (Foreign e)) h'"
  by (cases "attempt h") (auto simp: step_def call_ends_def split: sum.splits if_splits option.splits)

lemma run_ends:
  "run n h = (r, h') \<Longrightarrow> n \<le> retries \<Longrightarrow>
    \<exists>k h1. n < k \<and> k \<le> retries + 1 \<and> call_ends attempt pause delay finish retries k h1 r h'"
proof (induction rule: run_induct)
  case (stop n h)
  with step_stops [OF stop(2,1)] show ?case by (intro exI [of _ "n + 1"] exI [of _ h]) simp
next
  case (interrupted n h e)
  with step_interrupted [OF interrupted(5,1,2)] show ?case
    by (intro exI [of _ "n + 1"] exI [of _ h]) simp
next
  case (continue n h h2)
  then obtain k h1 where "n + 1 < k" "k \<le> retries + 1" "call_ends attempt pause delay finish retries k h1 r h'"
    by blast
  then show ?case by (intro exI [of _ k] exI [of _ h1]) simp
qed

lemma call_summary:
  assumes "policy_ok delay" "\<And>r k. reports (finish r k) k" "run 0 h = (r, h')"
  shows "\<exists>ws k. h' = h @ ws \<and> bounded_call request retries ws \<and> k \<le> retries + 1 \<and> reports r k \<and>
    length (filter is_sent ws) = (if built then k else 0)"
proof -
  from run_log [OF assms] obtain ws k where
    w: "h' = h @ ws" "call_log built request k ws" "k \<le> retries + 1" "reports r k" "length (waits ws) \<le> retries"
    by auto
  with call_log_props [OF w(2)] show ?thesis
    by (intro exI [of _ ws] exI [of _ k]) (auto simp: bounded_call_def)
qed

text \<open>A point of the history: the wait \<open>a\<close> belongs to this step of the loop or to the rest.\<close>

lemma split_at_wait:
  assumes "attempt_log built q ws" "us @ Slept d # vs = ws @ Slept d' # xs"
  shows "us = ws \<and> d = d' \<and> vs = xs \<or> (\<exists>us'. us = ws @ Slept d' # us' \<and> xs = us' @ Slept d # vs)"
  using assms
  by (auto simp: attempt_log_def Cons_eq_append_conv append_eq_Cons_conv split: if_splits)

lemma split_at_request:
  assumes "attempt_log built q ws" "us @ Sent q' # vs = ws @ Slept d' # xs"
  shows "us = [] \<or> (\<exists>us'. us = ws @ Slept d' # us' \<and> xs = us' @ Sent q' # vs)"
  using assms
  by (auto simp: attempt_log_def Cons_eq_append_conv append_eq_Cons_conv split: if_splits)

text \<open>Nothing happens after a wait was interrupted, nor after an attempt raised another exception.\<close>

lemma run_interrupted:
  assumes "run n h = (r, h')" "h' = h @ us @ Slept d # vs" "pause (h @ us @ [Slept d]) = Some e"
  shows "r = Inl (Foreign e) \<and> vs = []"
  using assms
proof (induction arbitrary: us rule: run_induct)
  case (stop n h)
  from step_log(1) [OF stop(1)] stop(2) show ?case
    by (auto simp: attempt_log_def Cons_eq_append_conv append_eq_Cons_conv split: if_splits)
next
  case (interrupted n h e')
  from step_log(2) [OF interrupted(1)] obtain ws d' where
    ws: "attempt_log built request ws" and h': "h' = h @ ws @ [Slept d']" by blast
  with interrupted(5) have "us @ Slept d # vs = ws @ Slept d' # []" by simp
  from split_at_wait [OF ws this] show ?case using interrupted h' by auto
next
  case (continue n h h2)
  from step_log(2) [OF continue(1)] obtain ws d' where
    ws: "attempt_log built request ws" and h2: "h2 = h @ ws @ [Slept d']" by blast
  from run_extends [OF continue(4)] obtain xs where xs: "h' = h2 @ xs" by blast
  with continue(6) h2 have "us @ Slept d # vs = ws @ Slept d' # xs" by simp
  from split_at_wait [OF ws this] show ?case
  proof
    assume "us = ws \<and> d = d' \<and> vs = xs"
    with continue(2,7) h2 show ?thesis by simp
  next
    assume "\<exists>us'. us = ws @ Slept d' # us' \<and> xs = us' @ Slept d # vs"
    then obtain us' where us: "us = ws @ Slept d' # us'" by blast
    show ?thesis by (rule continue(5) [of us']) (use continue(6,7) us h2 in simp_all)
  qed
qed

lemma run_raised:
  assumes "run n h = (r, h')" "h' = h @ us @ Sent q # vs" "attempt (h @ us) = (Inl e, g)" "\<not> is_transport_error e"
  shows "r = Inl (Foreign e) \<and> h' = g"
  using assms
proof (induction arbitrary: us rule: run_induct)
  case (stop n h)
  from step_log(1) [OF stop(1)] stop(2) have "us = []"
    by (auto simp: attempt_log_def Cons_eq_append_conv append_eq_Cons_conv split: if_splits)
  with stop show ?case by (simp add: step_def)
next
  case (interrupted n h e')
  from step_log(2) [OF interrupted(1)] obtain ws d' where
    ws: "attempt_log built request ws" and h': "h' = h @ ws @ [Slept d']" by blast
  with interrupted(5) have "us @ Sent q # vs = ws @ Slept d' # []" by simp
  from split_at_request [OF ws this] have "us = []" by auto
  with interrupted show ?case by (simp add: step_def)
next
  case (continue n h h2)
  from step_log(2) [OF continue(1)] obtain ws d' where
    ws: "attempt_log built request ws" and h2: "h2 = h @ ws @ [Slept d']" by blast
  from run_extends [OF continue(4)] obtain xs where xs: "h' = h2 @ xs" by blast
  with continue(6) h2 have "us @ Sent q # vs = ws @ Slept d' # xs" by simp
  from split_at_request [OF ws this] show ?case
  proof
    assume "us = []"
    with continue(1,7,8) show ?thesis by (simp add: step_def)
  next
    assume "\<exists>us'. us = ws @ Slept d' # us' \<and> xs = us' @ Sent q # vs"
    then obtain us' where us: "us = ws @ Slept d' # us'" by blast
    show ?thesis by (rule continue(5) [of us']) (use continue(6-8) us h2 in simp_all)
  qed
qed

text \<open>
  If the attempts before one fail without a response and that one gets a response that is not to be
  retried, the call returns what the response says. An attempt is told by the waits before it.
\<close>

lemma run_recovers:
  assumes "\<And>g. length (waits g) < w + j \<Longrightarrow> \<exists>e. fst (attempt g) = Inl e \<and> is_transport_error e"
    "\<And>g. length (waits g) = w + j \<Longrightarrow> fst (attempt g) = Inr resp"
    "\<not> is_retryable_status (status_code resp)" "\<And>g. pause g = None"
    "length (waits h) = w + n" "n \<le> j" "j \<le> retries"
  shows "fst (run n h) = finish resp (j + 1)"
  using assms(5,6)
proof (induction "j - n" arbitrary: n h)
  case 0
  then have "fst (attempt h) = Inr resp" "n = j" using assms(2) by simp_all
  then show ?case by (cases "attempt h") (simp add: run_step [of j h] step_def assms(3))
next
  case (Suc x)
  then have "length (waits h) < w + j" by linarith
  then obtain e where e: "fst (attempt h) = Inl e" "is_transport_error e" using assms(1) by blast
  let ?h1 = "snd (attempt h)"
  let ?h2 = "?h1 @ [Slept (delay_or_zero (delay (n + 1) None ?h1))]"
  have "step n h = Inr ?h2"
    using e Suc assms(7) by (cases "attempt h") (simp add: step_def)
  moreover have "length (waits ?h2) = w + (n + 1)"
    using attempt_adds [of h] Suc(3) by (auto simp: attempt_log_props(2) [where built = built and q = request])
  then have "fst (run (n + 1) ?h2) = finish resp (j + 1)" using Suc by (intro Suc.hyps) simp_all
  ultimately show ?case by (simp add: run_step [of n h] assms(4))
qed

end

end
