(* ===== verification/Normalize.thy ===== *)
theory Normalize
  imports Validation Json
begin

text \<open>
  \<open>validation.py\<close>, the properties of an event: \<open>with_order_paid_properties\<close>, and \<open>_normalize\<close> with
  \<open>_container\<close>, which turn a Python object into a JSON value. The set of ancestors is mutable and
  shared between the calls; it is passed through, and returned with the result or the exception,
  so that the effect of the \<open>finally\<close> clause is visible. The recursion of the definition follows the
  code's and ends because of the depth check. \<open>denotes\<close> is the specification: an inductive
  description of the objects that are finite JSON trees.
\<close>

definition MAX_SAFE_INTEGER :: int where
  "MAX_SAFE_INTEGER = 9007199254740991"

definition MAX_DEPTH :: nat where
  "MAX_DEPTH = 256"

definition invalid_value :: "ustr \<Rightarrow> error" where
  "invalid_value path = ValidationError (path @ u '' is not a JSON-compatible value'')"

definition check_unicode :: "ustr \<Rightarrow> ustr \<Rightarrow> error + unit" where
  "check_unicode s path = checkE (valid_unicode s) (ValidationError (path @ u '' must be valid Unicode''))"

definition child_key :: "ustr \<Rightarrow> ustr \<Rightarrow> ustr" where
  "child_key path key = (if key = [] then path @ [91, 34, 34, 93] else path @ 46 # key)"

definition child_index :: "ustr \<Rightarrow> nat \<Rightarrow> ustr" where
  "child_index path i = path @ 91 # str_of_nat i @ [93]"

definition max_safe_float :: pyfloat where
  "max_safe_float = PFin False 9007199254740991 0"

definition float_rejected :: "pyfloat \<Rightarrow> bool" where
  "float_rejected x \<longleftrightarrow> \<not> f_is_finite x \<or> f_is_integer x \<and> f_lt max_safe_float (f_abs x)"

definition decimal_is_finite :: "pydec \<Rightarrow> bool" where
  "decimal_is_finite d \<longleftrightarrow> (case d of DecFin _ _ _ \<Rightarrow> True | _ \<Rightarrow> False)"

text \<open>The branches of \<open>_normalize\<close> for values that are not containers.\<close>

definition normalize_scalar :: "pyval \<Rightarrow> ustr \<Rightarrow> error + json" where
  "normalize_scalar v path =
     (case v of
        VNone \<Rightarrow> Inr JNull
      | VBool b \<Rightarrow> Inr (JBool b)
      | VStr s \<Rightarrow> bindE (check_unicode s path) (\<lambda>_. Inr (JStr s))
      | VInt i \<Rightarrow>
          if \<not> (- MAX_SAFE_INTEGER \<le> i \<and> i \<le> MAX_SAFE_INTEGER) then Inl (invalid_value path)
          else Inr (JInt i)
      | VFloat x \<Rightarrow> if float_rejected x then Inl (invalid_value path) else Inr (JFloat x)
      | VDecimal d \<Rightarrow>
          if \<not> decimal_is_finite d then Inl (invalid_value path)
          else (case f_of_decimal d of
                  None \<Rightarrow> Inl (invalid_value path)
                | Some x \<Rightarrow> if float_rejected x then Inl (invalid_value path) else Inr (JFloat x))
      | _ \<Rightarrow> Inl (invalid_value path))"

definition is_container :: "heap \<Rightarrow> pyval \<Rightarrow> bool" where
  "is_container h v \<longleftrightarrow> (case v of VRef a \<Rightarrow> h a \<noteq> OObject | _ \<Rightarrow> False)"

definition the_addr :: "pyval \<Rightarrow> addr" where
  "the_addr v = (case v of VRef a \<Rightarrow> a | _ \<Rightarrow> 0)"

type_synonym 'a tracked = "(error + 'a) \<times> addr set"

function (sequential)
  normalize :: "heap \<Rightarrow> pyval \<Rightarrow> ustr \<Rightarrow> addr set \<Rightarrow> nat \<Rightarrow> json tracked"
and container :: "heap \<Rightarrow> addr \<Rightarrow> ustr \<Rightarrow> addr set \<Rightarrow> nat \<Rightarrow> json tracked"
and norm_fields :: "heap \<Rightarrow> (pyval \<times> pyval) list \<Rightarrow> (ustr, json) pydict \<Rightarrow> ustr \<Rightarrow> addr set \<Rightarrow> nat
  \<Rightarrow> (ustr, json) pydict tracked"
and norm_items :: "heap \<Rightarrow> pyval list \<Rightarrow> nat \<Rightarrow> ustr \<Rightarrow> addr set \<Rightarrow> nat \<Rightarrow> json list tracked"
where
  "normalize h v path ancestors depth =
     (if MAX_DEPTH < depth then (Inl (ValidationError (path @ u '' is nested too deeply'')), ancestors)
      else if is_container h v then container h (the_addr v) path ancestors depth
      else (normalize_scalar v path, ancestors))"
| "container h a path ancestors depth =
     (if a \<in> ancestors
      then (Inl (ValidationError (path @ u '' contains a cycle'')), ancestors)
      else (case h a of
              OMapping kvs \<Rightarrow>
                (case norm_fields h kvs [] path (insert a ancestors) depth of
                   (r, ancestors') \<Rightarrow> (bindE r (\<lambda>d. Inr (JObj d)), ancestors' - {a}))
            | OList vs \<Rightarrow>
                (case norm_items h vs 0 path (insert a ancestors) depth of
                   (r, ancestors') \<Rightarrow> (bindE r (\<lambda>js. Inr (JArr js)), ancestors' - {a}))
            | OTuple vs \<Rightarrow>
                (case norm_items h vs 0 path (insert a ancestors) depth of
                   (r, ancestors') \<Rightarrow> (bindE r (\<lambda>js. Inr (JArr js)), ancestors' - {a}))
            | OObject \<Rightarrow> (Inl (invalid_value path), ancestors)))"
| "norm_fields h [] result path ancestors depth = (Inr result, ancestors)"
| "norm_fields h ((key, item) # kvs) result path ancestors depth =
     (case key of
        VStr k \<Rightarrow>
          (if \<not> valid_unicode k
           then (Inl (ValidationError (path @ u '' must be valid Unicode'')), ancestors)
           else (case normalize h item (child_key path k) ancestors (depth + 1) of
                   (Inl e, ancestors') \<Rightarrow> (Inl e, ancestors')
                 | (Inr j, ancestors') \<Rightarrow>
                     norm_fields h kvs (dict_set k j result) path ancestors' depth))
      | _ \<Rightarrow> (Inl (ValidationError
               (path @ u '' has a non-string key; property keys must be strings'')), ancestors))"
| "norm_items h [] i path ancestors depth = (Inr [], ancestors)"
| "norm_items h (v # vs) i path ancestors depth =
     (case normalize h v (child_index path i) ancestors (depth + 1) of
        (Inl e, ancestors') \<Rightarrow> (Inl e, ancestors')
      | (Inr j, ancestors') \<Rightarrow>
          (case norm_items h vs (i + 1) path ancestors' depth of
             (r, ancestors'') \<Rightarrow> (bindE r (\<lambda>js. Inr (j # js)), ancestors'')))"
  by pat_completeness auto
termination
  by (relation "inv_image (less_than <*lex*> less_than)
      (\<lambda>x. case x of
         Inl (Inl (h, v, path, anc, d)) \<Rightarrow> (4 * (258 - d), 0)
       | Inl (Inr (h, a, path, anc, d)) \<Rightarrow> (4 * (257 - d) + 2, 0)
       | Inr (Inl (h, kvs, r, path, anc, d)) \<Rightarrow> (4 * (257 - d) + 1, length kvs)
       | Inr (Inr (h, vs, i, path, anc, d)) \<Rightarrow> (4 * (257 - d) + 1, length vs))")
    (auto simp: MAX_DEPTH_def)

declare normalize.simps [simp del] container.simps [simp del]

section \<open>The ancestors are restored\<close>

lemma ancestors_restored:
  "snd (normalize h v path anc d) = anc"
  "snd (container h a path anc d) = anc"
  "snd (norm_fields h kvs r path anc d) = anc"
  "snd (norm_items h vs i path anc d) = anc"
proof (induction h v path anc d and h a path anc d and h kvs r path anc d and h vs i path anc d
    rule: normalize_container_norm_fields_norm_items.induct)
  case (1 h v path anc d)
  then show ?case by (simp add: normalize.simps)
next
  case (2 h a path anc d)
  then show ?case
    by (simp add: container.simps case_prod_beta split: pyobj.splits)
next
  case (4 h key item kvs r path anc d)
  then show ?case
    by (cases key) (auto split: prod.splits sum.splits)
next
  case (6 h v vs i path anc d)
  then show ?case by (auto split: prod.splits sum.splits)
qed simp_all

section \<open>Specification\<close>

definition scalar_value :: "pyval \<Rightarrow> json option" where
  "scalar_value v =
     (case v of
        VNone \<Rightarrow> Some JNull
      | VBool b \<Rightarrow> Some (JBool b)
      | VStr s \<Rightarrow> if valid_unicode s then Some (JStr s) else None
      | VInt i \<Rightarrow> if \<bar>i\<bar> \<le> MAX_SAFE_INTEGER then Some (JInt i) else None
      | VFloat x \<Rightarrow> if float_rejected x then None else Some (JFloat x)
      | VDecimal (DecFin s c x) \<Rightarrow>
          (case f_of_decimal (DecFin s c x) of
             None \<Rightarrow> None | Some y \<Rightarrow> if float_rejected y then None else Some (JFloat y))
      | _ \<Rightarrow> None)"

lemma normalize_scalar_Inr: "normalize_scalar v path = Inr j \<longleftrightarrow> scalar_value v = Some j"
  by (auto simp: normalize_scalar_def scalar_value_def check_unicode_def decimal_is_finite_def
      result_simps abs_le_iff split: pyval.splits pydec.splits option.splits)

text \<open>
  The objects that are finite trees of JSON values: dictionaries with Unicode string keys, lists and
  tuples, over scalars within the limits. An object that contains itself is not among them.
\<close>

inductive denotes :: "heap \<Rightarrow> pyval \<Rightarrow> json \<Rightarrow> bool" for h where
  scalar: "\<not> is_container h v \<Longrightarrow> scalar_value v = Some j \<Longrightarrow> denotes h v j"
| seq: "h a = OList vs \<or> h a = OTuple vs \<Longrightarrow> list_all2 (denotes h) vs js \<Longrightarrow> denotes h (VRef a) (JArr js)"
| mapping: "h a = OMapping kvs \<Longrightarrow>
    list_all2 (\<lambda>p q. fst p = VStr (fst q) \<and> valid_unicode (fst q) \<and> denotes h (snd p) (snd q)) kvs kjs \<Longrightarrow>
    denotes h (VRef a) (JObj (dict_of kjs))"

inductive_cases denotes_refE: "denotes h (VRef a) j"

lemma denotes_container:
  "h a = OList vs \<or> h a = OTuple vs \<Longrightarrow> denotes h (VRef a) j \<Longrightarrow> \<exists>js. j = JArr js \<and> list_all2 (denotes h) vs js"
  "h a = OMapping kvs \<Longrightarrow> denotes h (VRef a) j \<Longrightarrow>
    \<exists>kjs. j = JObj (dict_of kjs) \<and>
      list_all2 (\<lambda>p q. fst p = VStr (fst q) \<and> valid_unicode (fst q) \<and> denotes h (snd p) (snd q)) kvs kjs"
  by (auto elim!: denotes_refE simp: is_container_def scalar_value_def)

lemma list_all2_unique:
  "list_all2 (\<lambda>x y. P x y \<and> (\<forall>z. P x z \<longrightarrow> y = z)) xs ys \<Longrightarrow> list_all2 P xs zs \<Longrightarrow> ys = zs"
  by (induction xs ys arbitrary: zs rule: list_all2_induct) (auto simp: list_all2_Cons1)

definition denotes_field :: "heap \<Rightarrow> pyval \<times> pyval \<Rightarrow> ustr \<times> json \<Rightarrow> bool" where
  "denotes_field h p q \<longleftrightarrow> fst p = VStr (fst q) \<and> valid_unicode (fst q) \<and> denotes h (snd p) (snd q)"

lemma denotes_unique: "denotes h v j \<Longrightarrow> denotes h v j' \<Longrightarrow> j = j'"
proof (induction arbitrary: j' rule: denotes.induct)
  case (scalar v j)
  from scalar(3) show ?case
    by cases (use scalar in \<open>auto simp: is_container_def\<close>)
next
  case (seq a vs js)
  from denotes_container(1) [OF seq(1) seq(3)] obtain js' where
    "j' = JArr js'" "list_all2 (denotes h) vs js'" by blast
  moreover have "list_all2 (\<lambda>x y. denotes h x y \<and> (\<forall>z. denotes h x z \<longrightarrow> y = z)) vs js"
    using seq(2) by (rule list_all2_mono) blast
  ultimately show ?case using list_all2_unique by blast
next
  case (mapping a kvs kjs)
  from denotes_container(2) [OF mapping(1) mapping(3)] obtain kjs' where
    "j' = JObj (dict_of kjs')" "list_all2 (denotes_field h) kvs kjs'"
    unfolding denotes_field_def [abs_def] by blast
  moreover have "list_all2 (\<lambda>x y. denotes_field h x y \<and> (\<forall>z. denotes_field h x z \<longrightarrow> y = z)) kvs kjs"
    using mapping(2) by (rule list_all2_mono) (auto simp: prod_eq_iff denotes_field_def)
  ultimately have "kjs = kjs'" using list_all2_unique by blast
  with \<open>j' = JObj (dict_of kjs')\<close> show ?case by simp
qed

section \<open>What is accepted is a JSON tree\<close>

lemma foldl_dict_of: "foldl (\<lambda>d (k, v). dict_set k v d) [] kjs = dict_of kjs"
  by (simp add: dict_of_def)

lemma set_foldl_dict_set: "set (foldl (\<lambda>d (k, v). dict_set k v d) d kjs) \<subseteq> set d \<union> set kjs"
proof (induction kjs arbitrary: d)
  case Nil
  then show ?case by simp
next
  case (Cons p kjs)
  obtain k v where p: "p = (k, v)" by fastforce
  show ?case using Cons [of "dict_set k v d"] set_dict_set [of k v d] p by auto
qed

lemma set_dict_of: "set (dict_of kjs) \<subseteq> set kjs"
  using set_foldl_dict_set [of "[]" kjs] by (simp add: dict_of_def)

text \<open>The levels below a value, as the depth check counts them: an empty container has none.\<close>

fun json_height :: "json \<Rightarrow> nat" where
  "json_height (JArr vs) = foldr (\<lambda>v. max (Suc (json_height v))) vs 0"
| "json_height (JObj kvs) = foldr (\<lambda>p. max (Suc (json_height (snd p)))) kvs 0"
| "json_height _ = 0"

lemma height_le_Arr: "json_height (JArr js) + d \<le> n \<longleftrightarrow> d \<le> n \<and> (\<forall>j\<in>set js. json_height j + Suc d \<le> n)"
proof -
  have "json_height (JArr js) + d \<le> n \<longleftrightarrow> d \<le> n \<and> json_height (JArr js) \<le> n - d" by auto
  then show ?thesis unfolding json_height.simps foldr_max_le by fastforce
qed

lemma height_le_Obj:
  "json_height (JObj kjs) + d \<le> n \<longleftrightarrow> d \<le> n \<and> (\<forall>p\<in>set kjs. json_height (snd p) + Suc d \<le> n)"
proof -
  have "json_height (JObj kjs) + d \<le> n \<longleftrightarrow> d \<le> n \<and> json_height (JObj kjs) \<le> n - d" by auto
  then show ?thesis unfolding json_height.simps foldr_max_le by fastforce
qed

lemma depth_le_height: "json_depth j \<le> Suc (json_height j)"
proof (induction j rule: json_height.induct)
  case (1 vs)
  have "\<forall>v\<in>set vs. Suc (json_height v) \<le> json_height (JArr vs)"
    using height_le_Arr [of vs 0 "json_height (JArr vs)"] by simp
  with 1 show ?case by (fastforce simp: foldr_max_le simp del: json_height.simps)
next
  case (2 kvs)
  have "\<forall>p\<in>set kvs. Suc (json_height (snd p)) \<le> json_height (JObj kvs)"
    using height_le_Obj [of kvs 0 "json_height (JObj kvs)"] by simp
  with 2 show ?case by (fastforce simp: foldr_max_le simp del: json_height.simps)
qed simp_all

lemma scalar_height: "scalar_value v = Some j \<Longrightarrow> json_height j = 0"
  by (auto simp: scalar_value_def split: pyval.splits if_splits pydec.splits option.splits)

lemma normalize_sound:
  "normalize h v path anc d = (Inr j, anc') \<Longrightarrow> denotes h v j \<and> json_height j + d \<le> 256"
  "container h a path anc d = (Inr j, anc') \<Longrightarrow> d \<le> 256 \<Longrightarrow> denotes h (VRef a) j \<and> json_height j + d \<le> 256"
  "norm_fields h kvs r path anc d = (Inr r', anc') \<Longrightarrow>
     \<exists>kjs. r' = foldl (\<lambda>d (k, v). dict_set k v d) r kjs \<and> list_all2 (denotes_field h) kvs kjs \<and>
       (\<forall>p\<in>set kjs. json_height (snd p) + Suc d \<le> 256)"
  "norm_items h vs i path anc d = (Inr js, anc') \<Longrightarrow>
     list_all2 (denotes h) vs js \<and> (\<forall>j\<in>set js. json_height j + Suc d \<le> 256)"
proof (induction h v path anc d and h a path anc d and h kvs r path anc d and h vs i path anc d
    arbitrary: j anc' and j anc' and r' anc' and js anc'
    rule: normalize_container_norm_fields_norm_items.induct)
  case (1 h v path anc d)
  show ?case
  proof (cases "is_container h v")
    case True
    then obtain a where v: "v = VRef a" by (auto simp: is_container_def split: pyval.splits)
    from 1(2) True have "\<not> MAX_DEPTH < d" "container h (the_addr v) path anc d = (Inr j, anc')"
      by (auto simp: normalize.simps split: if_splits)
    with 1(1) True v show ?thesis by (simp add: the_addr_def MAX_DEPTH_def)
  next
    case False
    with 1(2) have "scalar_value v = Some j"
      by (auto simp: normalize.simps normalize_scalar_Inr split: if_splits)
    with False show ?thesis using 1(2) by (auto simp: denotes.scalar scalar_height normalize.simps MAX_DEPTH_def split: if_splits)
  qed
next
  case (2 h a path anc d)
  have a: "a \<notin> anc" using 2(4) by (auto simp: container.simps split: if_splits)
  show ?case
  proof (cases "h a")
    case (OMapping kvs)
    with 2(4) a obtain r anc1 where r: "norm_fields h kvs [] path (insert a anc) d = (Inr r, anc1)" "j = JObj r"
      by (auto simp: container.simps result_simps split: prod.splits)
    from 2(1) [OF a OMapping r(1)] obtain kjs where
      "r = dict_of kjs" "list_all2 (denotes_field h) kvs kjs" "\<forall>p\<in>set kjs. json_height (snd p) + Suc d \<le> 256"
      by (auto simp: foldl_dict_of)
    with r(2) 2(5) OMapping set_dict_of [of kjs] show ?thesis
      unfolding denotes_field_def [abs_def]
      by (auto intro!: denotes.mapping simp: height_le_Obj simp del: json_height.simps)
  next
    case (OList vs)
    with 2(4) a obtain js anc1 where r: "norm_items h vs 0 path (insert a anc) d = (Inr js, anc1)" "j = JArr js"
      by (auto simp: container.simps result_simps split: prod.splits)
    from 2(2) [OF a OList r(1)] r(2) 2(5) OList show ?thesis
      by (auto intro!: denotes.seq simp: height_le_Arr simp del: json_height.simps)
  next
    case (OTuple vs)
    with 2(4) a obtain js anc1 where r: "norm_items h vs 0 path (insert a anc) d = (Inr js, anc1)" "j = JArr js"
      by (auto simp: container.simps result_simps split: prod.splits)
    from 2(3) [OF a OTuple r(1)] r(2) 2(5) OTuple show ?thesis
      by (auto intro!: denotes.seq simp: height_le_Arr simp del: json_height.simps)
  next
    case OObject
    with 2(4) a show ?thesis by (simp add: container.simps)
  qed
next
  case (3 h r path anc d)
  then show ?case by (intro exI [where x = "[]"]) simp
next
  case (4 h key item kvs r path anc d)
  from 4(3) obtain k where k: "key = VStr k" "valid_unicode k" by (cases key) (auto split: if_splits)
  with 4(3) obtain j anc1 where
    j: "normalize h item (child_key path k) anc (d + 1) = (Inr j, anc1)"
    "norm_fields h kvs (dict_set k j r) path anc1 d = (Inr r', anc')"
    by (auto split: prod.splits sum.splits)
  from 4(1) [OF k(1) _ j(1)] k(2) have "denotes h item j" "json_height j + Suc d \<le> 256" by simp_all
  moreover from 4(2) [OF k(1) _ j(1) [symmetric] refl j(2)] k(2) obtain kjs where
    "r' = foldl (\<lambda>d (k, v). dict_set k v d) (dict_set k j r) kjs" "list_all2 (denotes_field h) kvs kjs"
    "\<forall>p\<in>set kjs. json_height (snd p) + Suc d \<le> 256" by auto
  moreover from calculation(1) k have "denotes_field h (key, item) (k, j)" by (simp add: denotes_field_def)
  ultimately show ?case by (intro exI [where x = "(k, j) # kjs"]) simp
next
  case (5 h i path anc d)
  then show ?case by simp
next
  case (6 h v vs i path anc d)
  from 6(3) obtain j anc1 js' anc2 where
    j: "normalize h v (child_index path i) anc (d + 1) = (Inr j, anc1)"
    "norm_items h vs (i + 1) path anc1 d = (Inr js', anc2)" "js = j # js'"
    by (auto simp: result_simps split: prod.splits sum.splits)
  from 6(1) [OF j(1)] 6(2) [OF j(1) [symmetric] refl j(2)] j(3) show ?case by simp
qed

section \<open>Every JSON tree within the depth is accepted\<close>

text \<open>Dictionaries have distinct keys, and every float is in canonical form.\<close>

definition val_ok :: "pyval \<Rightarrow> bool" where
  "val_ok v \<longleftrightarrow> (case v of VFloat x \<Rightarrow> canonical x | _ \<Rightarrow> True)"

definition obj_ok :: "pyobj \<Rightarrow> bool" where
  "obj_ok ob \<longleftrightarrow>
     (case ob of
        OMapping kvs \<Rightarrow> distinct (map fst kvs) \<and> list_all (\<lambda>p. val_ok (snd p)) kvs
      | OList vs \<Rightarrow> list_all val_ok vs
      | OTuple vs \<Rightarrow> list_all val_ok vs
      | OObject \<Rightarrow> True)"

definition heap_ok :: "heap \<Rightarrow> bool" where
  "heap_ok h \<longleftrightarrow> (\<forall>a. obj_ok (h a))"

lemma denotes_fields_keys:
  "list_all2 (denotes_field h) kvs kjs \<Longrightarrow> map fst kvs = map (\<lambda>q. VStr (fst q)) kjs"
  by (induction rule: list_all2_induct) (auto simp: denotes_field_def)

lemma denotes_fields_distinct:
  assumes "list_all2 (denotes_field h) kvs kjs" "distinct (map fst kvs)"
  shows "dict_ok kjs"
proof -
  have "map fst kvs = map VStr (map fst kjs)"
    using denotes_fields_keys [OF assms(1)] by simp
  with assms(2) have "distinct (map VStr (map fst kjs))" by metis
  then show ?thesis unfolding dict_ok_def by (metis distinct_map)
qed

lemma size_elem_Arr: "j \<in> set js \<Longrightarrow> size j < size (JArr js)"
  by (induction js) auto

lemma size_elem_Obj: "(k, j) \<in> set kjs \<Longrightarrow> size j < size (JObj kjs)"
  by (induction kjs) auto

definition ancestors_above :: "heap \<Rightarrow> addr set \<Rightarrow> json \<Rightarrow> bool" where
  "ancestors_above h anc j \<longleftrightarrow> (\<forall>a\<in>anc. \<exists>ja. denotes h (VRef a) ja \<and> size j < size ja)"

lemma not_own_ancestor: "ancestors_above h anc j \<Longrightarrow> denotes h (VRef a) j \<Longrightarrow> a \<notin> anc"
  unfolding ancestors_above_def using denotes_unique by blast

lemma ancestors_above_child:
  "ancestors_above h anc j \<Longrightarrow> denotes h (VRef a) j \<Longrightarrow> size j' < size j \<Longrightarrow>
    ancestors_above h (insert a anc) j'"
  unfolding ancestors_above_def by (metis insertE less_trans)

definition accepts :: "heap \<Rightarrow> pyval \<Rightarrow> json \<Rightarrow> bool" where
  "accepts h v j \<longleftrightarrow> (\<forall>path anc d. json_height j + d \<le> 256 \<longrightarrow> ancestors_above h anc j \<longrightarrow>
     normalize h v path anc d = (Inr j, anc))"

lemma acceptsD:
  "accepts h v j \<Longrightarrow> json_height j + d \<le> 256 \<Longrightarrow> ancestors_above h anc j \<Longrightarrow>
    normalize h v path anc d = (Inr j, anc)"
  by (simp add: accepts_def)

lemma norm_items_accepts:
  assumes "list_all2 (accepts h) vs js"
    and "\<And>j. j \<in> set js \<Longrightarrow> json_height j + Suc d \<le> 256 \<and> ancestors_above h anc j"
  shows "norm_items h vs i path anc d = (Inr js, anc)"
  using assms(1,2)
proof (induction vs js arbitrary: i rule: list_all2_induct)
  case Nil
  then show ?case by simp
next
  case (Cons v vs j js)
  have "normalize h v (child_index path i) anc (Suc d) = (Inr j, anc)"
    using Cons.hyps(1) Cons.prems [of j] by (intro acceptsD) auto
  with Cons show ?case by simp
qed

lemma norm_fields_accepts:
  assumes "list_all2 (\<lambda>p q. fst p = VStr (fst q) \<and> valid_unicode (fst q) \<and> accepts h (snd p) (snd q)) kvs kjs"
    and "\<And>k j. (k, j) \<in> set kjs \<Longrightarrow> json_height j + Suc d \<le> 256 \<and> ancestors_above h anc j"
  shows "norm_fields h kvs r path anc d = (Inr (foldl (\<lambda>d (k, v). dict_set k v d) r kjs), anc)"
  using assms(1,2)
proof (induction kvs kjs arbitrary: r rule: list_all2_induct)
  case Nil
  then show ?case by simp
next
  case (Cons p kvs q kjs)
  obtain key v k j where pq: "p = (key, v)" "q = (k, j)" by fastforce
  have "normalize h v (child_key path k) anc (Suc d) = (Inr j, anc)"
    using Cons.hyps(1) Cons.prems [of k j] pq by (intro acceptsD) auto
  with Cons pq show ?case by auto
qed

lemma denotes_accepts:
  assumes "heap_ok h"
  shows "denotes h v j \<Longrightarrow> accepts h v j"
proof (induction rule: denotes.induct)
  case (scalar v j)
  then show ?case
    by (simp add: accepts_def normalize.simps MAX_DEPTH_def normalize_scalar_Inr)
next
  case (seq a vs js)
  let ?j = "JArr js"
  have den: "denotes h (VRef a) ?j"
    using seq by (intro denotes.seq) (auto elim: list_all2_mono)
  show ?case unfolding accepts_def
  proof (intro allI impI)
    fix path anc d
    assume hd: "json_height ?j + d \<le> 256" and up: "ancestors_above h anc ?j"
    have a: "a \<notin> anc" by (rule not_own_ancestor [OF up den])
    have "norm_items h vs 0 path (insert a anc) d = (Inr js, insert a anc)"
    proof (rule norm_items_accepts)
      show "list_all2 (accepts h) vs js" by (rule list_all2_mono [OF seq(2)]) blast
    qed (use hd ancestors_above_child [OF up den] size_elem_Arr in
        \<open>auto simp: height_le_Arr simp del: json_height.simps json.size\<close>)
    moreover have "is_container h (VRef a)" using seq(1) by (auto simp: is_container_def)
    ultimately show "normalize h (VRef a) path anc d = (Inr ?j, anc)"
      using seq(1) a hd by (auto simp: normalize.simps container.simps the_addr_def MAX_DEPTH_def)
  qed
next
  case (mapping a kvs kjs)
  let ?j = "JObj (dict_of kjs)"
  have den: "denotes h (VRef a) ?j"
    using mapping by (intro denotes.mapping) (auto elim: list_all2_mono)
  have fields: "list_all2 (denotes_field h) kvs kjs"
    by (rule list_all2_mono [OF mapping(2)]) (simp add: denotes_field_def)
  have "obj_ok (h a)" using assms by (simp add: heap_ok_def)
  then have "distinct (map fst kvs)" using mapping(1) by (simp add: obj_ok_def)
  then have dk: "dict_of kjs = kjs" by (intro dict_of_distinct denotes_fields_distinct [OF fields])
  show ?case unfolding accepts_def
  proof (intro allI impI)
    fix path anc d
    assume hd: "json_height ?j + d \<le> 256" and up: "ancestors_above h anc ?j"
    have a: "a \<notin> anc" by (rule not_own_ancestor [OF up den])
    have child: "ancestors_above h (insert a anc) j" if "(k, j) \<in> set kjs" for k j
      using ancestors_above_child [OF up den] size_elem_Obj [OF that] by (simp only: dk)
    have "norm_fields h kvs [] path (insert a anc) d =
        (Inr (foldl (\<lambda>d (k, v). dict_set k v d) [] kjs), insert a anc)"
    proof (rule norm_fields_accepts)
      show "list_all2 (\<lambda>p q. fst p = VStr (fst q) \<and> valid_unicode (fst q) \<and> accepts h (snd p) (snd q)) kvs kjs"
        by (rule list_all2_mono [OF mapping(2)]) blast
    qed (use hd child in \<open>auto simp: dk height_le_Obj simp del: json_height.simps\<close>)
    moreover have "is_container h (VRef a)" using mapping(1) by (auto simp: is_container_def)
    ultimately show "normalize h (VRef a) path anc d = (Inr ?j, anc)"
      using mapping(1) a hd
      by (auto simp: normalize.simps container.simps the_addr_def MAX_DEPTH_def foldl_dict_of)
  qed
qed

section \<open>What is accepted can be written as JSON\<close>

lemma safe_int_digits: "\<bar>i\<bar> \<le> MAX_SAFE_INTEGER \<Longrightarrow> length (str_of_nat (nat \<bar>i\<bar>)) \<le> MAX_INT_DIGITS"
proof -
  assume "\<bar>i\<bar> \<le> MAX_SAFE_INTEGER"
  then have "nat \<bar>i\<bar> < 10 ^ 16" by (simp add: MAX_SAFE_INTEGER_def)
  then have "length (str_of_nat (nat \<bar>i\<bar>)) \<le> 16" by (rule length_str_of_nat_le) simp
  then show ?thesis by (simp add: MAX_INT_DIGITS_def)
qed

lemma decimal_canonical: "f_of_decimal (DecFin s c x) = Some y \<Longrightarrow> canonical y"
  by (auto simp: f_of_decimal_def round_ratio_canonical split: if_splits)

lemma scalar_json_ok:
  assumes "scalar_value v = Some j" "val_ok v"
  shows "json_ok j \<and> json_unicode j"
  using assms
  by (auto simp: scalar_value_def val_ok_def safe_int_digits float_rejected_def
      split: pyval.splits if_splits pydec.splits option.splits dest: decimal_canonical)

lemma denotes_json_ok:
  assumes "heap_ok h"
  shows "denotes h v j \<Longrightarrow> val_ok v \<longrightarrow> json_ok j \<and> json_unicode j"
proof (induction rule: denotes.induct)
  case (scalar v j)
  then show ?case using scalar_json_ok by blast
next
  case (seq a vs js)
  have "obj_ok (h a)" using assms by (simp add: heap_ok_def)
  then have "list_all val_ok vs" using seq(1) by (auto simp: obj_ok_def)
  with seq(2) have "list_all (\<lambda>j. json_ok j \<and> json_unicode j) js"
    by (induction rule: list_all2_induct) auto
  then show ?case by (simp add: list_all_iff)
next
  case (mapping a kvs kjs)
  have fields: "list_all2 (denotes_field h) kvs kjs"
    by (rule list_all2_mono [OF mapping(2)]) (simp add: denotes_field_def)
  have ob: "obj_ok (h a)" using assms by (simp add: heap_ok_def)
  then have vals: "list_all (\<lambda>p. val_ok (snd p)) kvs" "distinct (map fst kvs)"
    using mapping(1) by (simp_all add: obj_ok_def)
  have dk: "dict_of kjs = kjs" "dict_ok kjs"
    using denotes_fields_distinct [OF fields vals(2)] by (simp_all add: dict_of_distinct)
  from mapping(2) vals(1) have "list_all (\<lambda>q. json_ok (snd q) \<and> valid_unicode (fst q) \<and> json_unicode (snd q)) kjs"
    by (induction rule: list_all2_induct) auto
  then show ?case using dk by (auto simp: list_all_iff)
qed

section \<open>Errors and cycles\<close>

definition validation_outcome :: "(error + 'a) \<times> addr set \<Rightarrow> bool" where
  "validation_outcome r \<longleftrightarrow> (\<forall>e. fst r = Inl e \<longrightarrow> (\<exists>m. e = ValidationError m))"

lemma scalar_error: "normalize_scalar v path = Inl e \<Longrightarrow> \<exists>m. e = ValidationError m"
  by (auto simp: normalize_scalar_def invalid_value_def check_unicode_def result_simps
      split: pyval.splits if_splits option.splits)

lemma normalize_errors:
  "validation_outcome (normalize h v path anc d)"
  "validation_outcome (container h a path anc d)"
  "validation_outcome (norm_fields h kvs r path anc d)"
  "validation_outcome (norm_items h vs i path anc d)"
proof (induction h v path anc d and h a path anc d and h kvs r path anc d and h vs i path anc d
    rule: normalize_container_norm_fields_norm_items.induct)
  case (1 h v path anc d)
  then show ?case by (auto simp: normalize.simps validation_outcome_def dest: scalar_error)
next
  case (2 h a path anc d)
  then show ?case
    by (auto simp: container.simps validation_outcome_def result_simps invalid_value_def
        split: pyobj.splits prod.splits)
next
  case (4 h key item kvs r path anc d)
  then show ?case
    by (cases key) (auto simp: validation_outcome_def split: prod.splits sum.splits)
next
  case (6 h v vs i path anc d)
  then show ?case
    by (auto simp: validation_outcome_def result_simps split: prod.splits sum.splits)
qed (simp_all add: validation_outcome_def)

definition children :: "pyobj \<Rightarrow> pyval list" where
  "children ob = (case ob of OMapping kvs \<Rightarrow> map snd kvs | OList vs \<Rightarrow> vs | OTuple vs \<Rightarrow> vs | OObject \<Rightarrow> [])"

definition points_to :: "heap \<Rightarrow> (addr \<times> addr) set" where
  "points_to h = {(a, b). VRef b \<in> set (children (h a))}"

lemma list_all2_ex_right: "list_all2 P xs ys \<Longrightarrow> x \<in> set xs \<Longrightarrow> \<exists>y\<in>set ys. P x y"
  by (induction rule: list_all2_induct) auto

lemma set_dict_of_distinct_size:
  assumes "list_all2 (\<lambda>p q. fst p = VStr (fst q) \<and> valid_unicode (fst q) \<and> denotes h (snd p) (snd q)) kvs kjs"
    and "(k, v) \<in> set kvs"
  shows "\<exists>s j. (s, j) \<in> set kjs \<and> denotes h v j"
  using list_all2_ex_right [OF assms] by force

text \<open>
  Along a reference the denoted tree gets smaller. A dictionary may hold only its last value for a
  repeated key, so its keys are assumed to be distinct, as Python's are.
\<close>

lemma denotes_child:
  assumes "heap_ok h" "denotes h (VRef a) j" "(a, b) \<in> points_to h"
  shows "\<exists>j'. denotes h (VRef b) j' \<and> size j' < size j"
proof (cases "h a")
  case (OMapping kvs)
  from denotes_container(2) [OF OMapping assms(2)] obtain kjs where
    k: "j = JObj (dict_of kjs)"
      "list_all2 (\<lambda>p q. fst p = VStr (fst q) \<and> valid_unicode (fst q) \<and> denotes h (snd p) (snd q)) kvs kjs"
    by blast
  have "obj_ok (h a)" using assms(1) by (simp add: heap_ok_def)
  then have "distinct (map fst kvs)" using OMapping by (simp add: obj_ok_def)
  moreover have "list_all2 (denotes_field h) kvs kjs"
    by (rule list_all2_mono [OF k(2)]) (simp add: denotes_field_def)
  ultimately have dk: "dict_of kjs = kjs" by (intro dict_of_distinct denotes_fields_distinct)
  from assms(3) OMapping obtain key where "(key, VRef b) \<in> set kvs"
    by (auto simp: points_to_def children_def)
  then obtain s j' where "(s, j') \<in> set kjs" "denotes h (VRef b) j'"
    using set_dict_of_distinct_size [OF k(2)] by blast
  then show ?thesis using size_elem_Obj [of s j' kjs] unfolding k(1) dk by blast
next
  case (OList vs)
  then obtain js where js: "j = JArr js" "list_all2 (denotes h) vs js"
    using denotes_container(1) [OF _ assms(2), of vs] by blast
  have "VRef b \<in> set vs" using assms(3) OList by (simp add: points_to_def children_def)
  from list_all2_ex_right [OF js(2) this] obtain j' where "j' \<in> set js" "denotes h (VRef b) j'" ..
  then show ?thesis using size_elem_Arr [of j' js] unfolding js(1) by blast
next
  case (OTuple vs)
  then obtain js where js: "j = JArr js" "list_all2 (denotes h) vs js"
    using denotes_container(1) [OF _ assms(2), of vs] by blast
  have "VRef b \<in> set vs" using assms(3) OTuple by (simp add: points_to_def children_def)
  from list_all2_ex_right [OF js(2) this] obtain j' where "j' \<in> set js" "denotes h (VRef b) j'" ..
  then show ?thesis using size_elem_Arr [of j' js] unfolding js(1) by blast
next
  case OObject
  with assms(3) show ?thesis by (simp add: points_to_def children_def)
qed

lemma denotes_path:
  assumes "heap_ok h" "(a, b) \<in> (points_to h)\<^sup>+" "denotes h (VRef a) j"
  shows "\<exists>j'. denotes h (VRef b) j' \<and> size j' < size j"
  using assms(2,3)
proof (induction rule: trancl_induct)
  case (base b)
  then show ?case using denotes_child [OF assms(1)] by blast
next
  case (step b c)
  then show ?case using denotes_child [OF assms(1)] by (meson less_trans)
qed

lemma no_cycle_denotes:
  assumes "heap_ok h" "(a, a) \<in> (points_to h)\<^sup>+"
  shows "\<not> denotes h (VRef a) j"
proof
  assume d: "denotes h (VRef a) j"
  from denotes_path [OF assms d] denotes_unique [OF d] show False by blast
qed

section \<open>Properties\<close>

text \<open>
  \<open>_normalize\<close> leaves the set of ancestors as it found it, whether it returns or raises, at
  every depth and for every object graph.
\<close>

theorem normalize_restores_ancestors: "snd (normalize h v path ancestors depth) = ancestors"
  by (rule ancestors_restored(1))

text \<open>
  C5: \<open>_normalize\<close> accepts exactly the finite trees of JSON values with at most 256 levels below
  the root, and returns the JSON value the object denotes.
\<close>

theorem normalize_accepts_exactly:
  assumes "heap_ok h"
  shows "fst (normalize h v path {} 0) = Inr j \<longleftrightarrow> denotes h v j \<and> json_height j \<le> 256"
proof
  assume "fst (normalize h v path {} 0) = Inr j"
  then have "normalize h v path {} 0 = (Inr j, snd (normalize h v path {} 0))" by (metis prod.collapse)
  from normalize_sound(1) [OF this] show "denotes h v j \<and> json_height j \<le> 256" by simp
next
  assume d: "denotes h v j \<and> json_height j \<le> 256"
  then have "accepts h v j" using denotes_accepts [OF assms] by blast
  from acceptsD [OF this, of 0 "{}" path] d show "fst (normalize h v path {} 0) = Inr j"
    by (simp add: ancestors_above_def)
qed

definition pair_heap :: heap where
  "pair_heap a = (if a = 0 then OList [VInt 1, VRef 1] else if a = 1 then OTuple [VNone] else OObject)"

lemma pair_heap_ok: "heap_ok pair_heap"
  by (simp add: heap_ok_def pair_heap_def obj_ok_def val_ok_def)

lemma pair_heap_denotes: "denotes pair_heap (VRef 0) (JArr [JInt 1, JArr [JNull]])"
proof -
  have 1: "denotes pair_heap (VInt 1) (JInt 1)" "denotes pair_heap VNone JNull"
    by (auto intro!: denotes.scalar simp: is_container_def scalar_value_def MAX_SAFE_INTEGER_def)
  have "denotes pair_heap (VRef 1) (JArr [JNull])"
    by (rule denotes.seq [where vs = "[VNone]"]) (use 1 in \<open>simp_all add: pair_heap_def\<close>)
  with 1 show ?thesis
    by (intro denotes.seq [where vs = "[VInt 1, VRef 1]"]) (simp_all add: pair_heap_def)
qed

theorem normalize_accepts_exactly_witness:
  "fst (normalize pair_heap (VRef 0) (u ''properties'') {} 0) = Inr (JArr [JInt 1, JArr [JNull]])"
  using normalize_accepts_exactly [OF pair_heap_ok, of "VRef 0" "u ''properties''" "JArr [JInt 1, JArr [JNull]]"]
    pair_heap_denotes by simp

text \<open>
  C25: an object that contains itself, directly or through others, is rejected with a
  \<open>ValidationError\<close>; the recursion does not go on for ever.
\<close>

theorem cycles_rejected:
  assumes "heap_ok h" "(a, a) \<in> (points_to h)\<^sup>+"
  shows "\<exists>m. fst (normalize h (VRef a) path ancestors depth) = Inl (ValidationError m)"
proof (cases "normalize h (VRef a) path ancestors depth")
  case (Pair r anc)
  show ?thesis
  proof (cases r)
    case (Inr j)
    with Pair have "denotes h (VRef a) j" using normalize_sound(1) by blast
    with no_cycle_denotes [OF assms] show ?thesis by blast
  next
    case (Inl e)
    with Pair normalize_errors(1) [of h "VRef a" path ancestors depth] show ?thesis
      by (simp add: validation_outcome_def)
  qed
qed

definition loop_heap :: heap where
  "loop_heap a = (if a = 0 then OList [VRef 1] else if a = 1 then OMapping [(VStr (u ''k''), VRef 0)] else OObject)"

theorem cycles_rejected_witness:
  "\<exists>m. fst (normalize loop_heap (VRef 0) (u ''properties'') {} 0) = Inl (ValidationError m)"
proof (rule cycles_rejected)
  show "heap_ok loop_heap" by (simp add: heap_ok_def loop_heap_def obj_ok_def val_ok_def)
  have "(0, 1) \<in> points_to loop_heap" "(1, 0) \<in> points_to loop_heap"
    by (simp_all add: points_to_def loop_heap_def children_def)
  then show "(0, 0) \<in> (points_to loop_heap)\<^sup>+" by (meson trancl.simps)
qed

end
