(* ===== verification/Body.thy ===== *)
theory Body
  imports Normalize Context
begin

text \<open>
  \<open>validation.py\<close>, the request body: \<open>with_order_paid_properties\<close>, \<open>_occurred_at\<close> and \<open>build_body\<close>.
  The objects an event refers to are in a heap; \<open>with_order_paid_properties\<close> allocates a dictionary
  at an address given to it. The clock, the random identifier and the width to which the C library
  pads years are the record \<open>body_env\<close>.
\<close>

datatype event_arg = AnEvent event | NotAnEvent

record body_env =
  env_now :: pydatetime
  env_event_id :: ustr
  env_year_width :: nat

definition not_an_event :: error where
  "not_an_event = invalid_arg ''event must be a cekat_event_sdk.Event''"

definition properties_error :: error where
  "properties_error = invalid_arg ''properties must be a dict with string keys''"

text \<open>\<open>isinstance(value, Mapping)\<close>, with the items.\<close>

definition mapping_items :: "heap \<Rightarrow> pyval \<Rightarrow> (pyval \<times> pyval) list option" where
  "mapping_items h v =
     (case v of VRef a \<Rightarrow> (case h a of OMapping kvs \<Rightarrow> Some kvs | _ \<Rightarrow> None) | _ \<Rightarrow> None)"

section \<open>The order arguments\<close>

definition amount_error :: error where
  "amount_error = invalid_arg ''amount must be a finite number''"

definition signaling_nan_error :: error where
  "signaling_nan_error = Foreign (OtherExn (u ''ValueError'') (u ''cannot convert signaling NaN to float''))"

definition check_amount :: "pyval \<Rightarrow> error + unit" where
  "check_amount amount =
     (case amount of
        VInt i \<Rightarrow> Inr ()
      | VFloat x \<Rightarrow> checkE (f_is_finite x) amount_error
      | VDecimal d \<Rightarrow>
          (case f_of_decimal d of
             None \<Rightarrow> Inl signaling_nan_error
           | Some x \<Rightarrow> checkE (f_is_finite x) amount_error)
      | _ \<Rightarrow> Inl amount_error)"

definition check_currency :: "pyval \<Rightarrow> error + unit" where
  "check_currency currency =
     checkE (is_str currency \<and> py_strip (str_content currency) \<noteq> [])
       (invalid_arg ''currency must be a non-empty string'')"

definition RESERVED_ORDER_PAID :: "ustr list" where
  "RESERVED_ORDER_PAID = [u ''amount'', u ''currency'']"

definition reserved_error :: "ustr \<Rightarrow> error" where
  "reserved_error k = ValidationError
     (u ''properties must not contain '' @ [34] @ k @ [34] @ u ''; pass it as the order_paid argument'')"

primrec check_reserved :: "(pyval, pyval) pydict \<Rightarrow> ustr list \<Rightarrow> error + unit" where
  "check_reserved d [] = Inr ()"
| "check_reserved d (k # ks) =
     (if VStr k \<in> set (dict_keys d) then Inl (reserved_error k) else check_reserved d ks)"

definition copied_properties :: "heap \<Rightarrow> pyval \<Rightarrow> error + (pyval, pyval) pydict" where
  "copied_properties h v =
     (if v = VNone then Inr []
      else (case mapping_items h v of None \<Rightarrow> Inl properties_error | Some kvs \<Rightarrow> Inr kvs))"

definition with_order_paid_properties ::
  "pyval \<Rightarrow> pyval \<Rightarrow> event_arg \<Rightarrow> heap \<Rightarrow> addr \<Rightarrow> error + (event \<times> heap)" where
  "with_order_paid_properties amount currency event h new =
     bindE (check_amount amount) (\<lambda>_.
     bindE (check_currency currency) (\<lambda>_.
       case event of
         NotAnEvent \<Rightarrow> Inl not_an_event
       | AnEvent e \<Rightarrow>
           bindE (copied_properties h (properties e)) (\<lambda>props.
           bindE (check_reserved props RESERVED_ORDER_PAID) (\<lambda>_.
             Inr (e\<lparr>properties := VRef new\<rparr>,
                  h(new := OMapping (dict_set (VStr (u ''currency'')) currency
                     (dict_set (VStr (u ''amount'')) amount props))))))))"

section \<open>The body\<close>

definition occurred_at_text :: "moment \<Rightarrow> body_env \<Rightarrow> error + ustr" where
  "occurred_at_text value env =
     (case (case value of NoMoment \<Rightarrow> At (env_now env) | m \<Rightarrow> m) of
        At t \<Rightarrow>
          (if utc_offset t = None then Inl (invalid_arg ''occurred_at must be timezone-aware'')
           else (case to_utc t of
                   None \<Rightarrow> Inl (invalid_arg ''occurred_at must be between years 0001 and 9999'')
                 | Some utc \<Rightarrow> Inr (format_utc_ms (env_year_width env) utc)))
      | _ \<Rightarrow> Inl (invalid_arg ''occurred_at must be a datetime''))"

definition check_field :: "string \<Rightarrow> pyval \<Rightarrow> error + unit" where
  "check_field name v = checkE (v = VNone \<or> is_str v) (ValidationError (u name @ u '' must be a string''))"

definition check_string_fields :: "event \<Rightarrow> error + unit" where
  "check_string_fields e =
     bindE (check_field ''email'' (email e)) (\<lambda>_.
     bindE (check_field ''phone_number'' (phone_number e)) (\<lambda>_.
     bindE (check_field ''contact_name'' (contact_name e)) (\<lambda>_.
     bindE (check_field ''visitor_id'' (visitor_id e)) (\<lambda>_.
     check_field ''event_id'' (event_id e)))))"

definition identity_error :: error where
  "identity_error = invalid_arg ''at least one non-empty email or phone_number is required''"

definition has_identity :: "event \<Rightarrow> bool" where
  "has_identity e \<longleftrightarrow>
     py_strip (or_empty (email e)) \<noteq> [] \<or> py_strip (or_empty (phone_number e)) \<noteq> []"

definition set_if_present :: "string \<Rightarrow> pyval \<Rightarrow> (ustr, json) pydict \<Rightarrow> (ustr, json) pydict" where
  "set_if_present name v d = (if v = VNone then d else dict_set (u name) (JStr (str_content v)) d)"

definition effective_visitor :: "event \<Rightarrow> ustr option \<Rightarrow> ustr option" where
  "effective_visitor e ambient =
     (case normalize_visitor_id (visitor_id e) of
        Some v \<Rightarrow> Some v
      | None \<Rightarrow> normalize_visitor_id (opt_val ambient))"

definition normalized_properties :: "heap \<Rightarrow> pyval \<Rightarrow> error + json option" where
  "normalized_properties h v =
     (if v = VNone then Inr None
      else if mapping_items h v = None then Inl properties_error
      else bindE (fst (normalize h v (u ''properties'') {} 0)) (\<lambda>j. Inr (Some j)))"

text \<open>The payload of a checked event, field by field in the order the dictionary is filled.\<close>

definition payload_fields ::
  "ustr \<Rightarrow> ustr \<Rightarrow> ustr \<Rightarrow> bool \<Rightarrow> event \<Rightarrow> ustr option \<Rightarrow> json option \<Rightarrow> (ustr, json) pydict" where
  "payload_fields key the_id ts is_common e visitor props =
     (let d0 = [(u ''event_key'', JStr key), (u ''event_id'', JStr the_id),
                (u ''occurred_at'', JStr ts), (u ''is_common'', JBool is_common)];
          d1 = set_if_present ''contact_name'' (contact_name e)
                 (set_if_present ''phone_number'' (phone_number e)
                   (set_if_present ''email'' (email e) d0));
          d2 = (case visitor of None \<Rightarrow> d1 | Some v \<Rightarrow> dict_set (u ''visitor_id'') (JStr v) d1)
      in (case props of None \<Rightarrow> d2 | Some j \<Rightarrow> dict_set (u ''properties'') j d2))"

definition effective_event_id :: "event \<Rightarrow> body_env \<Rightarrow> ustr" where
  "effective_event_id e env =
     (case normalize_visitor_id (event_id e) of Some s \<Rightarrow> s | None \<Rightarrow> env_event_id env)"

definition event_payload ::
  "heap \<Rightarrow> ustr \<Rightarrow> bool \<Rightarrow> event \<Rightarrow> ustr option \<Rightarrow> body_env \<Rightarrow> error + (ustr, json) pydict" where
  "event_payload h key is_common e ambient env =
     bindE (occurred_at_text (occurred_at e) env) (\<lambda>ts.
     bindE (normalized_properties h (properties e)) (\<lambda>props.
       Inr (payload_fields key (effective_event_id e env) ts is_common e (effective_visitor e ambient) props)))"

definition encode_payload :: "(ustr, json) pydict \<Rightarrow> error + bytes" where
  "encode_payload payload =
     (case dumps (JObj payload) of
        Inl e \<Rightarrow> Inl (invalid_arg ''event is not JSON-compatible; strings must be valid Unicode'')
      | Inr t \<Rightarrow>
          (case utf8_encode t of
             None \<Rightarrow> Inl (invalid_arg ''event is not JSON-compatible; strings must be valid Unicode'')
           | Some bs \<Rightarrow> Inr bs))"

definition build_body ::
  "heap \<Rightarrow> pyval \<Rightarrow> bool \<Rightarrow> event_arg \<Rightarrow> ustr option \<Rightarrow> body_env \<Rightarrow> error + bytes" where
  "build_body h event_key is_common event ambient env =
     (case event_key of
        VStr key \<Rightarrow>
          (if py_strip key = [] then Inl (invalid_arg ''event_key must be a non-empty string'')
           else case event of
                  NotAnEvent \<Rightarrow> Inl not_an_event
                | AnEvent e \<Rightarrow>
                    bindE (check_string_fields e) (\<lambda>_.
                    bindE (checkE (has_identity e) identity_error) (\<lambda>_.
                    bindE (event_payload h key is_common e ambient env) encode_payload)))
      | _ \<Rightarrow> Inl (invalid_arg ''event_key must be a non-empty string''))"

section \<open>Fields of the payload\<close>

lemma set_if_present_get:
  "dict_get (set_if_present name v d) k =
     (if k = u name \<and> v \<noteq> VNone then Some (JStr (str_content v)) else dict_get d k)"
  by (simp add: set_if_present_def dict.look_store)

lemma set_if_present_ok: "dict_ok d \<Longrightarrow> dict_ok (set_if_present name v d)"
  by (simp add: set_if_present_def dict.ok_store)

definition all_values :: "(json \<Rightarrow> bool) \<Rightarrow> (ustr, json) pydict \<Rightarrow> bool" where
  "all_values P d \<longleftrightarrow> (\<forall>p\<in>set d. P (snd p))"

lemma all_values_set: "all_values P d \<Longrightarrow> P v \<Longrightarrow> all_values P (dict_set k v d)"
  using set_dict_set [of k v d] by (fastforce simp: all_values_def)

lemma all_values_if_present: "all_values P d \<Longrightarrow> (\<And>s. P (JStr s)) \<Longrightarrow> all_values P (set_if_present name v d)"
  by (simp add: set_if_present_def all_values_set)

lemma normalized_properties_Inr:
  assumes "heap_ok h" "normalized_properties h v = Inr (Some j)"
  shows "denotes h v j \<and> json_height j \<le> 256 \<and> json_ok j \<and> json_unicode j \<and> json_depth j \<le> 257 \<and> v \<noteq> VNone"
proof -
  from assms(2) have v: "v \<noteq> VNone" "fst (normalize h v (u ''properties'') {} 0) = Inr j"
    "mapping_items h v \<noteq> None"
    by (auto simp: normalized_properties_def result_simps split: if_splits)
  then have "normalize h v (u ''properties'') {} 0 = (Inr j, snd (normalize h v (u ''properties'') {} 0))"
    by (metis prod.collapse)
  from normalize_sound(1) [OF this] have d: "denotes h v j" "json_height j \<le> 256" by simp_all
  have "val_ok v" using v(3) by (cases v) (auto simp: mapping_items_def val_ok_def)
  with denotes_json_ok [OF assms(1) d(1)] d depth_le_height [of j] v(1) show ?thesis by simp
qed

lemma normalized_properties_spec:
  assumes "heap_ok h" "normalized_properties h v = Inr props"
  shows "case props of None \<Rightarrow> v = VNone | Some j \<Rightarrow> v \<noteq> VNone \<and> denotes h v j"
proof (cases props)
  case None
  with assms(2) show ?thesis by (auto simp: normalized_properties_def result_simps split: if_splits)
next
  case (Some j)
  with assms normalized_properties_Inr show ?thesis by simp
qed

lemma event_payload_Inr:
  "event_payload h key is_common e ambient env = Inr p \<longleftrightarrow>
     (\<exists>ts props. occurred_at_text (occurred_at e) env = Inr ts \<and>
        normalized_properties h (properties e) = Inr props \<and>
        p = payload_fields key (effective_event_id e env) ts is_common e (effective_visitor e ambient) props)"
  by (auto simp: event_payload_def result_simps)

lemma payload_fields_all:
  assumes "\<And>s. P (JStr s)" "\<And>b. P (JBool b)" "\<And>j. props = Some j \<Longrightarrow> P j"
  shows "all_values P (payload_fields key i ts is_common e visitor props)"
proof -
  have "all_values P [(u ''event_key'', JStr key), (u ''event_id'', JStr i),
      (u ''occurred_at'', JStr ts), (u ''is_common'', JBool is_common)]"
    using assms(1,2) by (simp add: all_values_def)
  then show ?thesis
    using assms
    by (auto simp: payload_fields_def Let_def intro!: all_values_set all_values_if_present split: option.splits)
qed

lemma payload_fields_ok: "dict_ok (payload_fields key i ts is_common e visitor props)"
proof -
  have "dict_ok [(u ''event_key'', JStr key), (u ''event_id'', x), (u ''occurred_at'', y), (u ''is_common'', z)]"
    for x y z by (simp add: dict_ok_def)
  then show ?thesis
    by (auto simp: payload_fields_def Let_def intro!: dict.ok_store set_if_present_ok split: option.splits)
qed

lemma payload_json_ok:
  assumes "heap_ok h" "event_payload h key is_common e ambient env = Inr p"
  shows "json_ok (JObj p)" "json_depth (JObj p) \<le> 258"
proof -
  from assms(2) obtain ts props where
    p: "normalized_properties h (properties e) = Inr props"
      "p = payload_fields key (effective_event_id e env) ts is_common e (effective_visitor e ambient) props"
    by (auto simp: event_payload_Inr)
  have "all_values (\<lambda>j. json_ok j \<and> json_depth j \<le> 257) p"
    unfolding p(2)
    by (rule payload_fields_all) (use normalized_properties_Inr [OF assms(1)] p(1) in auto)
  then show "json_ok (JObj p)" "json_depth (JObj p) \<le> 258"
    using payload_fields_ok p(2) by (auto simp: all_values_def list_all_iff foldr_max_le)
qed

lemma encode_payload_Inr:
  "encode_payload p = Inr bs \<longleftrightarrow> (\<exists>t. dumps (JObj p) = Inr t \<and> utf8_encode t = Some bs)"
  by (auto simp: encode_payload_def simp del: dumps.simps split: sum.splits option.splits)

lemma encode_payload_decodes:
  assumes "json_ok (JObj p)" "json_depth (JObj p) \<le> limit" "encode_payload p = Inr bs"
  shows "Option.bind (utf8_decode bs) (json_dec limit) = Some (JObj p)"
proof -
  from assms(3) obtain t where t: "dumps (JObj p) = Inr t" "utf8_encode t = Some bs"
    unfolding encode_payload_Inr by blast
  from loads_dumps [OF assms(1,2) t(1)] utf8.dec_enc [OF t(2)] show ?thesis
    by (simp add: json_dec_def)
qed

lemma build_body_Inr:
  "build_body h event_key is_common event ambient env = Inr bs \<longleftrightarrow>
     (\<exists>key e p. event_key = VStr key \<and> blank key = False \<and> event = AnEvent e \<and>
        check_string_fields e = Inr () \<and> has_identity e \<and>
        event_payload h key is_common e ambient env = Inr p \<and> encode_payload p = Inr bs)"
  by (cases event_key; cases event) (auto simp: build_body_def result_simps blank_def)

section \<open>Errors\<close>

lemma occurred_at_error: "occurred_at_text m env = Inl e \<Longrightarrow> \<exists>msg. e = ValidationError msg"
  by (auto simp: occurred_at_text_def invalid_arg_def split: moment.splits if_splits option.splits)

lemma properties_fault: "normalized_properties h v = Inl e \<Longrightarrow> \<exists>msg. e = ValidationError msg"
  using normalize_errors(1) [of h v "u ''properties''" "{}" 0]
  by (auto simp: normalized_properties_def properties_error_def invalid_arg_def result_simps
      validation_outcome_def split: if_splits)

lemma check_fields_error: "check_string_fields e = Inl er \<Longrightarrow> \<exists>msg. er = ValidationError msg"
  by (auto simp: check_string_fields_def check_field_def result_simps)

lemma not_a_text: "(\<forall>s. v \<noteq> VStr s) \<longleftrightarrow> \<not> is_str v"
  by (cases v) (simp_all add: is_str_iff)

lemma check_fields_first:
  "check_string_fields e =
     (case find (\<lambda>(name, v). v \<noteq> VNone \<and> \<not> is_str v)
        [(''email'', email e), (''phone_number'', phone_number e), (''contact_name'', contact_name e),
         (''visitor_id'', visitor_id e), (''event_id'', event_id e)] of
        Some (name, v) \<Rightarrow> Inl (ValidationError (u name @ u '' must be a string''))
      | None \<Rightarrow> Inr ())"
  by (auto simp: check_string_fields_def check_field_def checkE_def)

lemma blank_field: "v = VNone \<or> is_str v \<Longrightarrow> py_strip (or_empty v) = [] \<longleftrightarrow> (\<forall>s. v = VStr s \<longrightarrow> py_strip s = [])"
  by (cases v) (simp_all add: or_empty_def str_content_def is_str_def py_strip_def py_lstrip_def py_rstrip_def)

lemma no_identity:
  assumes "\<forall>v \<in> {email e, phone_number e}. v = VNone \<or> is_str v"
  shows "\<not> has_identity e \<longleftrightarrow> (\<forall>s. email e = VStr s \<or> phone_number e = VStr s \<longrightarrow> py_strip s = [])"
  using assms by (simp add: has_identity_def blank_field) blast

text \<open>The error of the first check that fails, once the key is a text.\<close>

lemma named_errors:
  assumes "build_body h event_key is_common event ambient env = Inl er"
    "event_key = VStr key \<and> py_strip key \<noteq> []"
  shows "case event of
      NotAnEvent \<Rightarrow> er = ValidationError (u ''event must be a cekat_event_sdk.Event'')
    | AnEvent e \<Rightarrow>
        (case find (\<lambda>(name, v). v \<noteq> VNone \<and> (\<forall>s. v \<noteq> VStr s))
           [(''email'', email e), (''phone_number'', phone_number e), (''contact_name'', contact_name e),
            (''visitor_id'', visitor_id e), (''event_id'', event_id e)] of
           Some (name, v) \<Rightarrow> er = ValidationError (u name @ u '' must be a string'')
         | None \<Rightarrow>
             if \<forall>s. email e = VStr s \<or> phone_number e = VStr s \<longrightarrow> py_strip s = []
             then er = ValidationError (u ''at least one non-empty email or phone_number is required'')
             else occurred_at e = NotADatetime \<longrightarrow> er = ValidationError (u ''occurred_at must be a datetime''))"
proof (cases event)
  case NotAnEvent
  with assms show ?thesis by (simp add: build_body_def not_an_event_def invalid_arg_def)
next
  case (AnEvent e)
  let ?fields = "[(''email'', email e), (''phone_number'', phone_number e), (''contact_name'', contact_name e),
    (''visitor_id'', visitor_id e), (''event_id'', event_id e)]"
  let ?bad = "\<lambda>(name, v). v \<noteq> VNone \<and> \<not> is_str v"
  show ?thesis
  proof (cases "find ?bad ?fields")
    case (Some f)
    then have "check_string_fields e = Inl (ValidationError (u (fst f) @ u '' must be a string''))"
      by (simp add: check_fields_first split_beta)
    with assms AnEvent have "er = ValidationError (u (fst f) @ u '' must be a string'')"
      by (simp add: build_body_def result_simps)
    with AnEvent Some show ?thesis by (simp add: not_a_text split_beta)
  next
    case None
    then have fields: "check_string_fields e = Inr ()" by (simp add: check_fields_first)
    then have "\<forall>v \<in> {email e, phone_number e}. v = VNone \<or> is_str v"
      by (simp add: check_string_fields_def check_field_def result_simps)
    note identity = no_identity [OF this]
    have "er = ValidationError (u ''at least one non-empty email or phone_number is required'')" if "\<not> has_identity e"
      using assms AnEvent fields that by (simp add: build_body_def result_simps identity_error_def invalid_arg_def)
    moreover have "er = ValidationError (u ''occurred_at must be a datetime'')"
      if "has_identity e" "occurred_at e = NotADatetime"
      using assms AnEvent fields that
      by (simp add: build_body_def result_simps event_payload_def occurred_at_text_def invalid_arg_def)
    ultimately show ?thesis
      unfolding AnEvent event_arg.case not_a_text None option.case identity [symmetric] by simp
  qed
qed

lemma event_payload_error: "event_payload h key b e ambient env = Inl er \<Longrightarrow> \<exists>msg. er = ValidationError msg"
  by (auto simp: event_payload_def Let_def result_simps dest: occurred_at_error properties_fault)

lemma encode_payload_error: "encode_payload p = Inl er \<Longrightarrow> \<exists>msg. er = ValidationError msg"
  by (auto simp: encode_payload_def invalid_arg_def simp del: dumps.simps split: sum.splits option.splits)

section \<open>What the payload holds\<close>

definition optional_field :: "pyval \<Rightarrow> json option" where
  "optional_field v = (if v = VNone then None else Some (JStr (str_content v)))"

lemma field_names_distinct:
  "distinct [u ''event_key'', u ''event_id'', u ''occurred_at'', u ''is_common'', u ''email'',
     u ''phone_number'', u ''contact_name'', u ''visitor_id'', u ''properties'']"
  by (simp add: u_def)

lemma payload_fields_get:
  fixes key i ts is_common e visitor props
  defines "p \<equiv> payload_fields key i ts is_common e visitor props"
  shows "dict_get p (u ''event_key'') = Some (JStr key)" "dict_get p (u ''event_id'') = Some (JStr i)"
    "dict_get p (u ''occurred_at'') = Some (JStr ts)" "dict_get p (u ''is_common'') = Some (JBool is_common)"
    "dict_get p (u ''email'') = optional_field (email e)"
    "dict_get p (u ''phone_number'') = optional_field (phone_number e)"
    "dict_get p (u ''contact_name'') = optional_field (contact_name e)"
    "dict_get p (u ''visitor_id'') = map_option JStr visitor"
    "dict_get p (u ''properties'') = props"
proof -
  let ?d0 = "[(u ''event_key'', JStr key), (u ''event_id'', JStr i),
      (u ''occurred_at'', JStr ts), (u ''is_common'', JBool is_common)]"
  have d0: "dict_get ?d0 k = (if k = u ''event_key'' then Some (JStr key) else if k = u ''event_id'' then Some (JStr i)
      else if k = u ''occurred_at'' then Some (JStr ts) else if k = u ''is_common'' then Some (JBool is_common) else None)" for k
    by (simp add: dict_get_def)
  note rules = p_def payload_fields_def Let_def optional_field_def dict.look_store set_if_present_get d0
  show "dict_get p (u ''event_key'') = Some (JStr key)" "dict_get p (u ''event_id'') = Some (JStr i)"
    "dict_get p (u ''occurred_at'') = Some (JStr ts)" "dict_get p (u ''is_common'') = Some (JBool is_common)"
    "dict_get p (u ''email'') = optional_field (email e)"
    "dict_get p (u ''phone_number'') = optional_field (phone_number e)"
    "dict_get p (u ''contact_name'') = optional_field (contact_name e)"
    "dict_get p (u ''visitor_id'') = map_option JStr visitor"
    "dict_get p (u ''properties'') = props"
    using field_names_distinct unfolding rules by (simp_all add: rules split: option.split)
qed

lemma payload_keys:
  "fst ` set (payload_fields key i ts is_common e visitor props) \<subseteq>
     {u ''event_key'', u ''event_id'', u ''occurred_at'', u ''is_common'', u ''email'',
      u ''phone_number'', u ''contact_name'', u ''visitor_id'', u ''properties''}"
proof -
  have k: "fst ` set (dict_set a b d) = insert a (fst ` set d)" for a b and d :: "(ustr, json) pydict"
    using dict.set_keys_store [of a b d] by (simp add: dict_keys_def)
  have s: "fst ` set (set_if_present n v d) \<subseteq> insert (u n) (fst ` set d)" for n v d
    by (auto simp: set_if_present_def k)
  show ?thesis
    using s unfolding payload_fields_def Let_def
    by (auto simp: k split: option.splits dest!: subsetD [OF s])
qed

section \<open>Events that are accepted\<close>

text \<open>
  The conditions under which an event has a body: a key with a character that is not white space,
  string fields that are strings or absent, an email or phone number, a time zone and a UTC time in
  range, properties that are a mapping and a JSON tree of bounded depth, and Unicode strings.
\<close>

definition unicode_or_none :: "pyval \<Rightarrow> bool" where
  "unicode_or_none v \<longleftrightarrow> (case v of VNone \<Rightarrow> True | VStr s \<Rightarrow> valid_unicode s | _ \<Rightarrow> False)"

definition unicode_opt :: "ustr option \<Rightarrow> bool" where
  "unicode_opt s \<longleftrightarrow> (case s of None \<Rightarrow> True | Some t \<Rightarrow> valid_unicode t)"

definition properties_acceptable :: "heap \<Rightarrow> pyval \<Rightarrow> bool" where
  "properties_acceptable h v \<longleftrightarrow>
     v = VNone \<or> (\<exists>a kvs j. v = VRef a \<and> h a = OMapping kvs \<and> denotes h v j \<and> json_height j \<le> 256)"

definition time_acceptable :: "moment \<Rightarrow> body_env \<Rightarrow> bool" where
  "time_acceptable m env \<longleftrightarrow>
     (case m of NoMoment \<Rightarrow> to_utc (env_now env) \<noteq> None | At t \<Rightarrow> to_utc t \<noteq> None | NotADatetime \<Rightarrow> False)"

definition event_acceptable :: "heap \<Rightarrow> event \<Rightarrow> ustr option \<Rightarrow> body_env \<Rightarrow> bool" where
  "event_acceptable h e ambient env \<longleftrightarrow>
     unicode_or_none (email e) \<and> unicode_or_none (phone_number e) \<and> unicode_or_none (contact_name e) \<and>
     unicode_or_none (visitor_id e) \<and> unicode_or_none (event_id e) \<and> has_identity e \<and>
     unicode_opt ambient \<and> valid_unicode (env_event_id env) \<and>
     time_acceptable (occurred_at e) env \<and> properties_acceptable h (properties e)"

lemma to_utc_offset: "to_utc t = Some r \<Longrightarrow> \<exists>i. utc_offset t = Some i"
  by (auto simp: to_utc_def split: option.splits)

lemma occurred_at_accepted: "time_acceptable m env \<Longrightarrow> \<exists>ts. occurred_at_text m env = Inr ts"
  by (auto simp: time_acceptable_def occurred_at_text_def split: moment.splits dest: to_utc_offset)

lemma occurred_at_ascii: "occurred_at_text m env = Inr ts \<Longrightarrow> is_ascii ts"
  by (auto simp: occurred_at_text_def format_utc_ascii split: moment.splits option.splits if_splits)

lemma properties_accepted:
  assumes "heap_ok h" "properties_acceptable h v"
  shows "\<exists>props. normalized_properties h v = Inr props"
proof (cases "v = VNone")
  case True
  then show ?thesis by (simp add: normalized_properties_def)
next
  case False
  with assms(2) obtain a kvs j where v: "v = VRef a" "h a = OMapping kvs" "denotes h v j" "json_height j \<le> 256"
    by (auto simp: properties_acceptable_def)
  then have "fst (normalize h v (u ''properties'') {} 0) = Inr j"
    using normalize_sound(1) denotes_accepts [OF assms(1) v(3)] acceptsD [of h v j 0 "{}" "u ''properties''"]
    by (simp add: ancestors_above_def)
  with v show ?thesis by (simp add: normalized_properties_def mapping_items_def)
qed

lemma valid_strip: "valid_unicode s \<Longrightarrow> valid_unicode (py_strip s)"
  using set_py_strip [of s] by (auto simp: valid_unicode_def list_all_iff)

lemma visitor_unicode:
  "unicode_or_none v \<Longrightarrow> normalize_visitor_id v = Some s \<Longrightarrow> valid_unicode s"
  by (cases v) (auto simp: unicode_or_none_def normalize_visitor_id_Some valid_strip)

lemma check_fields_accepted: "event_acceptable h e ambient env \<Longrightarrow> check_string_fields e = Inr ()"
proof -
  assume a: "event_acceptable h e ambient env"
  have "check_field n v = Inr ()" if "unicode_or_none v" for n v
    using that by (cases v) (auto simp: check_field_def unicode_or_none_def)
  with a show ?thesis by (simp add: event_acceptable_def check_string_fields_def)
qed

lemma payload_unicode:
  assumes "heap_ok h" "event_acceptable h e ambient env" "valid_unicode key"
    "event_payload h key is_common e ambient env = Inr p"
  shows "json_unicode (JObj p)"
proof -
  from assms(4) obtain ts props where
    p: "occurred_at_text (occurred_at e) env = Inr ts" "normalized_properties h (properties e) = Inr props"
      "p = payload_fields key (effective_event_id e env) ts is_common e (effective_visitor e ambient) props"
    by (auto simp: event_payload_Inr)
  note e = assms(2) [unfolded event_acceptable_def]
  have ids: "valid_unicode (effective_event_id e env)"
    using e by (auto simp: effective_event_id_def visitor_unicode split: option.splits)
  have "unicode_or_none (opt_val ambient)"
    using e by (auto simp: opt_val_def unicode_opt_def unicode_or_none_def split: option.splits)
  then have vis: "effective_visitor e ambient = Some v \<Longrightarrow> valid_unicode v" for v
    using e by (auto simp: effective_visitor_def visitor_unicode split: option.splits)
  have opt: "unicode_or_none w \<Longrightarrow> optional_field w = Some j \<Longrightarrow> json_unicode j" for w j
    by (cases w) (auto simp: optional_field_def unicode_or_none_def)
  have props: "props = Some j \<Longrightarrow> json_unicode j" for j
    using normalized_properties_Inr [OF assms(1), of "properties e" j] p(2) by simp
  have names: "valid_unicode (u ''event_key'')" "valid_unicode (u ''event_id'')" "valid_unicode (u ''occurred_at'')"
    "valid_unicode (u ''is_common'')" "valid_unicode (u ''email'')" "valid_unicode (u ''phone_number'')"
    "valid_unicode (u ''contact_name'')" "valid_unicode (u ''visitor_id'')" "valid_unicode (u ''properties'')"
    by (simp_all add: u_def is_surrogate_def)
  have "valid_unicode k \<and> json_unicode j" if kj: "(k, j) \<in> set p" for k j
  proof -
    have get: "dict_get p k = Some j"
      using kj payload_fields_ok p(3) by (auto simp: dict_get_def dict_ok_def)
    have "k \<in> {u ''event_key'', u ''event_id'', u ''occurred_at'', u ''is_common'', u ''email'',
      u ''phone_number'', u ''contact_name'', u ''visitor_id'', u ''properties''}"
      using payload_keys kj unfolding p(3) by fastforce
    then show ?thesis
      using get e names ids vis props opt valid_unicode_ascii [OF occurred_at_ascii [OF p(1)]] assms(3)
      by (auto simp: p(3) payload_fields_get)
  qed
  then show ?thesis by (auto simp: list_all_iff)
qed

lemma acceptable_payload:
  assumes "heap_ok h" "event_acceptable h e ambient env" "valid_unicode key"
  shows "\<exists>p bs. event_payload h key is_common e ambient env = Inr p \<and> encode_payload p = Inr bs"
proof -
  from assms(2) have e: "time_acceptable (occurred_at e) env" "properties_acceptable h (properties e)"
    by (simp_all add: event_acceptable_def)
  from occurred_at_accepted [OF e(1)] properties_accepted [OF assms(1) e(2)]
  obtain p where p: "event_payload h key is_common e ambient env = Inr p"
    unfolding event_payload_Inr by blast
  from json_bytes_total [OF payload_json_ok [OF assms(1) p] payload_unicode [OF assms p]] p
  show ?thesis unfolding encode_payload_Inr by blast
qed

lemma acceptable_body:
  assumes "heap_ok h" "event_acceptable h e ambient env" "valid_unicode key" "py_strip key \<noteq> []"
  shows "\<exists>bs. build_body h (VStr key) is_common (AnEvent e) ambient env = Inr bs"
  using acceptable_payload [OF assms(1-3), of is_common] check_fields_accepted [OF assms(2)] assms(2,4)
  by (auto simp: build_body_def event_acceptable_def)

text \<open>An event to evaluate on: an email and one property, at a time of the environment's clock.\<close>

definition sample_heap :: heap where
  "sample_heap a = (if a = 0 then OMapping [(VStr (u ''plan''), VStr (u ''pro''))] else OObject)"

definition sample_event :: event where
  "sample_event = empty_event\<lparr>email := VStr (u ''a@b.co''), properties := VRef 0\<rparr>"

definition sample_env :: body_env where
  "sample_env = \<lparr>env_now = \<lparr>dt_local = 63000000000000000, dt_tz = TzOffset 0\<rparr>,
     env_event_id = u ''id-1'', env_year_width = 4\<rparr>"

lemma sample_heap_ok: "heap_ok sample_heap"
  by (simp add: heap_ok_def sample_heap_def obj_ok_def val_ok_def)

lemma sample_denotes: "denotes sample_heap (VRef 0) (JObj (dict_of [(u ''plan'', JStr (u ''pro''))]))"
proof -
  have "valid_unicode (u ''plan'')" "valid_unicode (u ''pro'')" by (simp_all add: u_def is_surrogate_def)
  then show ?thesis
    by (intro denotes.mapping [where kvs = "[(VStr (u ''plan''), VStr (u ''pro''))]"])
      (simp_all add: sample_heap_def denotes.scalar is_container_def scalar_value_def)
qed

lemma sample_time: "to_utc (env_now sample_env) = Some 63000000000000000"
  by (simp add: sample_env_def to_utc_def utc_offset_def dt_limit_def)

lemma sample_acceptable: "event_acceptable sample_heap sample_event None sample_env"
proof -
  have "properties_acceptable sample_heap (VRef 0)"
    using sample_denotes
    by (force simp: properties_acceptable_def sample_heap_def dict_of_def)
  moreover have "valid_unicode (u ''a@b.co'')" "valid_unicode (u ''id-1'')" "py_strip (u ''a@b.co'') \<noteq> []"
    by (simp_all add: str_eval is_surrogate_def)
  ultimately show ?thesis
    by (simp add: event_acceptable_def sample_event_def empty_event_def unicode_or_none_def has_identity_def
        or_empty_def unicode_opt_def time_acceptable_def sample_time)
      (simp add: sample_env_def)
qed

lemma sample_key: "valid_unicode (u ''user_login'')" "py_strip (u ''user_login'') \<noteq> []"
  by (simp_all add: str_eval is_surrogate_def)

section \<open>Orders\<close>

lemma check_reserved_Inr: "check_reserved d ks = Inr () \<longleftrightarrow> (\<forall>k\<in>set ks. VStr k \<notin> set (dict_keys d))"
  by (induction ks) auto

lemma order_Inr:
  assumes "with_order_paid_properties amount currency event h new = Inr (e', h')"
  shows "\<exists>e props. event = AnEvent e \<and> e' = e\<lparr>properties := VRef new\<rparr> \<and>
    h' = h(new := OMapping (dict_set (VStr (u ''currency'')) currency (dict_set (VStr (u ''amount'')) amount props))) \<and>
    (properties e = VNone \<and> props = [] \<or> mapping_items h (properties e) = Some props) \<and>
    dict_get props (VStr (u ''amount'')) = None \<and> dict_get props (VStr (u ''currency'')) = None \<and>
    check_amount amount = Inr () \<and> check_currency currency = Inr ()"
proof (cases event)
  case (AnEvent e)
  with assms obtain props where
    p: "copied_properties h (properties e) = Inr props"
    and rest: "check_reserved props RESERVED_ORDER_PAID = Inr ()" "e' = e\<lparr>properties := VRef new\<rparr>"
      "h' = h(new := OMapping (dict_set (VStr (u ''currency'')) currency (dict_set (VStr (u ''amount'')) amount props)))"
      "check_amount amount = Inr ()" "check_currency currency = Inr ()"
    by (auto simp: with_order_paid_properties_def result_simps)
  have "properties e = VNone \<and> props = [] \<or> mapping_items h (properties e) = Some props"
    using p by (auto simp: copied_properties_def split: if_splits option.splits)
  with rest AnEvent show ?thesis
    unfolding check_reserved_Inr RESERVED_ORDER_PAID_def by (auto simp: dict_keys_get)
next
  case NotAnEvent
  with assms show ?thesis by (simp add: with_order_paid_properties_def result_simps)
qed

lemma order_heap_ok:
  assumes "heap_ok h" "val_ok amount" "with_order_paid_properties amount currency event h new = Inr (e', h')"
  shows "heap_ok h'"
proof -
  let ?set = "\<lambda>props. dict_set (VStr (u ''currency'')) currency (dict_set (VStr (u ''amount'')) amount props)"
  from assms(3) obtain e :: event and props where
    e: "h' = h(new := OMapping (?set props))"
      "properties e = VNone \<and> props = [] \<or> mapping_items h (properties e) = Some props"
      "check_currency currency = Inr ()"
    using order_Inr [OF assms(3)] by blast
  have ok: "dict_ok props \<and> list_all (\<lambda>p. val_ok (snd p)) props"
  proof (cases "properties e")
    case (VRef a)
    then show ?thesis
      using e(2) assms(1)
      by (auto simp: mapping_items_def heap_ok_def obj_ok_def dict_ok_def split: pyobj.splits dest: spec [of _ a])
  qed (use e(2) in \<open>auto simp: mapping_items_def\<close>)
  have "val_ok currency"
    using e(3) by (auto simp: check_currency_def result_simps is_str_iff val_ok_def)
  then have "list_all (\<lambda>p. val_ok (snd p)) (?set props)"
    using ok assms(2) set_dict_set [of _ _ props] set_dict_set [of _ _ "dict_set (VStr (u ''amount'')) amount props"]
    by (fastforce simp: list_all_iff)
  moreover have "dict_ok (?set props)" using ok by (simp add: dict.ok_store)
  ultimately show ?thesis
    using assms(1) by (auto simp: e(1) heap_ok_def obj_ok_def dict_ok_def)
qed

section \<open>The body of an event\<close>

lemma body_fields:
  assumes "heap_ok h" "build_body h event_key is_common event ambient env = Inr bs" "258 \<le> limit"
  shows "\<exists>key e p ts. event_key = VStr key \<and> py_strip key \<noteq> [] \<and> event = AnEvent e \<and> has_identity e \<and>
    Option.bind (utf8_decode bs) (json_dec limit) = Some (JObj p) \<and>
    dict_get p (u ''event_key'') = Some (JStr key) \<and>
    dict_get p (u ''event_id'') = Some (JStr (effective_event_id e env)) \<and>
    occurred_at_text (occurred_at e) env = Inr ts \<and> dict_get p (u ''occurred_at'') = Some (JStr ts) \<and>
    dict_get p (u ''is_common'') = Some (JBool is_common) \<and>
    dict_get p (u ''email'') = optional_field (email e) \<and>
    dict_get p (u ''phone_number'') = optional_field (phone_number e) \<and>
    dict_get p (u ''contact_name'') = optional_field (contact_name e) \<and>
    dict_get p (u ''visitor_id'') = map_option JStr (effective_visitor e ambient) \<and>
    (case dict_get p (u ''properties'') of
       None \<Rightarrow> properties e = VNone | Some j \<Rightarrow> properties e \<noteq> VNone \<and> denotes h (properties e) j) \<and>
    set (dict_keys p) \<subseteq> {u ''event_key'', u ''event_id'', u ''occurred_at'', u ''is_common'', u ''email'',
      u ''phone_number'', u ''contact_name'', u ''visitor_id'', u ''properties''}"
proof -
  from assms(2) obtain key e p where k: "event_key = VStr key" "blank key = False" "event = AnEvent e"
    "has_identity e" "event_payload h key is_common e ambient env = Inr p" "encode_payload p = Inr bs"
    unfolding build_body_Inr by blast
  note ok = payload_json_ok [OF assms(1) k(5)]
  have dec: "Option.bind (utf8_decode bs) (json_dec limit) = Some (JObj p)"
    by (rule encode_payload_decodes [OF ok(1) order_trans [OF ok(2) assms(3)] k(6)])
  from k(5) obtain ts props where
    p: "occurred_at_text (occurred_at e) env = Inr ts" "normalized_properties h (properties e) = Inr props"
      "p = payload_fields key (effective_event_id e env) ts is_common e (effective_visitor e ambient) props"
    by (auto simp: event_payload_Inr)
  note g = payload_fields_get [of key "effective_event_id e env" ts is_common e "effective_visitor e ambient" props, folded p(3)]
  have props: "case dict_get p (u ''properties'') of None \<Rightarrow> properties e = VNone
      | Some j \<Rightarrow> properties e \<noteq> VNone \<and> denotes h (properties e) j"
    unfolding g(9) by (rule normalized_properties_spec [OF assms(1) p(2)])
  have key: "py_strip key \<noteq> []" using k(2) by (simp add: blank_def)
  have keys: "set (dict_keys p) \<subseteq> {u ''event_key'', u ''event_id'', u ''occurred_at'', u ''is_common'', u ''email'',
      u ''phone_number'', u ''contact_name'', u ''visitor_id'', u ''properties''}"
    using payload_keys unfolding p(3) dict_keys_def set_map .
  show ?thesis
    by (intro exI [of _ key] exI [of _ e] exI [of _ p] exI [of _ ts] conjI)
      (rule k(1,3,4) key dec g(1-8) p(1) props keys)+
qed

lemma denotes_mapping_get:
  assumes "heap_ok h" "h a = OMapping kvs" "denotes h (VRef a) j" "(VStr k, v) \<in> set kvs"
  shows "\<exists>d w. j = JObj d \<and> dict_get d k = Some w \<and> denotes h v w"
proof -
  from denotes_container(2) [OF assms(2,3)] obtain kjs where
    kjs: "j = JObj (dict_of kjs)" "list_all2 (denotes_field h) kvs kjs"
    unfolding denotes_field_def [abs_def] by blast
  have "distinct (map fst kvs)" using assms(1,2) by (auto simp: heap_ok_def obj_ok_def dest: spec [of _ a])
  from denotes_fields_distinct [OF kjs(2) this] have ok: "dict_ok kjs" .
  from kjs(2) assms(4) obtain q where q: "q \<in> set kjs" "denotes_field h (VStr k, v) q"
    using list_all2_ex_right by metis
  then have "dict_get kjs k = Some (snd q)"
    using ok map_of_is_SomeI [of kjs k "snd q"]
    by (auto simp: dict_get_def dict_ok_def denotes_field_def)
  with kjs(1) ok q(2) show ?thesis by (auto simp: dict_of_distinct denotes_field_def)
qed

lemma order_body:
  assumes "heap_ok h" "val_ok amount" "258 \<le> limit"
    "with_order_paid_properties amount currency event h new = Inr (e', h')"
    "build_body h' (VStr key) True (AnEvent e') ambient env = Inr bs"
  shows "\<exists>p d ja c. Option.bind (utf8_decode bs) (json_dec limit) = Some (JObj p) \<and>
    dict_get p (u ''event_key'') = Some (JStr key) \<and> dict_get p (u ''is_common'') = Some (JBool True) \<and>
    dict_get p (u ''properties'') = Some (JObj d) \<and>
    dict_get d (u ''amount'') = Some ja \<and> denotes h' amount ja \<and>
    currency = VStr c \<and> dict_get d (u ''currency'') = Some (JStr c)"
proof -
  from order_Inr [OF assms(4)] obtain e :: event and props where
    e: "e' = e\<lparr>properties := VRef new\<rparr>"
      "h' = h(new := OMapping (dict_set (VStr (u ''currency'')) currency (dict_set (VStr (u ''amount'')) amount props)))"
      "check_currency currency = Inr ()" by blast
  let ?kvs = "dict_set (VStr (u ''currency'')) currency (dict_set (VStr (u ''amount'')) amount props)"
  have ne: "u ''currency'' \<noteq> u ''amount''" by (simp add: u_def)
  have "dict_get ?kvs (VStr (u ''amount'')) = Some amount" "dict_get ?kvs (VStr (u ''currency'')) = Some currency"
    using ne by (simp_all add: dict.look_store)
  then have kvs: "(VStr (u ''amount''), amount) \<in> set ?kvs" "(VStr (u ''currency''), currency) \<in> set ?kvs"
    by (simp_all add: dict_get_def map_of_SomeD)
  note ok = order_heap_ok [OF assms(1,2,4)]
  from body_fields [OF ok assms(5,3)] obtain p where
    p: "Option.bind (utf8_decode bs) (json_dec limit) = Some (JObj p)"
      "dict_get p (u ''event_key'') = Some (JStr key)" "dict_get p (u ''is_common'') = Some (JBool True)"
      "case dict_get p (u ''properties'') of None \<Rightarrow> properties e' = VNone
       | Some j \<Rightarrow> properties e' \<noteq> VNone \<and> denotes h' (properties e') j" by auto
  from p(4) e(1) obtain j where j: "dict_get p (u ''properties'') = Some j" "denotes h' (VRef new) j"
    by (auto split: option.splits)
  have new: "h' new = OMapping ?kvs" by (simp add: e(2))
  from denotes_mapping_get [OF ok new j(2) kvs(1)] obtain d ja where
    d: "j = JObj d" "dict_get d (u ''amount'') = Some ja" "denotes h' amount ja" by blast
  from denotes_mapping_get [OF ok new j(2) kvs(2)] d(1) obtain jc where
    jc: "dict_get d (u ''currency'') = Some jc" "denotes h' currency jc" by auto
  from e(3) obtain c where c: "currency = VStr c"
    by (auto simp: check_currency_def result_simps is_str_iff)
  with jc(2) have "jc = JStr c"
    by (auto elim!: denotes.cases simp: scalar_value_def split: if_splits)
  with p(1-3) j d jc c show ?thesis by blast
qed

section \<open>Properties\<close>

text \<open>
  C4: the request body of an event is UTF-8 JSON text that decodes, with any nesting limit from 258
  on, to an object with the event key, the event's identifier or a new one, the time, the flag, the
  string fields that are present, the effective visitor (the event's own before the ambient one) and
  the value its properties denote; it has no other field.
\<close>

theorem body_carries_event:
  assumes "heap_ok h" "build_body h event_key is_common event ambient env = Inr bs" "258 \<le> limit"
  shows "\<exists>key e p ts. event_key = VStr key \<and> py_strip key \<noteq> [] \<and> event = AnEvent e \<and> has_identity e \<and>
    Option.bind (utf8_decode bs) (json_dec limit) = Some (JObj p) \<and>
    dict_get p (u ''event_key'') = Some (JStr key) \<and>
    dict_get p (u ''event_id'') = Some (JStr (effective_event_id e env)) \<and>
    occurred_at_text (occurred_at e) env = Inr ts \<and> dict_get p (u ''occurred_at'') = Some (JStr ts) \<and>
    dict_get p (u ''is_common'') = Some (JBool is_common) \<and>
    dict_get p (u ''email'') = optional_field (email e) \<and>
    dict_get p (u ''phone_number'') = optional_field (phone_number e) \<and>
    dict_get p (u ''contact_name'') = optional_field (contact_name e) \<and>
    dict_get p (u ''visitor_id'') = map_option JStr (effective_visitor e ambient) \<and>
    (case dict_get p (u ''properties'') of
       None \<Rightarrow> properties e = VNone | Some j \<Rightarrow> properties e \<noteq> VNone \<and> denotes h (properties e) j) \<and>
    set (dict_keys p) \<subseteq> {u ''event_key'', u ''event_id'', u ''occurred_at'', u ''is_common'', u ''email'',
      u ''phone_number'', u ''contact_name'', u ''visitor_id'', u ''properties''}"
  by (rule body_fields [OF assms])

theorem body_carries_event_witness:
  "\<exists>bs p. build_body sample_heap (VStr (u ''user_login'')) True (AnEvent sample_event) None sample_env = Inr bs \<and>
     Option.bind (utf8_decode bs) (json_dec 258) = Some (JObj p) \<and>
     dict_get p (u ''event_key'') = Some (JStr (u ''user_login''))"
proof -
  obtain bs where bs: "build_body sample_heap (VStr (u ''user_login'')) True (AnEvent sample_event) None sample_env = Inr bs"
    using acceptable_body [OF sample_heap_ok sample_acceptable sample_key] by blast
  from body_carries_event [OF sample_heap_ok bs order_refl] bs show ?thesis by blast
qed

text \<open>
  C9: an event that is acceptable, with a key that is valid Unicode and not blank, always has a
  body.
\<close>

theorem acceptable_event_has_body:
  assumes "heap_ok h" "event_acceptable h e ambient env" "valid_unicode key" "py_strip key \<noteq> []"
  shows "\<exists>bs. build_body h (VStr key) is_common (AnEvent e) ambient env = Inr bs"
  by (rule acceptable_body [OF assms])

theorem acceptable_event_has_body_witness:
  "\<exists>bs. build_body sample_heap (VStr (u ''user_login'')) False (AnEvent sample_event) None sample_env = Inr bs"
  by (rule acceptable_event_has_body [OF sample_heap_ok sample_acceptable sample_key])

text \<open>
  C22: a body that cannot be built is reported as a \<open>ValidationError\<close>, and its text names the first
  check that failed: the key, the argument that is no event, the first of the five text fields that is
  not a text, the missing identity, or a time that is not a \<open>datetime\<close>. The mappings and time zones the
  event holds are ones whose own methods do not raise.
\<close>

theorem build_body_errors:
  assumes "build_body h event_key is_common event ambient env = Inl er"
  shows "(\<exists>message. er = ValidationError message) \<and>
    ((\<forall>key. event_key = VStr key \<longrightarrow> py_strip key = []) \<longrightarrow>
       er = ValidationError (u ''event_key must be a non-empty string'')) \<and>
    (\<forall>key. event_key = VStr key \<and> py_strip key \<noteq> [] \<longrightarrow>
       (case event of
          NotAnEvent \<Rightarrow> er = ValidationError (u ''event must be a cekat_event_sdk.Event'')
        | AnEvent e \<Rightarrow>
            (case find (\<lambda>(name, v). v \<noteq> VNone \<and> (\<forall>s. v \<noteq> VStr s))
               [(''email'', email e), (''phone_number'', phone_number e), (''contact_name'', contact_name e),
                (''visitor_id'', visitor_id e), (''event_id'', event_id e)] of
               Some (name, v) \<Rightarrow> er = ValidationError (u name @ u '' must be a string'')
             | None \<Rightarrow>
                 if \<forall>s. email e = VStr s \<or> phone_number e = VStr s \<longrightarrow> py_strip s = []
                 then er = ValidationError (u ''at least one non-empty email or phone_number is required'')
                 else occurred_at e = NotADatetime \<longrightarrow> er = ValidationError (u ''occurred_at must be a datetime''))))"
proof (intro conjI allI impI)
  show "\<exists>message. er = ValidationError message"
    using assms
    by (auto simp: build_body_def not_an_event_def identity_error_def invalid_arg_def result_simps
        split: pyval.splits event_arg.splits if_splits
        dest: check_fields_error event_payload_error encode_payload_error)
  show "er = ValidationError (u ''event_key must be a non-empty string'')"
    if "\<forall>key. event_key = VStr key \<longrightarrow> py_strip key = []"
    using assms that by (auto simp: build_body_def invalid_arg_def split: pyval.splits)
qed (rule named_errors [OF assms], auto)

theorem build_body_errors_witness:
  "build_body sample_heap (VStr (u ''user_login'')) True NotAnEvent None sample_env =
     Inl (ValidationError (u ''event must be a cekat_event_sdk.Event''))"
proof (cases "build_body sample_heap (VStr (u ''user_login'')) True NotAnEvent None sample_env")
  case (Inl er)
  from build_body_errors [OF Inl] sample_key Inl show ?thesis by simp
qed (simp add: build_body_Inr)

text \<open>
  C24: the time in a body is the event's instant in UTC, cut to milliseconds, in the form
  \<open>YYYY-MM-DDTHH:MM:SS.mmmZ\<close>: the text reads back as that instant. This holds for every accepted
  instant where the C library pads years to four digits, and from the year 1000 on everywhere.
\<close>

theorem occurred_at_reads_back:
  assumes "occurred_at_text m env = Inr s" "m = At t \<or> m = NoMoment \<and> t = env_now env"
    "env_year_width env = 4 \<or> env_year_width env \<le> 4 \<and> 1000 \<le> fst (fst (dt_fields (the (to_utc t))))"
  shows "\<exists>r. to_utc t = Some r \<and> read_utc_ms s = Some (r div 1000) \<and> length s = 24 \<and>
    map (nth s) [4, 7, 10, 13, 16, 19, 23] = u ''--T::.Z''"
proof -
  from assms(1,2) obtain r where r: "to_utc t = Some r" "s = format_utc_ms (env_year_width env) r"
    by (auto simp: occurred_at_text_def split: option.splits if_splits)
  with assms(3) have "s = format_utc_ms 4 r" using format_utc_unpadded by auto
  with r(1) show ?thesis
    using read_format_utc [OF to_utc_bound] format_utc_separators [OF to_utc_bound] by blast
qed

theorem occurred_at_reads_back_witness:
  "\<exists>s. occurred_at_text NoMoment sample_env = Inr s \<and> read_utc_ms s = Some 63000000000000 \<and> length s = 24"
proof -
  obtain s where s: "occurred_at_text NoMoment sample_env = Inr s"
    using occurred_at_accepted [of NoMoment sample_env] sample_time by (auto simp: time_acceptable_def)
  have "env_year_width sample_env = 4" by (simp add: sample_env_def)
  with occurred_at_reads_back [OF s, of "env_now sample_env"] s sample_time show ?thesis by auto
qed

text \<open>
  C23: the order arguments become properties of a copy of the event: nothing else of the event
  changes, the caller's properties object is left alone and must not hold them already, and every
  other property is kept.
\<close>

theorem order_arguments_added:
  assumes "with_order_paid_properties amount currency event h new = Inr (e', h')"
  shows "\<exists>e props d. event = AnEvent e \<and> e' = e\<lparr>properties := VRef new\<rparr> \<and>
    (properties e = VNone \<and> props = [] \<or> mapping_items h (properties e) = Some props) \<and>
    h' = h(new := OMapping d) \<and>
    d = props @ [(VStr (u ''amount''), amount), (VStr (u ''currency''), currency)] \<and>
    VStr (u ''amount'') \<notin> set (dict_keys props) \<and> VStr (u ''currency'') \<notin> set (dict_keys props)"
proof -
  from assms obtain e props where
    e: "event = AnEvent e" "e' = e\<lparr>properties := VRef new\<rparr>"
      "h' = h(new := OMapping (dict_set (VStr (u ''currency'')) currency (dict_set (VStr (u ''amount'')) amount props)))"
      "properties e = VNone \<and> props = [] \<or> mapping_items h (properties e) = Some props"
      "dict_get props (VStr (u ''amount'')) = None" "dict_get props (VStr (u ''currency'')) = None"
    using order_Inr [OF assms] by blast
  have a: "dict_set (VStr (u ''amount'')) amount props = props @ [(VStr (u ''amount''), amount)]"
    by (rule dict_set_new) (rule e(5))
  have ne: "u ''currency'' \<noteq> u ''amount''" by (simp add: u_def)
  have "dict_get (dict_set (VStr (u ''amount'')) amount props) (VStr (u ''currency'')) = None"
    using e(6) ne by (simp add: dict.look_store)
  from dict_set_new [OF this, of currency]
  have "dict_set (VStr (u ''currency'')) currency (dict_set (VStr (u ''amount'')) amount props) =
      props @ [(VStr (u ''amount''), amount), (VStr (u ''currency''), currency)]"
    by (simp add: a)
  with e show ?thesis by (auto simp: dict_keys_get)
qed

theorem order_arguments_added_witness:
  "\<exists>e' h'. with_order_paid_properties (VInt 5) (VStr (u ''USD'')) (AnEvent sample_event) sample_heap 7 = Inr (e', h') \<and>
     h' 7 = OMapping [(VStr (u ''plan''), VStr (u ''pro'')), (VStr (u ''amount''), VInt 5),
       (VStr (u ''currency''), VStr (u ''USD''))]"
proof -
  have m: "mapping_items sample_heap (VRef 0) = Some [(VStr (u ''plan''), VStr (u ''pro''))]"
    by (simp add: mapping_items_def sample_heap_def)
  have c: "check_currency (VStr (u ''USD'')) = Inr ()" by (simp add: check_currency_def str_eval)
  have n: "u ''plan'' \<noteq> u ''amount''" "u ''plan'' \<noteq> u ''currency''" by (simp_all add: u_def)
  have "\<exists>e' h'. with_order_paid_properties (VInt 5) (VStr (u ''USD'')) (AnEvent sample_event) sample_heap 7 = Inr (e', h')"
    using n by (simp add: with_order_paid_properties_def check_amount_def c sample_event_def copied_properties_def m
        RESERVED_ORDER_PAID_def dict_keys_def)
  then obtain e' h' where r:
    "with_order_paid_properties (VInt 5) (VStr (u ''USD'')) (AnEvent sample_event) sample_heap 7 = Inr (e', h')" by blast
  from order_arguments_added [OF r] m r show ?thesis by (auto simp: sample_event_def)
qed

text \<open>
  A signaling NaN given as the amount is not rejected with a \<open>ValidationError\<close>:
  \<open>math.isfinite\<close> raises \<open>ValueError\<close>, which reaches the caller.
\<close>

theorem signaling_nan_escapes:
  "with_order_paid_properties (VDecimal DecSNaN) currency event h new = Inl signaling_nan_error"
  by (simp add: with_order_paid_properties_def check_amount_def f_of_decimal_def)

end
