(* ===== verification/Client.thy ===== *)
theory Client
  imports Shared Body
begin

text \<open>
  \<open>client.py\<close>: the blocking client. An attempt builds and sends the request, reads the body in
  chunks until it ends, is cut off or is late, and closes the response; the loop of \<open>_track\<close>
  repeats it. A history of actions is threaded through every operation.
\<close>

section \<open>The client and its arguments\<close>

datatype http_client_arg = NoHttpClient | SyncHttpClient | AsyncHttpClient | OtherObject

record client =
  client_settings :: settings
  owns_http :: bool

definition new_client ::
  "platform \<Rightarrow> pyval \<Rightarrow> pyval \<Rightarrow> pyval \<Rightarrow> pyval \<Rightarrow> http_client_arg \<Rightarrow> error + client" where
  "new_client pf access_token base_url timeout retry_count http_client =
     bindE (create_settings pf access_token base_url timeout retry_count) (\<lambda>st.
       if http_client \<noteq> NoHttpClient \<and> http_client \<noteq> SyncHttpClient
       then Inl (invalid_arg ''http_client must be an httpx.Client'')
       else Inr \<lparr>client_settings = st, owns_http = (http_client = NoHttpClient)\<rparr>)"

text \<open>What a call reads: the objects, the context, the values for new fields, an address for a new
  dictionary and the interpreter's nesting limit.\<close>

record call_inputs =
  in_heap :: heap
  in_ctx :: ctx
  in_env :: body_env
  in_new :: addr
  in_limit :: nat

section \<open>One attempt\<close>

fun read_chunks ::
  "pyfloat \<Rightarrow> pyfloat \<Rightarrow> (bytes \<times> pyfloat) list \<Rightarrow> foreign option \<Rightarrow> bounded_buffer
    \<Rightarrow> bounded_buffer \<times> foreign option" where
  "read_chunks deadline timeout [] failure buffer = (buffer, failure)"
| "read_chunks deadline timeout ((chunk, now) # chunks) failure buffer =
     (let (more, buffer') = buffer_append chunk buffer in
      if \<not> more then (buffer', None)
      else if f_lt deadline now then (buffer', Some (body_timeout timeout))
      else read_chunks deadline timeout chunks failure buffer')"

definition client_attempt ::
  "surroundings \<Rightarrow> settings \<Rightarrow> bytes \<Rightarrow> action list \<Rightarrow> (foreign + received_response) \<times> action list" where
  "client_attempt s st content h =
     (let deadline = f_add (clock s h) (settings_timeout st); request = build_request st content in
      case build_fails s request of
        Some e \<Rightarrow> (Inl e, h)
      | None \<Rightarrow>
          (let h1 = h @ [Sent request] in
           case sends s h1 of
             Inl e \<Rightarrow> (Inl e, h1)
           | Inr response \<Rightarrow>
               (let (buffer, failure) =
                      read_chunks deadline (settings_timeout st) (resp_chunks response) (resp_failure response) [];
                    h2 = h1 @ [Opened, Closed]
                in case resp_close response of
                     Some e \<Rightarrow> (Inl e, h2)
                   | None \<Rightarrow>
                       (case failure of
                          None \<Rightarrow> (Inr (received response buffer None), h2)
                        | Some e \<Rightarrow>
                            if is_http_error e then (Inr (received response buffer (Some e)), h2)
                            else (Inl e, h2)))))"

section \<open>The loop\<close>

definition draw_delay :: "surroundings \<Rightarrow> nat \<Rightarrow> ustr option \<Rightarrow> action list \<Rightarrow> pyfloat option" where
  "draw_delay s retry_number retry_after h =
     retry_delay (int retry_number) retry_after (random_uniform s h) (wall_clock s h)"

function client_loop ::
  "surroundings \<Rightarrow> settings \<Rightarrow> nat \<Rightarrow> bytes \<Rightarrow> nat \<Rightarrow> action list
    \<Rightarrow> (error + acknowledgement) \<times> action list" where
  "client_loop s st limit content n h =
     (let attempts = n + 1 in
      case client_attempt s st content h of
        (Inl e, h1) \<Rightarrow>
          if \<not> is_transport_error e then (Inl (Foreign e), h1)
          else if settings_retry_count st < attempts then (Inl (transport_error e attempts), h1)
          else (let h2 = h1 @ [Slept (delay_or_zero (draw_delay s attempts None h1))]
                in case pauses s h2 of
                     Some e' \<Rightarrow> (Inl (Foreign e'), h2)
                   | None \<Rightarrow> client_loop s st limit content attempts h2)
      | (Inr response, h1) \<Rightarrow>
          if is_retryable_status (status_code response) \<and> attempts \<le> settings_retry_count st
          then (case draw_delay s attempts (header response (u ''Retry-After'')) h1 of
                  None \<Rightarrow> (decode_response limit response attempts, h1)
                | Some delay \<Rightarrow>
                    (let h2 = h1 @ [Slept delay]
                     in case pauses s h2 of
                          Some e' \<Rightarrow> (Inl (Foreign e'), h2)
                        | None \<Rightarrow> client_loop s st limit content attempts h2))
          else (decode_response limit response attempts, h1))"
  by pat_completeness auto
termination
  by (relation "measure (\<lambda>(s, st, limit, content, n, h). Suc (settings_retry_count st) - n)") auto

declare client_loop.simps [simp del]

section \<open>The operations\<close>

definition client_track ::
  "surroundings \<Rightarrow> client \<Rightarrow> call_inputs \<Rightarrow> heap \<Rightarrow> pyval \<Rightarrow> bool \<Rightarrow> event_arg \<Rightarrow> action list
    \<Rightarrow> (error + acknowledgement) \<times> action list" where
  "client_track s cl inp objects event_key is_common event h =
     (case build_body objects event_key is_common event (current_visitor_id (in_ctx inp)) (in_env inp) of
        Inl e \<Rightarrow> (Inl e, h)
      | Inr content \<Rightarrow> client_loop s (client_settings cl) (in_limit inp) content 0 h)"

definition client_track_order ::
  "surroundings \<Rightarrow> client \<Rightarrow> call_inputs \<Rightarrow> string \<Rightarrow> pyval \<Rightarrow> pyval \<Rightarrow> event_arg \<Rightarrow> action list
    \<Rightarrow> (error + acknowledgement) \<times> action list" where
  "client_track_order s cl inp name amount currency event h =
     (case with_order_paid_properties amount currency event (in_heap inp) (in_new inp) of
        Inl e \<Rightarrow> (Inl e, h)
      | Inr (event', objects) \<Rightarrow> client_track s cl inp objects (VStr (u name)) True (AnEvent event') h)"

definition client_user_registration where
  "client_user_registration s cl inp event h =
     client_track s cl inp (in_heap inp) (VStr (u ''user_registration'')) True event h"

definition client_user_login where
  "client_user_login s cl inp event h =
     client_track s cl inp (in_heap inp) (VStr (u ''user_login'')) True event h"

definition client_order_created where
  "client_order_created s cl inp amount currency event h =
     client_track_order s cl inp ''order_created'' amount currency event h"

definition client_form_submitted where
  "client_form_submitted s cl inp event h =
     client_track s cl inp (in_heap inp) (VStr (u ''form_submitted'')) True event h"

definition client_order_paid where
  "client_order_paid s cl inp amount currency event h =
     client_track_order s cl inp ''order_paid'' amount currency event h"

definition client_custom_event where
  "client_custom_event s cl inp event_key event h =
     client_track s cl inp (in_heap inp) event_key False event h"

definition client_close :: "client \<Rightarrow> action list \<Rightarrow> action list" where
  "client_close cl h = (if owns_http cl then h @ [HttpClosed] else h)"

text \<open>A \<open>with\<close> block: \<open>__enter__\<close> returns the client, \<open>__exit__\<close> closes it and lets every outcome pass.\<close>

definition client_with :: "client \<Rightarrow> (client \<Rightarrow> action list \<Rightarrow> 'r \<times> action list) \<Rightarrow> action list \<Rightarrow> 'r \<times> action list" where
  "client_with cl block h = (case block cl h of (r, h1) \<Rightarrow> (r, client_close cl h1))"

section \<open>The loop as an instance\<close>

lemma client_attempt_adds:
  "\<exists>ws. attempt_log (build_fails s (build_request st content) = None) (build_request st content) ws \<and> snd (client_attempt s st content h) = h @ ws"
  by (auto simp: client_attempt_def attempt_log_def Let_def split: option.splits sum.splits prod.splits)

interpretation sync: retrying "build_fails s (build_request st content) = None"
  "build_request st content" "client_attempt s st content" "pauses s"
  "draw_delay s" "decode_response limit" "settings_retry_count st" "client_loop s st limit content"
  for s st content limit
  by unfold_locales (rule client_attempt_adds, subst client_loop.simps, simp only: Let_def)

text \<open>The law of the random generator: every draw keeps its bounds.\<close>

definition draws_ok :: "surroundings \<Rightarrow> bool" where
  "draws_ok s \<longleftrightarrow> (\<forall>h. uniform_ok (random_uniform s h))"

lemma draw_delay_policy: "draws_ok s \<Longrightarrow> policy_ok (draw_delay s)"
  unfolding policy_ok_def draws_ok_def draw_delay_def good_wait_def
  using policy.delay_capped policy.delay_without_request by blast

end
