(* ===== verification/AsyncClient.thy ===== *)
theory AsyncClient
  imports Client
begin

text \<open>
  \<open>async_client.py\<close>: the asynchronous client, on one task. Its attempt runs in a cancel scope whose
  deadline may fire before the headers arrive or while a chunk is awaited (\<open>deadline_scope\<close>). A
  cancellation from outside is the exception \<open>CancelledExn\<close>, raised by whatever the task awaits:
  sending, reading, or waiting before a retry.
\<close>

definition new_async_client ::
  "platform \<Rightarrow> pyval \<Rightarrow> pyval \<Rightarrow> pyval \<Rightarrow> pyval \<Rightarrow> http_client_arg \<Rightarrow> error + client" where
  "new_async_client pf access_token base_url timeout retry_count http_client =
     bindE (create_settings pf access_token base_url timeout retry_count) (\<lambda>st.
       if http_client \<noteq> NoHttpClient \<and> http_client \<noteq> AsyncHttpClient
       then Inl (invalid_arg ''http_client must be an httpx.AsyncClient'')
       else Inr \<lparr>client_settings = st, owns_http = (http_client = NoHttpClient)\<rparr>)"

section \<open>One attempt\<close>

definition headers_timeout :: "pyfloat \<Rightarrow> foreign" where
  "headers_timeout timeout =
     TransportExn (u ''TimeoutException'')
       (u ''no response headers within '' @ general_format timeout @ u '' seconds'')"

text \<open>The buffer, the failure, and whether the scope fired: after \<open>Some k\<close> more chunks, or never.\<close>

fun async_read_chunks ::
  "nat option \<Rightarrow> (bytes \<times> pyfloat) list \<Rightarrow> foreign option \<Rightarrow> bounded_buffer
    \<Rightarrow> bounded_buffer \<times> foreign option \<times> bool" where
  "async_read_chunks fires chunks failure buffer =
     (if fires = Some 0 then (buffer, None, True)
      else (case chunks of
              [] \<Rightarrow> (buffer, failure, False)
            | (chunk, now) # chunks' \<Rightarrow>
                (let (more, buffer') = buffer_append chunk buffer in
                 if \<not> more then (buffer', None, False)
                 else async_read_chunks (map_option (\<lambda>k. k - 1) fires) chunks' failure buffer')))"

declare async_read_chunks.simps [simp del]

definition fires_after :: "scope_fires \<Rightarrow> nat option" where
  "fires_after f = (case f of AfterChunks k \<Rightarrow> Some k | _ \<Rightarrow> None)"

definition async_attempt ::
  "surroundings \<Rightarrow> settings \<Rightarrow> bytes \<Rightarrow> action list \<Rightarrow> (foreign + received_response) \<times> action list" where
  "async_attempt s st content h =
     (let request = build_request st content in
      case build_fails s request of
        Some e \<Rightarrow> (Inl e, h)
      | None \<Rightarrow>
          (let h1 = h @ [Sent request]; scope = deadline_scope s h1 in
           if scope = BeforeHeaders then (Inl (headers_timeout (settings_timeout st)), h1)
           else (case sends s h1 of
             Inl e \<Rightarrow> (Inl e, h1)
           | Inr response \<Rightarrow>
               (let (buffer, failure, fired) =
                      async_read_chunks (fires_after scope) (resp_chunks response) (resp_failure response) [];
                    h2 = h1 @ [Opened, Closed]
                in case resp_close response of
                     Some e \<Rightarrow> (Inl e, h2)
                   | None \<Rightarrow>
                       if fired
                       then (Inr (received response buffer (Some (body_timeout (settings_timeout st)))), h2)
                       else (case failure of
                               None \<Rightarrow> (Inr (received response buffer None), h2)
                             | Some e \<Rightarrow>
                                 if is_http_error e then (Inr (received response buffer (Some e)), h2)
                                 else (Inl e, h2))))))"

section \<open>The loop\<close>

function async_loop ::
  "surroundings \<Rightarrow> settings \<Rightarrow> nat \<Rightarrow> bytes \<Rightarrow> nat \<Rightarrow> action list
    \<Rightarrow> (error + acknowledgement) \<times> action list" where
  "async_loop s st limit content n h =
     (let attempts = n + 1 in
      case async_attempt s st content h of
        (Inl e, h1) \<Rightarrow>
          if \<not> is_transport_error e then (Inl (Foreign e), h1)
          else if settings_retry_count st < attempts then (Inl (transport_error e attempts), h1)
          else (let h2 = h1 @ [Slept (delay_or_zero (draw_delay s attempts None h1))]
                in case pauses s h2 of
                     Some e' \<Rightarrow> (Inl (Foreign e'), h2)
                   | None \<Rightarrow> async_loop s st limit content attempts h2)
      | (Inr response, h1) \<Rightarrow>
          if is_retryable_status (status_code response) \<and> attempts \<le> settings_retry_count st
          then (case draw_delay s attempts (header response (u ''Retry-After'')) h1 of
                  None \<Rightarrow> (decode_response limit response attempts, h1)
                | Some delay \<Rightarrow>
                    (let h2 = h1 @ [Slept delay]
                     in case pauses s h2 of
                          Some e' \<Rightarrow> (Inl (Foreign e'), h2)
                        | None \<Rightarrow> async_loop s st limit content attempts h2))
          else (decode_response limit response attempts, h1))"
  by pat_completeness auto
termination
  by (relation "measure (\<lambda>(s, st, limit, content, n, h). Suc (settings_retry_count st) - n)") auto

declare async_loop.simps [simp del]

section \<open>The operations\<close>

definition async_track ::
  "surroundings \<Rightarrow> client \<Rightarrow> call_inputs \<Rightarrow> heap \<Rightarrow> pyval \<Rightarrow> bool \<Rightarrow> event_arg \<Rightarrow> action list
    \<Rightarrow> (error + acknowledgement) \<times> action list" where
  "async_track s cl inp objects event_key is_common event h =
     (case build_body objects event_key is_common event (current_visitor_id (in_ctx inp)) (in_env inp) of
        Inl e \<Rightarrow> (Inl e, h)
      | Inr content \<Rightarrow> async_loop s (client_settings cl) (in_limit inp) content 0 h)"

definition async_track_order ::
  "surroundings \<Rightarrow> client \<Rightarrow> call_inputs \<Rightarrow> string \<Rightarrow> pyval \<Rightarrow> pyval \<Rightarrow> event_arg \<Rightarrow> action list
    \<Rightarrow> (error + acknowledgement) \<times> action list" where
  "async_track_order s cl inp name amount currency event h =
     (case with_order_paid_properties amount currency event (in_heap inp) (in_new inp) of
        Inl e \<Rightarrow> (Inl e, h)
      | Inr (event', objects) \<Rightarrow> async_track s cl inp objects (VStr (u name)) True (AnEvent event') h)"

definition async_user_registration where
  "async_user_registration s cl inp event h =
     async_track s cl inp (in_heap inp) (VStr (u ''user_registration'')) True event h"

definition async_user_login where
  "async_user_login s cl inp event h =
     async_track s cl inp (in_heap inp) (VStr (u ''user_login'')) True event h"

definition async_order_created where
  "async_order_created s cl inp amount currency event h =
     async_track_order s cl inp ''order_created'' amount currency event h"

definition async_form_submitted where
  "async_form_submitted s cl inp event h =
     async_track s cl inp (in_heap inp) (VStr (u ''form_submitted'')) True event h"

definition async_order_paid where
  "async_order_paid s cl inp amount currency event h =
     async_track_order s cl inp ''order_paid'' amount currency event h"

definition async_custom_event where
  "async_custom_event s cl inp event_key event h =
     async_track s cl inp (in_heap inp) event_key False event h"

definition async_close :: "client \<Rightarrow> action list \<Rightarrow> action list" where
  "async_close cl h = (if owns_http cl then h @ [HttpClosed] else h)"

text \<open>An \<open>async with\<close> block.\<close>

definition async_with :: "client \<Rightarrow> (client \<Rightarrow> action list \<Rightarrow> 'r \<times> action list) \<Rightarrow> action list \<Rightarrow> 'r \<times> action list" where
  "async_with cl block h = (case block cl h of (r, h1) \<Rightarrow> (r, async_close cl h1))"

section \<open>The loop as an instance\<close>

lemma async_attempt_adds:
  "\<exists>ws. attempt_log (build_fails s (build_request st content) = None) (build_request st content) ws \<and> snd (async_attempt s st content h) = h @ ws"
  by (auto simp: async_attempt_def attempt_log_def Let_def split: option.splits sum.splits prod.splits)

interpretation async: retrying "build_fails s (build_request st content) = None"
  "build_request st content" "async_attempt s st content" "pauses s"
  "draw_delay s" "decode_response limit" "settings_retry_count st" "async_loop s st limit content"
  for s st content limit
  by unfold_locales (rule async_attempt_adds, subst async_loop.simps, simp only: Let_def)

end
