(* ===== verification/Calls.thy ===== *)
theory Calls
  imports AsyncClient
begin

text \<open>
  The calls of both clients: bounds, how they end, what they send, their agreement, cancellation and
  recovery. The lemmas of the retry loop come from the interpretations \<open>sync\<close> and \<open>async\<close> of
  \<open>retrying\<close>.
\<close>

section \<open>Both clients at once\<close>

text \<open>The attempt and the call of each client.\<close>

definition both_clients where
  "both_clients = {(client_attempt, client_track), (async_attempt, async_track)}"

lemma both_clients_cases [consumes 1, case_names blocking asynchronous]:
  assumes "(attempt, track) \<in> both_clients"
    and "attempt = client_attempt \<Longrightarrow> track = client_track \<Longrightarrow> P"
    and "attempt = async_attempt \<Longrightarrow> track = async_track \<Longrightarrow> P"
  shows P
  using assms by (auto simp: both_clients_def)

lemma track_runs:
  assumes "build_body objects key is_common event (current_visitor_id (in_ctx inp)) (in_env inp) = Inr content"
  shows "client_track s cl inp objects key is_common event h =
      client_loop s (client_settings cl) (in_limit inp) content 0 h"
    "async_track s cl inp objects key is_common event h =
      async_loop s (client_settings cl) (in_limit inp) content 0 h"
  using assms by (simp_all add: client_track_def async_track_def)

lemma call_bounds:
  assumes "(attempt, track) \<in> both_clients" "draws_ok s"
    "build_body objects key is_common event (current_visitor_id (in_ctx inp)) (in_env inp) = Inr content"
    "track s cl inp objects key is_common event h = (r, h')"
  shows "\<exists>ws k. h' = h @ ws \<and>
    bounded_call (build_request (client_settings cl) content) (settings_retry_count (client_settings cl)) ws \<and>
    k \<le> settings_retry_count (client_settings cl) + 1 \<and> reports r k \<and>
    length (filter is_sent ws) = (if build_fails s (build_request (client_settings cl) content) = None then k else 0)"
  using assms(1)
proof (cases rule: both_clients_cases)
  case blocking
  with assms(4) have "client_loop s (client_settings cl) (in_limit inp) content 0 h = (r, h')"
    by (simp add: track_runs [OF assms(3)])
  from sync.call_summary [OF draw_delay_policy [OF assms(2)] decode_reports this] show ?thesis .
next
  case asynchronous
  with assms(4) have "async_loop s (client_settings cl) (in_limit inp) content 0 h = (r, h')"
    by (simp add: track_runs [OF assms(3)])
  from async.call_summary [OF draw_delay_policy [OF assms(2)] decode_reports this] show ?thesis .
qed

lemma call_endings:
  assumes "(attempt, track) \<in> both_clients"
    "build_body objects key is_common event (current_visitor_id (in_ctx inp)) (in_env inp) = Inr content"
    "track s cl inp objects key is_common event h = (r, h')"
  shows "\<exists>k h1. 0 < k \<and> k \<le> settings_retry_count (client_settings cl) + 1 \<and>
    call_ends (attempt s (client_settings cl) content) (pauses s) (draw_delay s) (decode_response (in_limit inp))
      (settings_retry_count (client_settings cl)) k h1 r h'"
  using assms(1)
proof (cases rule: both_clients_cases)
  case blocking
  with assms(3) have "client_loop s (client_settings cl) (in_limit inp) content 0 h = (r, h')"
    by (simp add: track_runs [OF assms(2)])
  from sync.run_ends [OF this] show ?thesis by (simp add: blocking)
next
  case asynchronous
  with assms(3) have "async_loop s (client_settings cl) (in_limit inp) content 0 h = (r, h')"
    by (simp add: track_runs [OF assms(2)])
  from async.run_ends [OF this] show ?thesis by (simp add: asynchronous)
qed

section \<open>Agreement\<close>

text \<open>
  No deadline passes: no scope fires, and no chunk is read after the attempt's deadline on the
  blocking client's clock.
\<close>

definition in_time :: "surroundings \<Rightarrow> settings \<Rightarrow> bool" where
  "in_time s st \<longleftrightarrow>
     (\<forall>h q. deadline_scope s (h @ [Sent q]) = Never \<and>
        (case sends s (h @ [Sent q]) of
           Inl _ \<Rightarrow> True
         | Inr response \<Rightarrow>
             list_all (\<lambda>c. \<not> f_lt (f_add (clock s h) (settings_timeout st)) (snd c)) (resp_chunks response)))"

lemma async_read_never [simp]:
  "async_read_chunks None [] failure buffer = (buffer, failure, False)"
  "async_read_chunks None ((chunk, now) # chunks) failure buffer =
     (let (more, buffer') = buffer_append chunk buffer in
      if \<not> more then (buffer', None, False) else async_read_chunks None chunks failure buffer')"
  by (simp_all add: async_read_chunks.simps [of None "[]"] async_read_chunks.simps [of None "(chunk, now) # chunks"]
      split: prod.split)

lemma read_chunks_agree:
  "list_all (\<lambda>c. \<not> f_lt deadline (snd c)) chunks \<Longrightarrow>
    async_read_chunks None chunks failure buffer =
      (fst (read_chunks deadline timeout chunks failure buffer),
       snd (read_chunks deadline timeout chunks failure buffer), False)"
  by (induction deadline timeout chunks failure buffer rule: read_chunks.induct)
    (auto simp: Let_def split: prod.split)

lemma attempts_agree:
  assumes "in_time s st"
  shows "async_attempt s st content h = client_attempt s st content h"
proof -
  let ?q = "build_request st content"
  have never: "deadline_scope s (h @ [Sent ?q]) = Never" using assms by (simp add: in_time_def)
  show ?thesis
  proof (cases "sends s (h @ [Sent ?q])")
    case (Inl e)
    with never show ?thesis by (simp add: async_attempt_def client_attempt_def Let_def split: option.split)
  next
    case (Inr response)
    let ?deadline = "f_add (clock s h) (settings_timeout st)"
    have "case sends s (h @ [Sent ?q]) of Inl _ \<Rightarrow> True
        | Inr response \<Rightarrow> list_all (\<lambda>c. \<not> f_lt ?deadline (snd c)) (resp_chunks response)"
      using assms unfolding in_time_def by blast
    with Inr have "list_all (\<lambda>c. \<not> f_lt ?deadline (snd c)) (resp_chunks response)" by simp
    from read_chunks_agree [OF this, of _ _ "settings_timeout st"] never Inr show ?thesis
      by (simp add: async_attempt_def client_attempt_def Let_def fires_after_def split_beta
          split: option.split)
  qed
qed

lemma loops_agree:
  assumes "in_time s st"
  shows "async_loop s st limit content n h = client_loop s st limit content n h"
proof (rule sync.run_unique)
  fix m g
  show "async_loop s st limit content m g =
    (case sync.step s st content limit m g of
       Inl stop \<Rightarrow> stop
     | Inr h2 \<Rightarrow> (case pauses s h2 of Some e \<Rightarrow> (Inl (Foreign e), h2)
                 | None \<Rightarrow> async_loop s st limit content (m + 1) h2))"
    unfolding async.run_step [of s st limit content m g] async.step_def sync.step_def attempts_agree [OF assms] ..
qed

section \<open>Whole responses\<close>

lemma buffer_more: "fst (buffer_append chunk buffer) \<longleftrightarrow> length (snd (buffer_append chunk buffer)) \<le> MAX_RESPONSE_BYTES"
  by (simp add: buffer_append_def Let_def)

lemma read_chunks_whole:
  assumes "list_all (\<lambda>c. \<not> f_lt deadline (snd c)) chunks"
    "length buffer + length (concat (map fst chunks)) \<le> MAX_RESPONSE_BYTES"
  shows "read_chunks deadline timeout chunks failure buffer = (buffer @ concat (map fst chunks), failure)"
  using assms
proof (induction chunks arbitrary: buffer)
  case (Cons c chunks)
  obtain chunk now where c: "c = (chunk, now)" by fastforce
  with Cons.prems have "buffer_append chunk buffer = (True, buffer @ chunk)"
    by (simp add: buffer_append_def Let_def MAX_RESPONSE_BYTES_def)
  with c Cons show ?case by simp
qed simp

text \<open>
  A server that gives no response to \<open>j\<close> attempts and then the whole of one: the number of waits so
  far tells the attempts.
\<close>

definition recovers_after :: "surroundings \<Rightarrow> nat \<Rightarrow> nat \<Rightarrow> http_response \<Rightarrow> bool" where
  "recovers_after s w j response \<longleftrightarrow>
     (\<forall>h q. build_fails s q = None \<and> pauses s h = None \<and>
        (length (waits h) < w + j \<longrightarrow> (\<exists>name message. sends s (h @ [Sent q]) = Inl (TransportExn name message))) \<and>
        (length (waits h) = w + j \<longrightarrow> sends s (h @ [Sent q]) = Inr response)) \<and>
     resp_close response = None \<and> resp_failure response = None \<and>
     length (concat (map fst (resp_chunks response))) \<le> MAX_RESPONSE_BYTES"

lemma recovering_attempts:
  assumes "recovers_after s w j response" "in_time s st"
  shows "length (waits g) < w + j \<Longrightarrow> \<exists>e. fst (client_attempt s st content g) = Inl e \<and> is_transport_error e"
    "length (waits g) = w + j \<Longrightarrow> fst (client_attempt s st content g) =
      Inr (received response (concat (map fst (resp_chunks response))) None)"
proof -
  let ?q = "build_request st content"
  from assms(1) have r: "build_fails s ?q = None" "resp_close response = None" "resp_failure response = None"
    "length (concat (map fst (resp_chunks response))) \<le> MAX_RESPONSE_BYTES"
    by (simp_all add: recovers_after_def)
  show "\<exists>e. fst (client_attempt s st content g) = Inl e \<and> is_transport_error e" if "length (waits g) < w + j"
  proof -
    from assms(1) that obtain name message where "sends s (g @ [Sent ?q]) = Inl (TransportExn name message)"
      unfolding recovers_after_def by blast
    with r(1) show ?thesis by (simp add: client_attempt_def Let_def is_transport_error_def)
  qed
  show "fst (client_attempt s st content g) = Inr (received response (concat (map fst (resp_chunks response))) None)"
    if "length (waits g) = w + j"
  proof -
    from assms(1) that have sent: "sends s (g @ [Sent ?q]) = Inr response"
      unfolding recovers_after_def by blast
    have "case sends s (g @ [Sent ?q]) of Inl _ \<Rightarrow> True
        | Inr response \<Rightarrow> list_all (\<lambda>c. \<not> f_lt (f_add (clock s g) (settings_timeout st)) (snd c)) (resp_chunks response)"
      using assms(2) unfolding in_time_def by blast
    with sent have "list_all (\<lambda>c. \<not> f_lt (f_add (clock s g) (settings_timeout st)) (snd c)) (resp_chunks response)"
      by simp
    from read_chunks_whole [OF this, of "[]"] r sent show ?thesis
      by (simp add: client_attempt_def Let_def)
  qed
qed

section \<open>Closing\<close>

lemma new_client_Inr:
  "new_client pf token base_url timeout retry_count arg = Inr cl \<Longrightarrow> owns_http cl \<longleftrightarrow> arg = NoHttpClient"
  "new_async_client pf token base_url timeout retry_count arg = Inr cl \<Longrightarrow> owns_http cl \<longleftrightarrow> arg = NoHttpClient"
  by (auto simp: new_client_def new_async_client_def result_simps split: if_splits)

section \<open>Surroundings to evaluate on\<close>

definition quiet_response :: http_response where
  "quiet_response = \<lparr>resp_status = 204, resp_reason = u ''No Content'', resp_headers = [],
     resp_chunks = [], resp_failure = None, resp_close = None\<rparr>"

text \<open>A server that answers the third attempt only.\<close>

definition third_time :: surroundings where
  "third_time = \<lparr>build_fails = (\<lambda>_. None),
     sends = (\<lambda>h. if length (waits h) < 2 then Inl (TransportExn (u ''ConnectError'') (u ''refused''))
       else Inr quiet_response),
     pauses = (\<lambda>_. None), clock = (\<lambda>_. f_zero), random_uniform = (\<lambda>_ a b. a), wall_clock = (\<lambda>_. 0),
     deadline_scope = (\<lambda>_. Never)\<rparr>"

definition sample_client :: client where
  "sample_client = \<lparr>client_settings = \<lparr>settings_url = u ''https://t.cekat.ai/api/events/ingest'',
     settings_headers = [], settings_timeout = round_ratio False 3 1, settings_retry_count = 2\<rparr>,
     owns_http = True\<rparr>"

definition sample_inputs :: call_inputs where
  "sample_inputs = \<lparr>in_heap = sample_heap, in_ctx = fresh_ctx 0 None, in_env = sample_env, in_new = 7, in_limit = 1000\<rparr>"

lemma third_time_ok: "draws_ok third_time" "in_time third_time st"
  by (simp_all add: draws_ok_def third_time_def uniform_lower in_time_def quiet_response_def split: sum.split)

lemma third_time_recovers: "recovers_after third_time 0 2 quiet_response"
  by (simp add: recovers_after_def third_time_def quiet_response_def MAX_RESPONSE_BYTES_def)

lemma sample_visitor: "current_visitor_id (in_ctx sample_inputs) = None" "in_env sample_inputs = sample_env"
  by (simp_all add: sample_inputs_def fresh_ctx_def current_visitor_id_def)

lemma sample_body:
  "\<exists>content. build_body sample_heap (VStr (u ''user_login'')) True (AnEvent sample_event)
     (current_visitor_id (in_ctx sample_inputs)) (in_env sample_inputs) = Inr content"
  unfolding sample_visitor by (rule acceptable_body [OF sample_heap_ok sample_acceptable sample_key])

lemma blocking_client: "(client_attempt, client_track) \<in> both_clients"
  "(async_attempt, async_track) \<in> both_clients"
  by (simp_all add: both_clients_def)

text \<open>A server that refuses every connection, and a client that does not retry.\<close>

definition refusing :: surroundings where
  "refusing = third_time\<lparr>sends := (\<lambda>_. Inl (TransportExn (u ''ConnectError'') (u ''refused'')))\<rparr>"

definition single_client :: client where
  "single_client = sample_client\<lparr>client_settings := (client_settings sample_client)\<lparr>settings_retry_count := 0\<rparr>\<rparr>"

lemma refused_attempt:
  "client_attempt refusing st content h =
     (Inl (TransportExn (u ''ConnectError'') (u ''refused'')), h @ [Sent (build_request st content)])"
  by (simp add: client_attempt_def refusing_def third_time_def Let_def)

lemma single_retries: "settings_retry_count (client_settings single_client) = 0"
  by (simp add: single_client_def)

lemma refused_call:
  assumes "build_body objects key is_common event (current_visitor_id (in_ctx inp)) (in_env inp) = Inr content"
  shows "client_track refusing single_client inp objects key is_common event h =
    (Inl (transport_error (TransportExn (u ''ConnectError'') (u ''refused'')) 1),
     h @ [Sent (build_request (client_settings single_client) content)])"
  unfolding track_runs [OF assms]
  by (subst client_loop.simps) (simp add: refused_attempt single_retries is_transport_error_def)

text \<open>A task that is cancelled while it waits before its second attempt.\<close>

definition cancelled_wait :: surroundings where
  "cancelled_wait = refusing\<lparr>pauses := (\<lambda>_. Some CancelledExn)\<rparr>"

lemma cancelled_attempt:
  "async_attempt cancelled_wait st content h =
     (Inl (TransportExn (u ''ConnectError'') (u ''refused'')), h @ [Sent (build_request st content)])"
  by (simp add: async_attempt_def cancelled_wait_def refusing_def third_time_def Let_def)

lemma cancelled_pause: "pauses cancelled_wait h = Some CancelledExn"
  by (simp add: cancelled_wait_def)

lemma sample_retries: "settings_retry_count (client_settings sample_client) = 2"
  by (simp add: sample_client_def)

lemma cancelled_call:
  assumes "build_body objects key is_common event (current_visitor_id (in_ctx inp)) (in_env inp) = Inr content"
  shows "\<exists>d. async_track cancelled_wait sample_client inp objects key is_common event [] =
    (Inl (Foreign CancelledExn), [Sent (build_request (client_settings sample_client) content), Slept d])"
  unfolding track_runs [OF assms]
  by (subst async_loop.simps)
    (simp add: cancelled_attempt cancelled_pause sample_retries is_transport_error_def)

text \<open>An order of the sample event: the objects after the arguments were added.\<close>

definition order_items :: "(pyval \<times> pyval) list" where
  "order_items = [(VStr (u ''plan''), VStr (u ''pro'')), (VStr (u ''amount''), VInt 5), (VStr (u ''currency''), VStr (u ''USD''))]"

definition order_event :: event where
  "order_event = sample_event\<lparr>properties := VRef 7\<rparr>"

lemma sample_order:
  "with_order_paid_properties (VInt 5) (VStr (u ''USD'')) (AnEvent sample_event) sample_heap 7 =
     Inr (order_event, sample_heap(7 := OMapping order_items))"
proof -
  have "mapping_items sample_heap (VRef 0) = Some [(VStr (u ''plan''), VStr (u ''pro''))]"
    by (simp add: mapping_items_def sample_heap_def)
  moreover have "check_currency (VStr (u ''USD'')) = Inr ()" by (simp add: check_currency_def str_eval)
  moreover have "u ''plan'' \<noteq> u ''amount''" "u ''plan'' \<noteq> u ''currency''" "u ''amount'' \<noteq> u ''currency''"
    by (simp_all add: u_def)
  moreover have "properties sample_event = VRef 0" by (simp add: sample_event_def)
  ultimately show ?thesis
    by (simp add: with_order_paid_properties_def check_amount_def copied_properties_def
        RESERVED_ORDER_PAID_def dict_keys_def order_items_def order_event_def)
qed

lemma sample_order_acceptable:
  "event_acceptable (sample_heap(7 := OMapping order_items)) order_event None sample_env"
proof -
  let ?h = "sample_heap(7 := OMapping order_items)"
  let ?kjs = "[(u ''plan'', JStr (u ''pro'')), (u ''amount'', JInt 5), (u ''currency'', JStr (u ''USD''))]"
  have v: "valid_unicode (u ''plan'')" "valid_unicode (u ''pro'')" "valid_unicode (u ''amount'')"
    "valid_unicode (u ''currency'')" "valid_unicode (u ''USD'')"
    by (simp_all add: u_def is_surrogate_def)
  have "denotes ?h (VStr (u ''pro'')) (JStr (u ''pro''))" "denotes ?h (VInt 5) (JInt 5)"
    "denotes ?h (VStr (u ''USD'')) (JStr (u ''USD''))"
    using v by (simp_all add: denotes.scalar is_container_def scalar_value_def MAX_SAFE_INTEGER_def)
  then have d: "denotes ?h (VRef 7) (JObj (dict_of ?kjs))"
    using v by (intro denotes.mapping [where kvs = order_items]) (simp_all add: order_items_def)
  have "u ''plan'' \<noteq> u ''amount''" "u ''plan'' \<noteq> u ''currency''" "u ''amount'' \<noteq> u ''currency''"
    by (simp_all add: u_def)
  then have "json_height (JObj (dict_of ?kjs)) \<le> 256" by (simp add: dict_of_def)
  with d have "properties_acceptable ?h (VRef 7)" by (auto simp: properties_acceptable_def)
  with sample_acceptable show ?thesis
    by (simp add: event_acceptable_def order_event_def has_identity_def)
qed

lemma sample_order_content:
  "\<exists>content. build_body (sample_heap(7 := OMapping order_items)) (VStr (u ''order_paid'')) True (AnEvent order_event)
     (current_visitor_id (in_ctx sample_inputs)) (in_env sample_inputs) = Inr content"
proof -
  have "val_ok (VInt 5)" by (simp add: val_ok_def)
  from order_heap_ok [OF sample_heap_ok this sample_order]
  have ok: "heap_ok (sample_heap(7 := OMapping order_items))" .
  have "valid_unicode (u ''order_paid'')" "py_strip (u ''order_paid'') \<noteq> []"
    by (simp_all add: str_eval is_surrogate_def)
  from acceptable_body [OF ok sample_order_acceptable this] show ?thesis unfolding sample_visitor .
qed

lemma refusing_ok: "draws_ok refusing"
  by (simp add: draws_ok_def refusing_def third_time_def uniform_lower)

section \<open>Properties\<close>

text \<open>
  C1: a call of either client with an event that has no body does nothing and reports the
  \<open>ValidationError\<close>; otherwise it sends one and the same request at most once more than the retry
  count, waits at most once for each retry, each time between zero and five seconds, closes every
  response it opens before it goes on, and an error of the SDK says how many requests were sent.
\<close>

theorem calls_are_bounded:
  assumes "(attempt, track) \<in> both_clients" "draws_ok s"
    "track s cl inp objects key is_common event h = (r, h')"
  shows "case build_body objects key is_common event (current_visitor_id (in_ctx inp)) (in_env inp) of
      Inl e \<Rightarrow> r = Inl e \<and> h' = h
    | Inr content \<Rightarrow> \<exists>ws k. h' = h @ ws \<and>
        bounded_call (build_request (client_settings cl) content) (settings_retry_count (client_settings cl)) ws \<and>
        k \<le> settings_retry_count (client_settings cl) + 1 \<and> reports r k \<and>
        length (filter is_sent ws) =
          (if build_fails s (build_request (client_settings cl) content) = None then k else 0)"
proof (cases "build_body objects key is_common event (current_visitor_id (in_ctx inp)) (in_env inp)")
  case (Inl e)
  with assms(1,3) show ?thesis by (auto simp: both_clients_def client_track_def async_track_def)
next
  case (Inr content)
  from call_bounds [OF assms(1,2) Inr assms(3)] show ?thesis by (simp add: Inr)
qed

theorem calls_are_bounded_witness:
  "\<exists>r content ws. client_track third_time sample_client sample_inputs sample_heap (VStr (u ''user_login'')) True
     (AnEvent sample_event) [] = (r, ws) \<and>
     bounded_call (build_request (client_settings sample_client) content)
       (settings_retry_count (client_settings sample_client)) ws"
proof -
  obtain content where content: "build_body sample_heap (VStr (u ''user_login'')) True (AnEvent sample_event)
     (current_visitor_id (in_ctx sample_inputs)) (in_env sample_inputs) = Inr content"
    using sample_body ..
  obtain r h' where call: "client_track third_time sample_client sample_inputs sample_heap (VStr (u ''user_login'')) True
     (AnEvent sample_event) [] = (r, h')" by (rule prod.exhaust)
  from calls_are_bounded [OF blocking_client(1), OF third_time_ok(1) call]
  have "bounded_call (build_request (client_settings sample_client) content)
       (settings_retry_count (client_settings sample_client)) h'"
    unfolding content sum.case append_Nil by (elim exE conjE) (simp only:)
  with call show ?thesis by (intro exI conjI)
qed

text \<open>
  C2: how a call of either client ends (\<open>call_ends\<close>): with what its last response says, which is
  not to be retried, came to the last attempt or asked for a longer wait than five seconds; with a
  \<open>TransportError\<close> when the last attempt got no response; or with an exception of another kind, a
  cancellation among them, unchanged.
\<close>

theorem calls_end:
  assumes "(attempt, track) \<in> both_clients"
    "build_body objects key is_common event (current_visitor_id (in_ctx inp)) (in_env inp) = Inr content"
    "track s cl inp objects key is_common event h = (r, h')"
  shows "\<exists>k h1. 0 < k \<and> k \<le> settings_retry_count (client_settings cl) + 1 \<and>
    call_ends (attempt s (client_settings cl) content) (pauses s) (draw_delay s) (decode_response (in_limit inp))
      (settings_retry_count (client_settings cl)) k h1 r h'"
  by (rule call_endings [OF assms])

theorem calls_end_witness:
  "\<exists>content k h1. 0 < k \<and> k \<le> settings_retry_count (client_settings sample_client) + 1 \<and>
    call_ends (async_attempt third_time (client_settings sample_client) content) (pauses third_time)
      (draw_delay third_time) (decode_response (in_limit sample_inputs))
      (settings_retry_count (client_settings sample_client)) k h1
      (fst (async_track third_time sample_client sample_inputs sample_heap (VStr (u ''user_login'')) True
         (AnEvent sample_event) []))
      (snd (async_track third_time sample_client sample_inputs sample_heap (VStr (u ''user_login'')) True
         (AnEvent sample_event) []))"
proof -
  obtain content where content: "build_body sample_heap (VStr (u ''user_login'')) True (AnEvent sample_event)
     (current_visitor_id (in_ctx sample_inputs)) (in_env sample_inputs) = Inr content"
    using sample_body ..
  from calls_end [OF blocking_client(2), OF content prod.collapse [symmetric]] show ?thesis by blast
qed

text \<open>An attempt is determined by what it leaves: two that end in the same history are the same.\<close>

lemma attempt_start_unique:
  assumes "attempt_log built q ws" "attempt_log built q vs" "g @ ws = h @ vs"
  shows "g = h"
  using assms by (auto simp: attempt_log_def split: if_splits)

lemma attempts_log:
  assumes "(attempt, track) \<in> both_clients"
  shows "\<exists>ws. attempt_log (build_fails s (build_request st content) = None) (build_request st content) ws \<and>
    snd (attempt s st content h) = h @ ws"
  using assms by (cases rule: both_clients_cases) (simp_all add: client_attempt_adds async_attempt_adds)

text \<open>Decoding a response never gives an unknown delivery.\<close>

lemma decode_known: "decode_response limit resp k = Inl err \<Longrightarrow> \<not> delivery_outcome_unknown err"
  using decode_outcome [where limit = limit and r = resp and n = k]
  by (auto simp: recursion_error_def split: if_splits)

text \<open>
  The ending of a call whose last actions are an attempt without a response: that attempt was the last
  one allowed, and the call reports its exception.
\<close>

lemma unanswered_ending:
  assumes "(attempt, track) \<in> both_clients" "build_fails s (build_request st content) = None"
    "call_ends (attempt s st content) pause delay finish retries k h1 r h'"
    "attempt s st content g = (Inl cause, h')" "is_transport_error cause"
  shows "r = Inl (transport_error cause (retries + 1))"
proof -
  obtain ws where ws: "attempt_log True (build_request st content) ws" "h' = g @ ws"
    using attempts_log [OF assms(1), of s st content g] assms(2,4) by auto
  obtain vs where vs: "attempt_log True (build_request st content) vs" "snd (attempt s st content h1) = h1 @ vs"
    using attempts_log [OF assms(1), of s st content h1] assms(2) by auto
  have "g @ ws \<noteq> h2 @ [Slept d]" for h2 d
    using ws(1) by (auto simp: attempt_log_def append_eq_append_conv2 Cons_eq_append_conv)
  then have "snd (attempt s st content h1) = h'"
    using assms(3) ws(2) by (auto simp: call_ends_def split: prod.splits sum.splits)
  with ws vs have "h1 = g" using attempt_start_unique by metis
  with assms(3-5) \<open>\<And>h2 d. g @ ws \<noteq> h2 @ [Slept d]\<close> ws(2) show ?thesis
    by (auto simp: call_ends_def)
qed

lemma unknown_ending:
  assumes "call_ends (attempt) pause delay (decode_response limit) retries k h1 (Inl err) h'"
    "delivery_outcome_unknown err"
  shows "\<exists>cause. attempt h1 = (Inl cause, h') \<and> is_transport_error cause"
  using assms by (cases "attempt h1")
    (auto simp: call_ends_def dest: decode_known decode_known [OF sym] split: sum.splits)

text \<open>
  C3: a call whose request can be built reports an unknown delivery exactly when its last attempt got no
  response, ending in a transport failure. Then the error is a \<open>TransportError\<close> that carries that
  failure, no retry was left, and a request was sent for each of the attempts it counts.
\<close>

theorem unknown_delivery:
  assumes "(attempt, track) \<in> both_clients" "draws_ok s"
    "build_body objects key is_common event (current_visitor_id (in_ctx inp)) (in_env inp) = Inr content"
    "build_fails s (build_request (client_settings cl) content) = None"
    "track s cl inp objects key is_common event h = (r, h')"
  shows "((\<exists>err. r = Inl err \<and> delivery_outcome_unknown err) \<longleftrightarrow>
      (\<exists>cause h1. attempt s (client_settings cl) content h1 = (Inl cause, h') \<and> is_transport_error cause)) \<and>
    (\<forall>cause h1. attempt s (client_settings cl) content h1 = (Inl cause, h') \<and> is_transport_error cause \<longrightarrow>
      r = Inl (transport_error cause (settings_retry_count (client_settings cl) + 1)) \<and>
      length (filter is_sent h') = length (filter is_sent h) + settings_retry_count (client_settings cl) + 1)"
proof -
  let ?attempt = "attempt s (client_settings cl) content"
  obtain k h1 where ends: "call_ends ?attempt (pauses s) (draw_delay s) (decode_response (in_limit inp))
      (settings_retry_count (client_settings cl)) k h1 r h'"
    using call_endings [OF assms(1,3,5)] by blast
  have reported: "r = Inl (transport_error cause (settings_retry_count (client_settings cl) + 1))"
    if "?attempt g = (Inl cause, h')" "is_transport_error cause" for cause g
    using unanswered_ending [OF assms(1,4) ends that] .
  have sent: "length (filter is_sent h') = length (filter is_sent h) + settings_retry_count (client_settings cl) + 1"
    if "r = Inl (transport_error cause (settings_retry_count (client_settings cl) + 1))" for cause
    using call_bounds [OF assms(1,2,3,5)] assms(4) that by (auto simp: reports_def transport_error_def)
  show ?thesis
  proof (intro conjI iffI)
    assume "\<exists>err. r = Inl err \<and> delivery_outcome_unknown err"
    then obtain err where err: "r = Inl err" "delivery_outcome_unknown err" by blast
    from unknown_ending [OF ends [unfolded err(1)] err(2)]
    show "\<exists>cause h1. ?attempt h1 = (Inl cause, h') \<and> is_transport_error cause" by blast
  next
    assume "\<exists>cause h1. ?attempt h1 = (Inl cause, h') \<and> is_transport_error cause"
    with reported show "\<exists>err. r = Inl err \<and> delivery_outcome_unknown err"
      by (auto simp: transport_error_def)
  qed (use reported sent in blast)
qed

theorem unknown_delivery_witness:
  "\<exists>content. let (r, h') = client_track refusing single_client sample_inputs sample_heap (VStr (u ''user_login'')) True
        (AnEvent sample_event) []
    in r = Inl (transport_error (TransportExn (u ''ConnectError'') (u ''refused'')) 1) \<and>
      length (filter is_sent h') = 1 \<and> (\<exists>err. r = Inl err \<and> delivery_outcome_unknown err)"
proof -
  obtain content where content: "build_body sample_heap (VStr (u ''user_login'')) True (AnEvent sample_event)
     (current_visitor_id (in_ctx sample_inputs)) (in_env sample_inputs) = Inr content"
    using sample_body ..
  let ?call = "client_track refusing single_client sample_inputs sample_heap (VStr (u ''user_login'')) True
    (AnEvent sample_event) []"
  have ok: "draws_ok refusing" "build_fails refusing q = None" for q
    using third_time_ok(1) by (simp_all add: draws_ok_def refusing_def) (simp add: third_time_def)
  have last: "client_attempt refusing (client_settings single_client) content [] =
      (Inl (TransportExn (u ''ConnectError'') (u ''refused'')), snd ?call)"
    by (simp add: refused_attempt refused_call [OF content])
  have transport: "is_transport_error (TransportExn (u ''ConnectError'') (u ''refused''))"
    by (simp add: is_transport_error_def)
  note w = unknown_delivery [OF blocking_client(1) ok(1) content ok(2) prod.collapse [symmetric], of single_client "[]"]
  from conjunct1 [OF w] last transport have "\<exists>err. fst ?call = Inl err \<and> delivery_outcome_unknown err" by blast
  moreover from conjunct2 [OF w] last transport
  have "fst ?call = Inl (transport_error (TransportExn (u ''ConnectError'') (u ''refused'')) 1) \<and>
      length (filter is_sent (snd ?call)) = 1"
    by (fastforce simp: single_retries)
  ultimately show ?thesis by (simp add: split_beta Let_def)
qed

text \<open>
  C11: as long as no deadline passes, the asynchronous client does what the blocking one does: the
  same requests, waits and closings, the same result.
\<close>

theorem clients_agree:
  assumes "in_time s (client_settings cl)"
  shows "async_track s cl inp objects key is_common event h = client_track s cl inp objects key is_common event h \<and>
    async_track_order s cl inp name amount currency event h = client_track_order s cl inp name amount currency event h"
  using loops_agree [OF assms]
  by (simp add: async_track_def client_track_def async_track_order_def client_track_order_def
      split: sum.split prod.split)

theorem clients_agree_witness:
  "async_track third_time sample_client sample_inputs sample_heap (VStr (u ''user_login'')) True (AnEvent sample_event) [] =
   client_track third_time sample_client sample_inputs sample_heap (VStr (u ''user_login'')) True (AnEvent sample_event) []"
  by (rule conjunct1 [OF clients_agree [OF third_time_ok(2)]])

text \<open>
  C6: a cancellation of an asynchronous call passes through unchanged, and the call does nothing more:
  if it interrupts a wait, that wait is the last action; if it interrupts an attempt, what that attempt
  did is.
\<close>

theorem cancellation_is_final:
  assumes "build_body objects key is_common event (current_visitor_id (in_ctx inp)) (in_env inp) = Inr content"
    "async_track s cl inp objects key is_common event h = (r, h @ us @ a # vs)"
    "(\<exists>d. a = Slept d) \<and> pauses s (h @ us @ [a]) = Some CancelledExn \<or>
     (\<exists>q. a = Sent q) \<and> async_attempt s (client_settings cl) content (h @ us) = (Inl CancelledExn, g)"
  shows "r = Inl (Foreign CancelledExn) \<and>
    (case a of Sent q \<Rightarrow> h @ us @ a # vs = g \<and> filter is_sent vs = [] \<and> waits vs = [] | _ \<Rightarrow> vs = [])"
proof -
  have run: "async_loop s (client_settings cl) (in_limit inp) content 0 h = (r, h @ us @ a # vs)"
    using assms(2) by (simp add: track_runs [OF assms(1)])
  show ?thesis
    using assms(3)
  proof
    assume "(\<exists>d. a = Slept d) \<and> pauses s (h @ us @ [a]) = Some CancelledExn"
    then obtain d where d: "a = Slept d" "pauses s (h @ us @ [Slept d]) = Some CancelledExn" by blast
    from async.run_interrupted [OF run [unfolded d(1)] refl d(2)] show ?thesis by (simp add: d(1))
  next
    assume "(\<exists>q. a = Sent q) \<and> async_attempt s (client_settings cl) content (h @ us) = (Inl CancelledExn, g)"
    then obtain q where q: "a = Sent q"
      "async_attempt s (client_settings cl) content (h @ us) = (Inl CancelledExn, g)" by blast
    from async.run_raised [OF run [unfolded q(1)] refl q(2)]
    have r: "r = Inl (Foreign CancelledExn)" "h @ us @ a # vs = g"
      by (simp_all add: q(1) is_transport_error_def)
    from async_attempt_adds [of s "client_settings cl" content "h @ us"] q(2) r(2)
    have "filter is_sent vs = [] \<and> waits vs = []"
      by (auto simp: attempt_log_def split: if_splits)
    with r show ?thesis by (simp add: q(1))
  qed
qed

theorem cancellation_is_final_witness:
  "\<exists>content d. pauses cancelled_wait [Sent (build_request (client_settings sample_client) content), Slept d] = Some CancelledExn \<and>
    async_track cancelled_wait sample_client sample_inputs sample_heap (VStr (u ''user_login'')) True (AnEvent sample_event) [] =
      (Inl (Foreign CancelledExn), [Sent (build_request (client_settings sample_client) content), Slept d])"
proof -
  obtain content where content: "build_body sample_heap (VStr (u ''user_login'')) True (AnEvent sample_event)
     (current_visitor_id (in_ctx sample_inputs)) (in_env sample_inputs) = Inr content"
    using sample_body ..
  let ?q = "Sent (build_request (client_settings sample_client) content)"
  obtain d where d: "async_track cancelled_wait sample_client sample_inputs sample_heap (VStr (u ''user_login'')) True
     (AnEvent sample_event) [] = (Inl (Foreign CancelledExn), [] @ [?q] @ Slept d # [])"
    using cancelled_call [OF content] by auto
  have p: "pauses cancelled_wait [?q, Slept d] = Some CancelledExn" by (simp add: cancelled_wait_def)
  from cancellation_is_final [OF content d, of "[]"] p d show ?thesis by auto
qed

text \<open>
  C10: an outage that ends within the retries goes unnoticed: if the server gives no response to the
  first \<open>j\<close> attempts, at most as many as the retry count, and then the whole of a response that is not
  to be retried, both clients return what that response says.
\<close>

theorem calls_recover:
  assumes "recovers_after s (length (waits h)) j response" "in_time s (client_settings cl)"
    "j \<le> settings_retry_count (client_settings cl)" "\<not> is_retryable_status (resp_status response)"
    "build_body objects key is_common event (current_visitor_id (in_ctx inp)) (in_env inp) = Inr content"
  shows "fst (client_track s cl inp objects key is_common event h) =
      decode_response (in_limit inp) (received response (concat (map fst (resp_chunks response))) None) (j + 1) \<and>
    fst (async_track s cl inp objects key is_common event h) =
      decode_response (in_limit inp) (received response (concat (map fst (resp_chunks response))) None) (j + 1)"
proof -
  let ?r = "received response (concat (map fst (resp_chunks response))) None"
  note att = recovering_attempts [OF assms(1,2), of _ content]
  have status: "\<not> is_retryable_status (status_code ?r)"
    using assms(4) by (simp add: received_def buffer_response_def Let_def)
  have quiet: "pauses s g = None" for g
    using assms(1) unfolding recovers_after_def by blast
  have "fst (client_loop s (client_settings cl) (in_limit inp) content 0 h) = decode_response (in_limit inp) ?r (j + 1)"
    by (rule sync.run_recovers [where w = "length (waits h)" and j = j])
      (use att status quiet assms(3) in simp_all)
  then show ?thesis by (simp add: track_runs [OF assms(5)] loops_agree [OF assms(2)])
qed

theorem calls_recover_witness:
  "fst (async_track third_time sample_client sample_inputs sample_heap (VStr (u ''user_login'')) True (AnEvent sample_event) []) =
     decode_response 1000 (received quiet_response [] None) 3"
proof -
  obtain content where content: "build_body sample_heap (VStr (u ''user_login'')) True (AnEvent sample_event)
     (current_visitor_id (in_ctx sample_inputs)) (in_env sample_inputs) = Inr content"
    using sample_body ..
  have r: "recovers_after third_time (length (waits [])) 2 quiet_response" using third_time_recovers by simp
  have s: "\<not> is_retryable_status (resp_status quiet_response)"
    by (simp add: quiet_response_def is_retryable_status_def RETRYABLE_STATUSES_def)
  have l: "in_limit sample_inputs = 1000" "resp_chunks quiet_response = []" "(2::nat) + 1 = 3"
    by (simp_all add: sample_inputs_def quiet_response_def)
  from conjunct2 [OF calls_recover [OF r third_time_ok(2) eq_refl s content]] show ?thesis
    by (simp only: l sample_retries list.map concat.simps)
qed

text \<open>
  C13: whatever an order operation of either client sends carries the operation's event key and the
  order arguments: the body decodes to an object whose properties hold the amount and the currency.
\<close>

theorem order_requests:
  assumes "(name, operation) \<in> {(''order_created'', client_order_created), (''order_paid'', client_order_paid),
      (''order_created'', async_order_created), (''order_paid'', async_order_paid)}"
    "draws_ok s" "heap_ok (in_heap inp)" "val_ok amount" "258 \<le> limit"
    "operation s cl inp amount currency event h = (r, h @ ws)" "Sent q \<in> set ws"
  shows "\<exists>p d ja c objects. Option.bind (utf8_decode (req_content q)) (json_dec limit) = Some (JObj p) \<and>
    dict_get p (u ''event_key'') = Some (JStr (u name)) \<and> dict_get p (u ''is_common'') = Some (JBool True) \<and>
    dict_get p (u ''properties'') = Some (JObj d) \<and> dict_get d (u ''amount'') = Some ja \<and> denotes objects amount ja \<and>
    currency = VStr c \<and> dict_get d (u ''currency'') = Some (JStr c)"
proof -
  let ?order = "with_order_paid_properties amount currency event (in_heap inp) (in_new inp)"
  have "client_track_order s cl inp name amount currency event h = (r, h @ ws) \<or>
      async_track_order s cl inp name amount currency event h = (r, h @ ws)"
    using assms(1,6) by (auto simp: client_order_created_def client_order_paid_def async_order_created_def async_order_paid_def)
  then have "\<exists>e objects attempt track. ?order = Inr (e, objects) \<and> (attempt, track) \<in> both_clients \<and>
      track s cl inp objects (VStr (u name)) True (AnEvent e) h = (r, h @ ws)"
    using assms(7) blocking_client unfolding client_track_order_def async_track_order_def
    by (cases ?order) (auto split: prod.splits)
  then obtain e objects attempt track where o: "?order = Inr (e, objects)" "(attempt, track) \<in> both_clients"
    "track s cl inp objects (VStr (u name)) True (AnEvent e) h = (r, h @ ws)" by blast
  show ?thesis
  proof (cases "build_body objects (VStr (u name)) True (AnEvent e) (current_visitor_id (in_ctx inp)) (in_env inp)")
    case (Inl err)
    with o(2,3) assms(7) show ?thesis by (auto simp: both_clients_def client_track_def async_track_def)
  next
    case (Inr content)
    from call_bounds [OF o(2) assms(2) Inr o(3)] assms(7)
    have "req_content q = content"
      by (auto simp: bounded_call_def build_request_def)
    with order_body [OF assms(3,4,5) o(1) Inr] show ?thesis by blast
  qed
qed

theorem order_requests_witness:
  "\<exists>q p d. snd (client_order_paid refusing single_client sample_inputs (VInt 5) (VStr (u ''USD'')) (AnEvent sample_event) []) = [Sent q] \<and>
     Option.bind (utf8_decode (req_content q)) (json_dec 258) = Some (JObj p) \<and>
     dict_get p (u ''event_key'') = Some (JStr (u ''order_paid'')) \<and>
     dict_get p (u ''properties'') = Some (JObj d) \<and> dict_get d (u ''currency'') = Some (JStr (u ''USD''))"
proof -
  obtain content where content: "build_body (sample_heap(7 := OMapping order_items)) (VStr (u ''order_paid'')) True
     (AnEvent order_event) (current_visitor_id (in_ctx sample_inputs)) (in_env sample_inputs) = Inr content"
    using sample_order_content ..
  let ?q = "build_request (client_settings single_client) content"
  have inputs: "in_heap sample_inputs = sample_heap" "in_new sample_inputs = 7"
    by (simp_all add: sample_inputs_def)
  obtain r where run: "client_order_paid refusing single_client sample_inputs (VInt 5) (VStr (u ''USD'')) (AnEvent sample_event) [] =
      (r, [] @ [Sent ?q])"
    by (simp add: client_order_paid_def client_track_order_def inputs sample_order refused_call [OF content])
  have op: "(''order_paid'', client_order_paid) \<in> {(''order_created'', client_order_created), (''order_paid'', client_order_paid),
      (''order_created'', async_order_created), (''order_paid'', async_order_paid)}" by simp
  have ok: "heap_ok (in_heap sample_inputs)" "val_ok (VInt 5)"
    by (simp_all add: inputs sample_heap_ok val_ok_def)
  from order_requests [OF op, OF refusing_ok ok order_refl run] run show ?thesis by auto
qed

text \<open>
  Leaving a \<open>with\<close> block closes the HTTP client the SDK made and never one that was passed in,
  and passes the block's outcome on.
\<close>

theorem clients_close_their_own:
  "(case new_client pf token base_url timeout retry_count arg of
      Inl _ \<Rightarrow> True
    | Inr cl \<Rightarrow> client_with cl block h =
        (fst (block cl h), if arg = NoHttpClient then snd (block cl h) @ [HttpClosed] else snd (block cl h))) \<and>
   (case new_async_client pf token base_url timeout retry_count arg of
      Inl _ \<Rightarrow> True
    | Inr cl \<Rightarrow> async_with cl block h =
        (fst (block cl h), if arg = NoHttpClient then snd (block cl h) @ [HttpClosed] else snd (block cl h)))"
  by (auto simp: client_with_def async_with_def client_close_def async_close_def new_client_Inr
      split: sum.split prod.split)

text \<open>
  The blocking client looks at its deadline only when a chunk has arrived: a response without a
  body is accepted however late its headers came, while the asynchronous client's scope then raises a
  timeout.
\<close>

theorem late_headers_accepted:
  assumes "build_fails s (build_request st content) = None"
    "sends s (h @ [Sent (build_request st content)]) = Inr quiet_response"
    "deadline_scope s (h @ [Sent (build_request st content)]) = BeforeHeaders"
  shows "fst (client_attempt s st content h) = Inr (received quiet_response [] None) \<and>
    fst (async_attempt s st content h) = Inl (headers_timeout (settings_timeout st))"
  using assms by (simp add: client_attempt_def async_attempt_def quiet_response_def)

theorem late_headers_accepted_witness:
  "fst (client_attempt (third_time\<lparr>sends := \<lambda>_. Inr quiet_response, deadline_scope := \<lambda>_. BeforeHeaders\<rparr>)
     (client_settings sample_client) [] []) = Inr (received quiet_response [] None)"
  by (rule conjunct1 [OF late_headers_accepted]) (simp_all add: third_time_def)

end
