(* ===== verification/Integrations.thy ===== *)
theory Integrations
  imports Context Utf8
begin

text \<open>
  \<open>integrations/asgi.py\<close>, \<open>django.py\<close> and \<open>flask.py\<close>: the middlewares that scope the visitor of an
  inbound request. The application behind a middleware is a computation on the context, with any
  outcome. What Flask does with registered hooks is not part of the source; the hooks themselves and
  their registration are.
\<close>

section \<open>ASGI\<close>

record asgi_scope =
  asgi_type :: ustr
  asgi_headers :: "(bytes \<times> bytes) list option"

definition latin1_decode :: "bytes \<Rightarrow> ustr" where
  "latin1_decode bs = map unat bs"

definition asgi_header_texts :: "asgi_scope \<Rightarrow> (ustr \<times> ustr) list" where
  "asgi_header_texts scope =
     map (\<lambda>(name, value). (latin1_decode name, latin1_decode value))
       (case asgi_headers scope of None \<Rightarrow> [] | Some hs \<Rightarrow> hs)"

definition asgi_call :: "asgi_scope \<Rightarrow> (ctx \<Rightarrow> 'r \<times> ctx) \<Rightarrow> ctx \<Rightarrow> (reset_error + 'r) \<times> ctx" where
  "asgi_call scope app c =
     (if asgi_type scope \<noteq> u ''http'' then (case app c of (r, c') \<Rightarrow> (Inr r, c'))
      else visitor_from_request (asgi_header_texts scope) None app c)"

section \<open>Django\<close>

record django_request =
  django_headers :: "(ustr \<times> ustr) list"
  django_cookies :: "(ustr, pyval) pydict"

record django_middleware =
  is_async :: bool

definition django_acall :: "django_request \<Rightarrow> (ctx \<Rightarrow> 'r \<times> ctx) \<Rightarrow> ctx \<Rightarrow> (reset_error + 'r) \<times> ctx" where
  "django_acall request get_response c =
     visitor_from_request (django_headers request) (Some (django_cookies request)) get_response c"

definition django_call ::
  "django_middleware \<Rightarrow> django_request \<Rightarrow> (ctx \<Rightarrow> 'r \<times> ctx) \<Rightarrow> ctx \<Rightarrow> (reset_error + 'r) \<times> ctx" where
  "django_call mw request get_response c =
     (if is_async mw then django_acall request get_response c
      else visitor_from_request (django_headers request) (Some (django_cookies request)) get_response c)"

section \<open>Flask\<close>

datatype hook = EnterHook | ExitHook

text \<open>The parts of a Flask application the extension touches; an extension object is a number.\<close>

record flask_app =
  extension :: "nat option"
  before_request :: "hook list"
  teardown_request :: "hook list"

datatype flask_error = RuntimeError ustr

definition flask_init_app :: "nat \<Rightarrow> flask_app \<Rightarrow> flask_error + flask_app" where
  "flask_init_app self app =
     (if extension app = Some self then Inr app
      else if extension app \<noteq> None
      then Inl (RuntimeError (u ''a different CekatVisitor is already registered on this Flask app''))
      else Inr (app\<lparr>extension := Some self, before_request := before_request app @ [EnterHook],
        teardown_request := teardown_request app @ [ExitHook]\<rparr>))"

text \<open>The hooks work on \<open>g\<close>, which holds the open scope, if any, and on the context.\<close>

type_synonym flask_state = "token option \<times> ctx"

definition flask_exit :: "flask_state \<Rightarrow> (reset_error + unit) \<times> flask_state" where
  "flask_exit s =
     (case s of (g, c) \<Rightarrow>
        (case g of
           None \<Rightarrow> (Inr (), None, c)
         | Some t \<Rightarrow>
             (case scope_exit t c of Inl e \<Rightarrow> (Inl e, None, c) | Inr c' \<Rightarrow> (Inr (), None, c'))))"

definition flask_enter ::
  "(ustr \<times> ustr) list \<Rightarrow> (ustr, pyval) pydict \<Rightarrow> flask_state \<Rightarrow> (reset_error + unit) \<times> flask_state" where
  "flask_enter headers cookies s =
     (case flask_exit s of
        (Inl e, s') \<Rightarrow> (Inl e, s')
      | (Inr _, (g, c)) \<Rightarrow>
          (case scope_enter (opt_val (extract_visitor_id headers (Some cookies))) c of
             (t, c') \<Rightarrow> (Inr (), Some t, c')))"

text \<open>
  One request as Flask serves it: \<open>g\<close> is new, the hook before the request runs, the view, and the
  teardown hook runs whatever the outcome of the view.
\<close>

definition flask_request ::
  "(ustr \<times> ustr) list \<times> (ustr, pyval) pydict \<Rightarrow> (ctx \<Rightarrow> 'r \<times> ctx) \<Rightarrow> ctx \<Rightarrow> (reset_error + 'r) \<times> ctx" where
  "flask_request request view c =
     (case flask_enter (fst request) (snd request) (None, c) of
        (Inl e, (g, c')) \<Rightarrow> (Inl e, c')
      | (Inr _, (g, c1)) \<Rightarrow>
          (case view c1 of (r, c2) \<Rightarrow>
             (case flask_exit (g, c2) of
                (Inl e, (g', c3)) \<Rightarrow> (Inl e, c3)
              | (Inr _, (g', c3)) \<Rightarrow> (Inr r, c3))))"

text \<open>A handler that answers with a function of its request and the visitor it sees.\<close>

definition reading :: "('q \<Rightarrow> ustr option \<Rightarrow> 'r) \<Rightarrow> 'q \<Rightarrow> 'q \<times> (ctx \<Rightarrow> 'r \<times> ctx)" where
  "reading f q = (q, \<lambda>c. (f q (current_visitor_id c), c))"

lemma reading_good: "\<forall>x\<in>set (map (reading f) qs). good_body (snd x)"
  using good_body_reader by (auto simp: reading_def)

lemma reading_answers: "(q, body) \<in> set (map (reading f) qs) \<Longrightarrow> fst (body c) = f q (current_visitor_id c)"
  by (auto simp: reading_def)

context request_scoping
begin

lemma serve_readers:
  assumes "ctx_ok c"
  shows "fst (serve_all scoped (map (reading f) qs) c) = map (\<lambda>q. Inr (f q (visitor_of q))) qs"
    "current_visitor_id (snd (serve_all scoped (map (reading f) qs) c)) = current_visitor_id c"
proof -
  note good = reading_good [where f = f and qs = qs]
  have "fst (serve_all scoped (map (reading f) qs) c) =
      map (\<lambda>x. Inr (f (fst x) (visitor_of (fst x)))) (map (reading f) qs)"
    by (rule serve_all_results [OF assms good]) (rule reading_answers)
  then show "fst (serve_all scoped (map (reading f) qs) c) = map (\<lambda>q. Inr (f q (visitor_of q))) qs"
    by (simp add: reading_def comp_def)
qed (rule serve_all_restores [OF assms reading_good [where f = f and qs = qs]])

end

section \<open>The contract of request scoping\<close>

lemma asgi_http: "asgi_call \<lparr>asgi_type = u ''http'', asgi_headers = hs\<rparr> =
    visitor_from_request (asgi_header_texts \<lparr>asgi_type = u ''http'', asgi_headers = hs\<rparr>) None"
  by (rule ext)+ (simp add: asgi_call_def)

lemma django_call_eq: "django_call mw request =
    visitor_from_request (django_headers request) (Some (django_cookies request))"
  by (rule ext)+ (simp add: django_call_def django_acall_def)

text \<open>The two hooks around a view do what the scope does around a block.\<close>

lemma flask_request_eq: "flask_request request = visitor_from_request (fst request) (Some (snd request))"
  by (rule ext)+
    (simp add: flask_request_def flask_enter_def flask_exit_def visitor_from_request_def visitor_scope_def
      Let_def split_beta split: sum.split)

lemma from_request_scoping:
  "ctx_ok c \<Longrightarrow> good_body body \<Longrightarrow>
    \<exists>c1. current_visitor_id c1 = extract_visitor_id headers cookies \<and>
      fst (visitor_from_request headers cookies body c) = Inr (fst (body c1))"
  "ctx_ok c \<Longrightarrow> good_body body \<Longrightarrow>
    current_visitor_id (snd (visitor_from_request headers cookies body c)) = current_visitor_id c"
  "good_body body \<Longrightarrow> good_body (visitor_from_request headers cookies body)"
  using request.scoped_runs [of c body "(headers, cookies)"] request.scoped_restores [of c body "(headers, cookies)"]
    request.scoped_good [of body "(headers, cookies)"] by simp_all

interpretation asgi: request_scoping "\<lambda>hs. asgi_call \<lparr>asgi_type = u ''http'', asgi_headers = hs\<rparr>"
  "\<lambda>hs. extract_visitor_id (asgi_header_texts \<lparr>asgi_type = u ''http'', asgi_headers = hs\<rparr>) None"
  unfolding asgi_http by unfold_locales (fact from_request_scoping)+

interpretation django: request_scoping "django_call mw"
  "\<lambda>request. extract_visitor_id (django_headers request) (Some (django_cookies request))" for mw
  by unfold_locales (simp_all add: django_call_eq from_request_scoping)

interpretation flask: request_scoping flask_request
  "\<lambda>request. extract_visitor_id (fst request) (Some (snd request))"
  by unfold_locales (simp_all add: flask_request_eq from_request_scoping)

section \<open>Any order of Flask's hooks\<close>

text \<open>
  Flask runs the hook before a request once, or not at all if another hook answers first, and the
  teardown hook at the end; test clients and streamed responses may delay or repeat them.
\<close>

datatype hook_call = Enter "(ustr \<times> ustr) list" "(ustr, pyval) pydict" | Exit

primrec run_hook :: "hook_call \<Rightarrow> flask_state \<Rightarrow> (reset_error + unit) \<times> flask_state" where
  "run_hook (Enter headers cookies) s = flask_enter headers cookies s"
| "run_hook Exit s = flask_exit s"

primrec run_hooks :: "hook_call list \<Rightarrow> flask_state \<Rightarrow> flask_state" where
  "run_hooks [] s = s"
| "run_hooks (e # es) s = run_hooks es (snd (run_hook e s))"

text \<open>At most one scope is open, its token is fresh, and it remembers the visitor of before.\<close>

definition hooks_ok :: "ustr option \<Rightarrow> flask_state \<Rightarrow> bool" where
  "hooks_ok base s \<longleftrightarrow> ctx_ok (snd s) \<and>
     (case fst s of
        None \<Rightarrow> current_visitor_id (snd s) = base
      | Some t \<Rightarrow> tk_ctx t = cx_id (snd s) \<and> tk_id t \<notin> tok_used (snd s) \<and> tk_id t < tok_next (snd s) \<and>
          tk_old t = base)"

lemma flask_exit_ok:
  "hooks_ok base s \<Longrightarrow> \<exists>c. flask_exit s = (Inr (), None, c) \<and> hooks_ok base (None, c)"
  by (cases s)
    (auto simp: hooks_ok_def flask_exit_def scope_exit_def ctx_reset_def ctx_ok_def current_visitor_id_def
      split: option.splits)

lemma flask_enter_ok:
  assumes "hooks_ok base s"
  shows "\<exists>t c. flask_enter headers cookies s = (Inr (), Some t, c) \<and> hooks_ok base (Some t, c) \<and>
    current_visitor_id c = extract_visitor_id headers (Some cookies)"
proof -
  from flask_exit_ok [OF assms] obtain c where c: "flask_exit s = (Inr (), None, c)" "hooks_ok base (None, c)" by blast
  let ?v = "opt_val (extract_visitor_id headers (Some cookies))"
  have "flask_enter headers cookies s = (Inr (), Some (fst (scope_enter ?v c)), snd (scope_enter ?v c))"
    by (simp add: flask_enter_def c(1) split_beta)
  moreover have "hooks_ok base (Some (fst (scope_enter ?v c)), snd (scope_enter ?v c))"
    using c(2) by (auto simp: hooks_ok_def scope_enter_def ctx_set_def ctx_ok_def current_visitor_id_def)
  ultimately show ?thesis
    by (simp add: current_scope_enter normalize_opt_extract)
qed

lemma run_hook_ok: "hooks_ok base s \<Longrightarrow> fst (run_hook e s) = Inr () \<and> hooks_ok base (snd (run_hook e s))"
  using flask_exit_ok [of base s] flask_enter_ok [of base s]
  by (cases e) (metis fst_conv run_hook.simps snd_conv)+

lemma run_hooks_ok: "hooks_ok base s \<Longrightarrow> hooks_ok base (run_hooks es s)"
  by (induction es arbitrary: s) (simp_all add: run_hook_ok)

section \<open>Properties\<close>

text \<open>
  C16: behind each of the three middlewares a handler sees the visitor of its own request, whatever
  requests the worker served before, and the worker's own visitor is back at the end.
\<close>

theorem middlewares_scope_requests:
  assumes "ctx_ok c"
  shows
    "fst (serve_all (\<lambda>hs. asgi_call \<lparr>asgi_type = u ''http'', asgi_headers = hs\<rparr>) (map (reading f) hss) c) =
       map (\<lambda>hs. Inr (f hs (extract_visitor_id (asgi_header_texts \<lparr>asgi_type = u ''http'', asgi_headers = hs\<rparr>) None))) hss \<and>
     fst (serve_all (django_call mw) (map (reading g) dqs) c) =
       map (\<lambda>q. Inr (g q (extract_visitor_id (django_headers q) (Some (django_cookies q))))) dqs \<and>
     fst (serve_all flask_request (map (reading k) fqs) c) =
       map (\<lambda>q. Inr (k q (extract_visitor_id (fst q) (Some (snd q))))) fqs \<and>
     current_visitor_id (snd (serve_all (\<lambda>hs. asgi_call \<lparr>asgi_type = u ''http'', asgi_headers = hs\<rparr>)
       (map (reading f) hss) c)) = current_visitor_id c \<and>
     current_visitor_id (snd (serve_all (django_call mw) (map (reading g) dqs) c)) = current_visitor_id c \<and>
     current_visitor_id (snd (serve_all flask_request (map (reading k) fqs) c)) = current_visitor_id c"
  by (intro conjI asgi.serve_readers [OF assms] django.serve_readers [OF assms] flask.serve_readers [OF assms])

theorem middlewares_scope_requests_witness:
  "fst (serve_all flask_request (map (reading (\<lambda>q v. v))
     [([(u ''X-Cekat-Visitor-ID'', u ''v1'')], []), ([], [])]) (fresh_ctx 0 None)) = [Inr (Some (u ''v1'')), Inr None]"
proof -
  have e: "extract_visitor_id [(u ''X-Cekat-Visitor-ID'', u ''v1'')] (Some []) = Some (u ''v1'')"
    "extract_visitor_id [] (Some []) = None"
    by (simp_all add: extract_visitor_id_def VISITOR_HEADER_def normalize_visitor_id_def str_eval)
  have "fst (serve_all flask_request (map (reading (\<lambda>q v. v))
     [([(u ''X-Cekat-Visitor-ID'', u ''v1'')], []), ([], [])]) (fresh_ctx 0 None)) =
     map (\<lambda>q. Inr (extract_visitor_id (fst q) (Some (snd q)))) [([(u ''X-Cekat-Visitor-ID'', u ''v1'')], []), ([], [])]"
    using middlewares_scope_requests [OF ctx_ok_fresh] by blast
  with e show ?thesis by simp
qed

text \<open>
  C37: in whatever order and however often Flask calls the hooks, none of them fails, at most one scope
  is open, and whenever the teardown hook has run the visitor of before is current again; registering
  the extension twice registers its hooks once, and a second extension is refused.
\<close>

theorem flask_hooks_safe:
  assumes "ctx_ok c"
  shows "fst (run_hook e (run_hooks es (None, c))) = Inr () \<and>
    current_visitor_id (snd (run_hooks (es @ [Exit]) (None, c))) = current_visitor_id c \<and>
    current_visitor_id (snd (run_hooks (es @ [Enter headers cookies]) (None, c))) = extract_visitor_id headers (Some cookies) \<and>
    (case flask_init_app self app of
       Inl err \<Rightarrow> extension app \<noteq> None \<and> extension app \<noteq> Some self
     | Inr app' \<Rightarrow> flask_init_app self app' = Inr app' \<and> extension app' = Some self \<and>
         (extension app = None \<longrightarrow> before_request app' = before_request app @ [EnterHook] \<and>
            teardown_request app' = teardown_request app @ [ExitHook]))"
proof -
  let ?base = "current_visitor_id c"
  have ok: "hooks_ok ?base (run_hooks es (None, c))"
    using assms by (intro run_hooks_ok) (simp add: hooks_ok_def)
  have app: "run_hooks (es @ [e]) s = snd (run_hook e (run_hooks es s))" for e s
    by (induction es arbitrary: s) simp_all
  from flask_exit_ok [OF ok] flask_enter_ok [OF ok, of headers cookies] run_hook_ok [OF ok, of e] show ?thesis
    unfolding app by (auto simp: hooks_ok_def flask_init_app_def)
qed

theorem flask_hooks_safe_witness:
  "current_visitor_id (snd (run_hooks [Enter [(u ''X-Cekat-Visitor-ID'', u ''v1'')] [], Exit] (None, fresh_ctx 0 None))) = None"
  using flask_hooks_safe [OF ctx_ok_fresh, of Exit "[Enter [(u ''X-Cekat-Visitor-ID'', u ''v1'')] []]" 0 None]
  by (simp add: current_visitor_id_def fresh_ctx_def)

end
