(* ===== verification/Requests.thy ===== *)
theory Requests
  imports Calls Integrations
begin

text \<open>
  A client used behind a middleware: the handlers of a worker track events while the visitor of their own
  request is in scope. The parts meet here: the middlewares of \<open>integrations\<close>, the context variable, the
  body of an event and the two clients.
\<close>

section \<open>A handler that tracks an event\<close>

type_synonym call_result = "(error + acknowledgement) \<times> action list"

text \<open>
  The handler of request \<open>q\<close> calls \<open>track\<close>, a call of either client, with the event \<open>ev q\<close>, in the context
  it runs in.
\<close>

definition handler ::
  "(call_inputs \<Rightarrow> event_arg \<Rightarrow> call_result) \<Rightarrow> call_inputs \<Rightarrow> ('q \<Rightarrow> event) \<Rightarrow> 'q \<Rightarrow> 'q \<times> (ctx \<Rightarrow> call_result \<times> ctx)" where
  "handler track inp ev q = (q, \<lambda>c. (track (inp\<lparr>in_ctx := c\<rparr>) (AnEvent (ev q)), c))"

text \<open>The visitor a request to Cekat names: the event's own, or else that of the inbound request.\<close>

definition named_visitor :: "event \<Rightarrow> ustr option \<Rightarrow> ustr option" where
  "named_visitor e visitor = (case normalize_visitor_id (visitor_id e) of Some v \<Rightarrow> Some v | None \<Rightarrow> visitor)"

definition names_visitor :: "nat \<Rightarrow> ustr option \<Rightarrow> action \<Rightarrow> bool" where
  "names_visitor limit visitor a \<longleftrightarrow>
     (\<forall>q. a = Sent q \<longrightarrow> (\<exists>p. Option.bind (utf8_decode (req_content q)) (json_dec limit) = Some (JObj p) \<and>
        dict_get p (u ''visitor_id'') = map_option JStr visitor))"

definition answers_for :: "nat \<Rightarrow> ustr option \<Rightarrow> reset_error + call_result \<Rightarrow> bool" where
  "answers_for limit visitor answer =
     (case answer of Inl _ \<Rightarrow> False | Inr (result, actions) \<Rightarrow> list_all (names_visitor limit visitor) actions)"

section \<open>What one call sends\<close>

lemma effective_named:
  "normalize_visitor_id (opt_val visitor) = visitor \<Longrightarrow> effective_visitor e visitor = named_visitor e visitor"
  by (simp add: effective_visitor_def named_visitor_def split: option.split)

lemma call_names_visitor:
  assumes "(attempt, track) \<in> both_clients" "draws_ok s" "heap_ok objects" "258 \<le> limit"
  shows "list_all (names_visitor limit (effective_visitor e (current_visitor_id (in_ctx inp))))
    (snd (track s cl inp objects key is_common (AnEvent e) []))"
proof -
  let ?ambient = "current_visitor_id (in_ctx inp)"
  obtain r h' where run: "track s cl inp objects key is_common (AnEvent e) [] = (r, h')" by (rule prod.exhaust)
  show ?thesis
  proof (cases "build_body objects key is_common (AnEvent e) ?ambient (in_env inp)")
    case (Inl err)
    with assms(1) show ?thesis by (auto simp: both_clients_def client_track_def async_track_def)
  next
    case (Inr content)
    from call_bounds [OF assms(1,2) Inr run]
    have sent: "\<forall>a\<in>set h'. is_sent a \<longrightarrow> a = Sent (build_request (client_settings cl) content)"
      by (auto simp: bounded_call_def)
    from body_fields [OF assms(3) Inr assms(4)] obtain p where
      "Option.bind (utf8_decode content) (json_dec limit) = Some (JObj p)"
      "dict_get p (u ''visitor_id'') = map_option JStr (effective_visitor e ?ambient)" by auto
    then have "names_visitor limit (effective_visitor e ?ambient) (Sent (build_request (client_settings cl) content))"
      by (simp add: names_visitor_def build_request_def)
    with sent have "a \<in> set h' \<Longrightarrow> names_visitor limit (effective_visitor e ?ambient) a" for a
      by (cases "is_sent a") (auto simp: names_visitor_def)
    with run show ?thesis by (simp add: list_all_iff)
  qed
qed

text \<open>A call reads the context only through the current visitor.\<close>

lemma call_reads_visitor:
  assumes "(attempt, track) \<in> both_clients" "current_visitor_id c = current_visitor_id c'"
  shows "track s cl (inp\<lparr>in_ctx := c\<rparr>) objects key is_common event h =
    track s cl (inp\<lparr>in_ctx := c'\<rparr>) objects key is_common event h"
  using assms(1) by (cases rule: both_clients_cases) (simp_all add: client_track_def async_track_def assms(2) split: sum.split)

section \<open>Calls in the scope of a request\<close>

text \<open>A scope of requests whose visitor is the one \<open>normalize_visitor_id\<close> gives.\<close>

locale tracking_scope = request_scoping scoped visitor_of
  for scoped :: "'q \<Rightarrow> (ctx \<Rightarrow> call_result \<times> ctx) \<Rightarrow> ctx \<Rightarrow> (reset_error + call_result) \<times> ctx"
    and visitor_of :: "'q \<Rightarrow> ustr option" +
  assumes visitor_normalized: "normalize_visitor_id (opt_val (visitor_of q)) = visitor_of q"
begin

lemma handlers_good: "\<forall>x\<in>set (map (handler track inp ev) qs). good_body (snd x)"
  by (auto simp: handler_def good_body_def disciplined_def)

lemma tracked_visitors:
  assumes "ctx_ok c" "(attempt, track) \<in> both_clients" "draws_ok s" "heap_ok objects" "258 \<le> limit"
  shows "list_all2 (\<lambda>q. answers_for limit (named_visitor (ev q) (visitor_of q))) qs
    (fst (serve_all scoped (map (handler (\<lambda>inp e. track s cl inp objects key is_common e []) inp ev) qs) c))"
proof -
  let ?h = "handler (\<lambda>inp e. track s cl inp objects key is_common e []) inp ev"
  let ?f = "\<lambda>q v. track s cl (inp\<lparr>in_ctx := fresh_ctx 0 v\<rparr>) objects key is_common (AnEvent (ev q)) []"
  have "fst (serve_all scoped (map ?h qs) c) = map (\<lambda>x. Inr (?f (fst x) (visitor_of (fst x)))) (map ?h qs)"
  proof (rule serve_all_results [OF assms(1) handlers_good])
    fix q body c0
    assume "(q, body) \<in> set (map ?h qs)"
    then have "body c0 = (track s cl (inp\<lparr>in_ctx := c0\<rparr>) objects key is_common (AnEvent (ev q)) [], c0)"
      by (auto simp: handler_def)
    then show "fst (body c0) = ?f q (current_visitor_id c0)"
      by (simp add: call_reads_visitor [OF assms(2), of c0 "fresh_ctx 0 (current_visitor_id c0)"]
          fresh_ctx_def current_visitor_id_def)
  qed
  moreover have "answers_for limit (named_visitor (ev q) (visitor_of q)) (Inr (?f q (visitor_of q)))" for q
    using call_names_visitor [OF assms(2-5), of "ev q" "inp\<lparr>in_ctx := fresh_ctx 0 (visitor_of q)\<rparr>" cl key is_common]
    by (simp add: answers_for_def split_beta effective_named visitor_normalized fresh_ctx_def current_visitor_id_def)
  ultimately show ?thesis
    by (simp add: list_all2_conv_all_nth handler_def)
qed

end

interpretation asgi_calls: tracking_scope "\<lambda>hs. asgi_call \<lparr>asgi_type = u ''http'', asgi_headers = hs\<rparr>"
  "\<lambda>hs. extract_visitor_id (asgi_header_texts \<lparr>asgi_type = u ''http'', asgi_headers = hs\<rparr>) None"
  by unfold_locales (rule normalize_opt_extract)

interpretation django_calls: tracking_scope "django_call mw"
  "\<lambda>request. extract_visitor_id (django_headers request) (Some (django_cookies request))" for mw
  by unfold_locales (rule normalize_opt_extract)

interpretation flask_calls: tracking_scope flask_request
  "\<lambda>request. extract_visitor_id (fst request) (Some (snd request))"
  by unfold_locales (rule normalize_opt_extract)

section \<open>Calls from concurrent tasks\<close>

text \<open>Every visitor a task can see is one that \<open>normalize_visitor_id\<close> gave, so that a call takes it as it is.\<close>

definition is_normalized :: "ustr option \<Rightarrow> bool" where
  "is_normalized visitor \<longleftrightarrow> normalize_visitor_id (opt_val visitor) = visitor"

definition visitors_normalized :: "task \<Rightarrow> bool" where
  "visitors_normalized t \<longleftrightarrow> is_normalized (t_base t) \<and> list_all (\<lambda>(tok, v). is_normalized v) (t_scopes t)"

lemma visible_normalized: "visitors_normalized t \<Longrightarrow> is_normalized (visible (t_base t) (t_scopes t))"
  by (auto simp: visitors_normalized_def visible_def split: list.split)

lemma is_normalized_simps: "is_normalized None" "is_normalized (normalize_visitor_id v)"
proof -
  show none: "is_normalized None" by (simp add: is_normalized_def opt_val_def normalize_visitor_id_def)
  show "is_normalized (normalize_visitor_id v)"
    using none by (cases "normalize_visitor_id v") (simp_all add: is_normalized_def opt_val_def normalize_visitor_id_idem)
qed

lemma reachable_normalized: "reachable_tasks s \<Longrightarrow> s i = Some t \<Longrightarrow> visitors_normalized t"
proof (induction arbitrary: i t rule: reachable_tasks.induct)
  case start
  then show ?case
    by (auto simp: visitors_normalized_def new_task_def is_normalized_simps split: if_splits)
next
  case (step s s')
  from step.hyps(2) show ?case
  proof cases
    case (create_task k t' j)
    have "current_visitor_id (t_ctx t') = visible (t_base t') (t_scopes t')"
      using reachable_task_ok [OF step.hyps(1) create_task(2)] by (simp add: task_ok_def current_visitor_id_def)
    with step.IH [OF create_task(2)] have "is_normalized (current_visitor_id (t_ctx t'))"
      by (simp add: visible_normalized)
    with step create_task(1) show ?thesis
      by (auto simp: visitors_normalized_def new_task_def split: if_splits)
  qed (use step in \<open>fastforce simp: visitors_normalized_def new_task_def is_normalized_simps split: if_splits\<close>)+
qed

section \<open>Properties\<close>

text \<open>
  C14: behind each of the three middlewares, in whatever order a worker serves its requests, every request
  that a call of either client sends to Cekat from a handler carries a JSON object whose visitor is the
  one the event names, or else the one extracted from the very request the handler answers, and no
  visitor when there is neither.
\<close>

theorem tracked_visitor_is_own:
  assumes "ctx_ok c" "(attempt, track) \<in> both_clients" "draws_ok s" "heap_ok objects" "258 \<le> limit"
  shows
    "list_all2 (\<lambda>hs. answers_for limit (named_visitor (ev hs)
         (extract_visitor_id (asgi_header_texts \<lparr>asgi_type = u ''http'', asgi_headers = hs\<rparr>) None))) hss
       (fst (serve_all (\<lambda>hs. asgi_call \<lparr>asgi_type = u ''http'', asgi_headers = hs\<rparr>)
         (map (handler (\<lambda>inp e. track s cl inp objects key is_common e []) inp ev) hss) c)) \<and>
     list_all2 (\<lambda>q. answers_for limit (named_visitor (ev' q) (extract_visitor_id (django_headers q) (Some (django_cookies q))))) dqs
       (fst (serve_all (django_call mw)
         (map (handler (\<lambda>inp e. track s cl inp objects key is_common e []) inp ev') dqs) c)) \<and>
     list_all2 (\<lambda>q. answers_for limit (named_visitor (ev'' q) (extract_visitor_id (fst q) (Some (snd q))))) fqs
       (fst (serve_all flask_request
         (map (handler (\<lambda>inp e. track s cl inp objects key is_common e []) inp ev'') fqs) c))"
  by (intro conjI asgi_calls.tracked_visitors [OF assms] django_calls.tracked_visitors [OF assms]
      flask_calls.tracked_visitors [OF assms])

text \<open>A server that refuses the connection, and a request with a visitor in its header.\<close>

lemma refused_content:
  assumes "valid_unicode v"
  shows "\<exists>content. build_body sample_heap (VStr (u ''user_login'')) True (AnEvent sample_event) (Some v) sample_env = Inr content"
proof -
  have "event_acceptable sample_heap sample_event (Some v) sample_env"
    using sample_acceptable assms by (simp add: event_acceptable_def unicode_opt_def)
  from acceptable_body [OF sample_heap_ok this sample_key] show ?thesis .
qed

theorem tracked_visitor_is_own_witness:
  "\<exists>r q p. fst (serve_all flask_request
       (map (handler (\<lambda>inp e. client_track refusing single_client inp sample_heap (VStr (u ''user_login'')) True e [])
          sample_inputs (\<lambda>_. sample_event)) [([(u ''X-Cekat-Visitor-ID'', u ''v1'')], [])]) (fresh_ctx 0 None)) =
       [Inr (r, [Sent q])] \<and>
     Option.bind (utf8_decode (req_content q)) (json_dec 258) = Some (JObj p) \<and>
     dict_get p (u ''visitor_id'') = Some (JStr (u ''v1''))"
proof -
  let ?q = "([(u ''X-Cekat-Visitor-ID'', u ''v1'')], []) :: (ustr \<times> ustr) list \<times> (ustr, pyval) pydict"
  let ?track = "\<lambda>inp e. client_track refusing single_client inp sample_heap (VStr (u ''user_login'')) True e []"
  let ?handler = "handler ?track sample_inputs (\<lambda>_. sample_event)"
  let ?answers = "fst (serve_all flask_request (map ?handler [?q]) (fresh_ctx 0 None))"
  have e: "extract_visitor_id [(u ''X-Cekat-Visitor-ID'', u ''v1'')] (Some []) = Some (u ''v1'')"
    by (simp add: extract_visitor_id_def VISITOR_HEADER_def normalize_visitor_id_def str_eval)
  have n: "named_visitor sample_event (Some (u ''v1'')) = Some (u ''v1'')"
    by (simp add: named_visitor_def sample_event_def empty_event_def normalize_visitor_id_def)
  have "good_body (snd (?handler ?q))" by (simp add: handler_def good_body_def disciplined_def)
  from flask.scoped_runs [OF ctx_ok_fresh [of 0 None] this, of ?q] obtain c1 where
    c1: "current_visitor_id c1 = Some (u ''v1'')" "?answers = [Inr (fst (snd (?handler ?q) c1))]"
    using e by (auto simp: split_beta handler_def)
  obtain content where "build_body sample_heap (VStr (u ''user_login'')) True (AnEvent sample_event)
      (current_visitor_id (in_ctx (sample_inputs\<lparr>in_ctx := c1\<rparr>))) (in_env (sample_inputs\<lparr>in_ctx := c1\<rparr>)) = Inr content"
    using refused_content [of "u ''v1''"] c1(1) by (auto simp: sample_inputs_def str_eval is_surrogate_def)
  from refused_call [OF this, of "[]"] c1(2) obtain r q where a: "?answers = [Inr (r, [Sent q])]"
    by (simp add: handler_def)
  have "list_all2 (\<lambda>q. answers_for 258 (named_visitor sample_event (extract_visitor_id (fst q) (Some (snd q))))) [?q] ?answers"
    by (rule tracked_visitor_is_own [OF ctx_ok_fresh blocking_client(1) refusing_ok sample_heap_ok order_refl,
          THEN conjunct2, THEN conjunct2])
  then have "names_visitor 258 (Some (u ''v1'')) (Sent q)" unfolding a by (simp add: e n answers_for_def)
  with a show ?thesis by (auto simp: names_visitor_def)
qed

text \<open>
  C15: in every reachable state of any number of threads and tasks, however their steps interleave, a call of
  either client from a task names the visitor of the event, or else that of the innermost scope the task is
  in, or the one it started with; the scopes of other tasks play no part.
\<close>

theorem concurrent_calls_name_own_visitor:
  assumes "reachable_tasks ts" "ts i = Some t" "(attempt, track) \<in> both_clients" "draws_ok s" "heap_ok objects" "258 \<le> limit"
  shows "list_all (names_visitor limit (named_visitor e (visible (t_base t) (t_scopes t))))
    (snd (track s cl (inp\<lparr>in_ctx := t_ctx t\<rparr>) objects key is_common (AnEvent e) []))"
proof -
  have current: "current_visitor_id (t_ctx t) = visible (t_base t) (t_scopes t)"
    using reachable_task_ok [OF assms(1,2)] by (simp add: task_ok_def current_visitor_id_def)
  have "normalize_visitor_id (opt_val (visible (t_base t) (t_scopes t))) = visible (t_base t) (t_scopes t)"
    using visible_normalized [OF reachable_normalized [OF assms(1,2)]] by (simp add: is_normalized_def)
  with call_names_visitor [OF assms(3-6), of e "inp\<lparr>in_ctx := t_ctx t\<rparr>" cl key is_common] show ?thesis
    by (simp add: current effective_named)
qed

text \<open>A task in the scope of a visitor, and another that it started and that entered a scope of its own.\<close>

lemma two_tasks:
  "\<exists>ts t0 t1. reachable_tasks ts \<and> ts 0 = Some t0 \<and> ts 1 = Some t1 \<and>
     visible (t_base t0) (t_scopes t0) = Some (u ''v1'') \<and> visible (t_base t1) (t_scopes t1) = Some (u ''v2'')"
proof -
  let ?init = "new_task 0 None"
  have n: "normalize_visitor_id (VStr (u ''v1'')) = Some (u ''v1'')" "normalize_visitor_id (VStr (u ''v2'')) = Some (u ''v2'')"
    by (simp_all add: normalize_visitor_id_def str_eval)
  obtain k0 c0 where e0: "scope_enter (VStr (u ''v1'')) (t_ctx ?init) = (k0, c0)" by fastforce
  let ?t0 = "?init\<lparr>t_ctx := c0, t_scopes := [(k0, Some (u ''v1''))]\<rparr>"
  let ?new = "new_task 1 (current_visitor_id c0)"
  obtain k1 c1 where e1: "scope_enter (VStr (u ''v2'')) (t_ctx ?new) = (k1, c1)" by fastforce
  let ?t1 = "?new\<lparr>t_ctx := c1, t_scopes := [(k1, Some (u ''v2''))]\<rparr>"
  let ?s1 = "[0 \<mapsto> ?init](0 \<mapsto> ?t0)" let ?s2 = "?s1(1 \<mapsto> ?new)" let ?s3 = "?s2(1 \<mapsto> ?t1)"
  have empty: "t_scopes (new_task j v) = []" for j v by (simp add: new_task_def)
  have first: "task_step [0 \<mapsto> ?init] ?s1"
    using task_step.enter [of "[0 \<mapsto> ?init]" 0 ?init "VStr (u ''v1'')" k0 c0] e0 n(1) empty by simp
  have second: "task_step ?s1 ?s2" using task_step.create_task [of ?s1 0 ?t0 1] by simp
  have third: "task_step ?s2 ?s3"
    using task_step.enter [of ?s2 1 ?new "VStr (u ''v2'')" k1 c1] e1 n(2) empty by simp
  have "reachable_tasks ?s3"
    by (rule reachable_tasks.step [OF reachable_tasks.step [OF reachable_tasks.step [OF reachable_tasks.start first] second] third])
  then show ?thesis by (intro exI [of _ ?s3] exI [of _ ?t0] exI [of _ ?t1]) (simp add: visible_def)
qed

theorem concurrent_calls_name_own_visitor_witness:
  "\<exists>ts t0 t1. reachable_tasks ts \<and> ts 0 = Some t0 \<and> ts 1 = Some t1 \<and>
     list_all (names_visitor 258 (Some (u ''v1''))) (snd (async_track refusing single_client (sample_inputs\<lparr>in_ctx := t_ctx t0\<rparr>)
       sample_heap (VStr (u ''user_login'')) True (AnEvent sample_event) [])) \<and>
     list_all (names_visitor 258 (Some (u ''v2''))) (snd (async_track refusing single_client (sample_inputs\<lparr>in_ctx := t_ctx t1\<rparr>)
       sample_heap (VStr (u ''user_login'')) True (AnEvent sample_event) []))"
proof -
  obtain ts t0 t1 where t: "reachable_tasks ts" "ts 0 = Some t0" "ts 1 = Some t1"
    "visible (t_base t0) (t_scopes t0) = Some (u ''v1'')" "visible (t_base t1) (t_scopes t1) = Some (u ''v2'')"
    using two_tasks by blast
  have n: "named_visitor sample_event v = v" for v
    by (simp add: named_visitor_def sample_event_def empty_event_def normalize_visitor_id_def)
  note call = concurrent_calls_name_own_visitor [OF t(1) _ blocking_client(2) refusing_ok sample_heap_ok order_refl,
      where e = sample_event and cl = single_client and inp = sample_inputs and key = "VStr (u ''user_login'')" and is_common = True]
  show ?thesis
    using call [OF t(2)] call [OF t(3)] t by (intro exI [of _ ts] exI [of _ t0] exI [of _ t1]) (simp add: n)
qed

end
