(* ===== verification/Surface.thy ===== *)
theory Surface
  imports PyDict PyStr
begin

text \<open>
  \<open>__init__.py\<close>: the names a user of the package sees. The import statements fill the namespace of the package
  from its modules, and a star import reads the names of \<open>__all__\<close> from it. An object is told by the module
  that defines it and its name there.
\<close>

datatype object = Submodule ustr | Member ustr ustr

datatype import_failure = ImportError ustr ustr | AttributeError ustr

text \<open>The names that the modules of the package define and the package imports from.\<close>

definition module_members :: "(ustr, ustr list) pydict" where
  "module_members =
     [(u ''_version'', [u ''__version__'']),
      (u ''async_client'', [u ''AsyncClient'']),
      (u ''client'', [u ''Client'']),
      (u ''context'', [u ''VISITOR_HEADER'', u ''VISITOR_COOKIE'', u ''normalize_visitor_id'', u ''current_visitor_id'',
         u ''visitor_scope'', u ''visitor_id_from_cookie_header'', u ''extract_visitor_id'', u ''visitor_from_request'']),
      (u ''errors'', [u ''CekatError'', u ''ValidationError'', u ''HttpError'', u ''AuthenticationError'',
         u ''EventDefinitionNotFoundError'', u ''ApiError'', u ''TransportError'', u ''ResponseDecodeError'']),
      (u ''models'', [u ''Event'', u ''Acknowledgement''])]"

definition package_imports :: "(ustr \<times> ustr list) list" where
  "package_imports =
     [(u ''_version'', [u ''__version__'']),
      (u ''async_client'', [u ''AsyncClient'']),
      (u ''client'', [u ''Client'']),
      (u ''context'', [u ''current_visitor_id'', u ''extract_visitor_id'', u ''visitor_from_request'', u ''visitor_scope'']),
      (u ''errors'', [u ''ApiError'', u ''AuthenticationError'', u ''CekatError'', u ''EventDefinitionNotFoundError'',
         u ''HttpError'', u ''ResponseDecodeError'', u ''TransportError'', u ''ValidationError'']),
      (u ''models'', [u ''Acknowledgement'', u ''Event''])]"

definition package_all :: "ustr list" where
  "package_all =
     [u ''Acknowledgement'', u ''ApiError'', u ''AsyncClient'', u ''AuthenticationError'', u ''CekatError'', u ''Client'',
      u ''Event'', u ''EventDefinitionNotFoundError'', u ''HttpError'', u ''ResponseDecodeError'', u ''TransportError'',
      u ''ValidationError'', u ''__version__'', u ''current_visitor_id'', u ''extract_visitor_id'',
      u ''visitor_from_request'', u ''visitor_scope'']"

text \<open>
  \<open>from .module import names\<close>: the module becomes an attribute of the package, and every name is bound to the
  object the module has under it, or the import fails.
\<close>

primrec bind_names :: "ustr \<Rightarrow> ustr list \<Rightarrow> ustr list \<Rightarrow> (ustr, object) pydict \<Rightarrow> import_failure + (ustr, object) pydict" where
  "bind_names from_module members [] ns = Inr ns"
| "bind_names from_module members (n # ns') ns =
     (if n \<in> set members then bind_names from_module members ns' (dict_set n (Member from_module n) ns)
      else Inl (ImportError from_module n))"

definition import_from :: "ustr \<times> ustr list \<Rightarrow> (ustr, object) pydict \<Rightarrow> import_failure + (ustr, object) pydict" where
  "import_from statement ns =
     (case statement of (m, names) \<Rightarrow>
        (case dict_get module_members m of
           None \<Rightarrow> Inl (ImportError m [])
         | Some members \<Rightarrow> bind_names m members names (dict_set m (Submodule m) ns)))"

primrec run_imports :: "(ustr \<times> ustr list) list \<Rightarrow> (ustr, object) pydict \<Rightarrow> import_failure + (ustr, object) pydict" where
  "run_imports [] ns = Inr ns"
| "run_imports (i # is) ns = (case import_from i ns of Inl e \<Rightarrow> Inl e | Inr ns' \<Rightarrow> run_imports is ns')"

primrec star_import :: "ustr list \<Rightarrow> (ustr, object) pydict \<Rightarrow> import_failure + (ustr \<times> object) list" where
  "star_import [] ns = Inr []"
| "star_import (n # names) ns =
     (case dict_get ns n of
        None \<Rightarrow> Inl (AttributeError n)
      | Some obj \<Rightarrow> (case star_import names ns of Inl e \<Rightarrow> Inl e | Inr rest \<Rightarrow> Inr ((n, obj) # rest)))"

section \<open>What the package offers\<close>

text \<open>What a name is bound to in the end: the last statement that binds it decides.\<close>

lemma bind_names_get:
  "bind_names m members names ns = Inr ns' \<Longrightarrow>
    dict_get ns' n = (if n \<in> set names then Some (Member m n) else dict_get ns n)"
  by (induction names arbitrary: ns) (auto simp: dict_get_set split: if_splits)

lemma bind_names_total: "set names \<subseteq> set members \<Longrightarrow> \<exists>ns'. bind_names m members names ns = Inr ns'"
  by (induction names arbitrary: ns) auto

text \<open>A statement that imports only names its module has.\<close>

definition importable :: "ustr \<times> ustr list \<Rightarrow> bool" where
  "importable statement \<longleftrightarrow>
     (case dict_get module_members (fst statement) of None \<Rightarrow> False | Some members \<Rightarrow> set (snd statement) \<subseteq> set members)"

fun bound_to :: "(ustr \<times> ustr list) list \<Rightarrow> ustr \<Rightarrow> object option" where
  "bound_to [] n = None"
| "bound_to ((m, names) # is) n =
     (case bound_to is n of
        Some obj \<Rightarrow> Some obj
      | None \<Rightarrow> if n \<in> set names then Some (Member m n) else if n = m then Some (Submodule m) else None)"

lemma run_imports_get:
  "list_all importable is \<Longrightarrow>
    \<exists>ns'. run_imports is ns = Inr ns' \<and>
      (\<forall>n. dict_get ns' n = (case bound_to is n of None \<Rightarrow> dict_get ns n | Some obj \<Rightarrow> Some obj))"
proof (induction "is" arbitrary: ns)
  case (Cons i "is")
  obtain m names where i: "i = (m, names)" by fastforce
  with Cons.prems obtain members where m: "dict_get module_members m = Some members" "set names \<subseteq> set members"
    by (auto simp: importable_def split: option.splits)
  from bind_names_total [OF m(2)] obtain ns1 where
    b: "bind_names m members names (dict_set m (Submodule m) ns) = Inr ns1" by blast
  from Cons obtain ns' where "run_imports is ns1 = Inr ns'"
    "\<forall>n. dict_get ns' n = (case bound_to is n of None \<Rightarrow> dict_get ns1 n | Some obj \<Rightarrow> Some obj)" by fastforce
  with i m(1) b bind_names_get [OF b] show ?case
    by (auto simp: import_from_def dict_get_set split: option.split)
qed simp

lemma star_import_binds:
  "\<forall>n\<in>set names. dict_get ns n \<noteq> None \<Longrightarrow> star_import names ns = Inr (map (\<lambda>n. (n, the (dict_get ns n))) names)"
  by (induction names) auto

text \<open>
  The imports succeed; a star import gives the seventeen names of \<open>__all__\<close>, all different and each the object of
  its module, and no module hides one; nothing that is imported is missing from \<open>__all__\<close>.
\<close>

lemma package_importable: "list_all importable package_imports"
  by (simp add: package_imports_def importable_def module_members_def dict_get_def u_def)

lemma package_offers:
  "\<exists>ns. run_imports package_imports [] = Inr ns \<and>
     star_import package_all ns = Inr (map (\<lambda>n. (n, the (bound_to package_imports n))) package_all) \<and>
     distinct package_all \<and> set package_all = \<Union> (set ` snd ` set package_imports) \<and>
     (\<forall>n\<in>set package_all. \<exists>m names. (m, names) \<in> set package_imports \<and> n \<in> set names \<and>
        bound_to package_imports n = Some (Member m n))"
proof -
  from run_imports_get [OF package_importable] obtain ns where
    ns: "run_imports package_imports [] = Inr ns" "\<And>n. dict_get ns n = bound_to package_imports n"
    by (fastforce split: option.splits)
  have all: "\<forall>n\<in>set package_all. \<exists>m names. (m, names) \<in> set package_imports \<and> n \<in> set names \<and>
      bound_to package_imports n = Some (Member m n)"
    by (simp add: package_all_def package_imports_def u_def)
  then have "star_import package_all ns = Inr (map (\<lambda>n. (n, the (bound_to package_imports n))) package_all)"
    using star_import_binds [of package_all ns] ns(2) by force
  moreover have "distinct package_all" by (simp add: package_all_def u_def)
  moreover have "set package_all = \<Union> (set ` snd ` set package_imports)"
    by (auto simp: package_all_def package_imports_def)
  ultimately show ?thesis using ns(1) all by blast
qed

end
