(* ===== verification/JsonHooks.thy ===== *)
theory JsonHooks
  imports Json
begin

text \<open>
  \<open>json.loads\<close> with the hooks the repository's scripts pass to it: \<open>object_pairs_hook\<close> sees the pairs of
  every object as they were written, and \<open>parse_constant\<close> the words \<open>NaN\<close>, \<open>Infinity\<close> and
  \<open>-Infinity\<close>. A hook may raise, which ends the parse at once. An integer with too many digits raises
  a plain \<open>ValueError\<close>, which is not a \<open>JSONDecodeError\<close>.
\<close>

datatype 'e load_error = Syntax | Nested | Digits | NoFuel | Raised 'e

record 'e hooks =
  pairs_hook :: "(ustr \<times> json) list \<Rightarrow> 'e option"
  constant_hook :: "ustr \<Rightarrow> 'e option"

definition raise_if :: "'e option \<Rightarrow> 'a \<Rightarrow> 'e load_error + 'a" where
  "raise_if e x = (case e of None \<Rightarrow> Inr x | Some err \<Rightarrow> Inl (Raised err))"

definition plain_error :: "json_error \<Rightarrow> 'e load_error" where
  "plain_error e = (case e of BadJson \<Rightarrow> Syntax | TooDeep \<Rightarrow> Nested | OutOfFuel \<Rightarrow> NoFuel)"

definition constant_of :: "json \<Rightarrow> ustr option" where
  "constant_of v =
     (case v of
        JFloat PNaN \<Rightarrow> Some (u ''NaN'')
      | JFloat (PInf s) \<Rightarrow> Some (if s then u ''-Infinity'' else u ''Infinity'')
      | _ \<Rightarrow> None)"

definition hooked_word :: "'e hooks \<Rightarrow> json \<Rightarrow> ustr \<Rightarrow> 'e load_error + (json \<times> ustr)" where
  "hooked_word k v r =
     (case constant_of v of None \<Rightarrow> Inr (v, r) | Some w \<Rightarrow> raise_if (constant_hook k w) (v, r))"

definition hooked_number :: "numparts \<Rightarrow> 'e load_error + json" where
  "hooked_number p = (case num_value p of Inr v \<Rightarrow> Inr v | Inl _ \<Rightarrow> Inl Digits)"

fun hooked_value :: "'e hooks \<Rightarrow> nat \<Rightarrow> nat \<Rightarrow> ustr \<Rightarrow> 'e load_error + (json \<times> ustr)"
and hooked_items :: "'e hooks \<Rightarrow> nat \<Rightarrow> nat \<Rightarrow> ustr \<Rightarrow> 'e load_error + (json list \<times> ustr)"
and hooked_fields :: "'e hooks \<Rightarrow> nat \<Rightarrow> nat \<Rightarrow> ustr \<Rightarrow> 'e load_error + ((ustr \<times> json) list \<times> ustr)"
where
  "hooked_value k 0 d s = Inl NoFuel"
| "hooked_value k (Suc f) d s =
     (case s of
        [] \<Rightarrow> Inl Syntax
      | c # r \<Rightarrow>
          if c = 34
          then (case scan_str r of None \<Rightarrow> Inl Syntax | Some (t, r1) \<Rightarrow> Inr (JStr t, r1))
          else if c = 123
          then (if d = 0 then Inl Nested
                else if take 1 (skip_ws r) = [125]
                then raise_if (pairs_hook k []) (JObj [], drop 1 (skip_ws r))
                else bindE (hooked_fields k f (d - 1) (skip_ws r))
                       (\<lambda>(kvs, r1). raise_if (pairs_hook k kvs) (JObj (dict_of kvs), r1)))
          else if c = 91
          then (if d = 0 then Inl Nested
                else if take 1 (skip_ws r) = [93] then Inr (JArr [], drop 1 (skip_ws r))
                else bindE (hooked_items k f (d - 1) (skip_ws r)) (\<lambda>(vs, r1). Inr (JArr vs, r1)))
          else (case scan_word s of
                  Some (v, r1) \<Rightarrow> hooked_word k v r1
                | None \<Rightarrow>
                    (case scan_num s of
                       None \<Rightarrow> Inl Syntax
                     | Some (p, r1) \<Rightarrow> bindE (hooked_number p) (\<lambda>v. Inr (v, r1)))))"
| "hooked_items k 0 d s = Inl NoFuel"
| "hooked_items k (Suc f) d s =
     bindE (hooked_value k f d s) (\<lambda>(v, r).
       if take 1 (skip_ws r) = [93] then Inr ([v], drop 1 (skip_ws r))
       else if take 1 (skip_ws r) = [44]
       then bindE (hooked_items k f d (skip_ws (drop 1 (skip_ws r)))) (\<lambda>(vs, r1). Inr (v # vs, r1))
       else Inl Syntax)"
| "hooked_fields k 0 d s = Inl NoFuel"
| "hooked_fields k (Suc f) d s =
     (if take 1 s = [34]
      then (case scan_str (drop 1 s) of
              None \<Rightarrow> Inl Syntax
            | Some (key, r) \<Rightarrow>
                if take 1 (skip_ws r) = [58]
                then bindE (hooked_value k f d (skip_ws (drop 1 (skip_ws r)))) (\<lambda>(v, r1).
                       if take 1 (skip_ws r1) = [125] then Inr ([(key, v)], drop 1 (skip_ws r1))
                       else if take 1 (skip_ws r1) = [44]
                       then bindE (hooked_fields k f d (skip_ws (drop 1 (skip_ws r1))))
                              (\<lambda>(kvs, r2). Inr ((key, v) # kvs, r2))
                       else Inl Syntax)
                else Inl Syntax)
      else Inl Syntax)"

definition hooked_loads :: "'e hooks \<Rightarrow> nat \<Rightarrow> ustr \<Rightarrow> 'e load_error + json" where
  "hooked_loads k limit s =
     (if take 1 s = [65279] then Inl Syntax
      else bindE (hooked_value k (2 * length s + 2) limit (skip_ws s))
             (\<lambda>(v, r). if skip_ws r = [] then Inr v else Inl Syntax))"

section \<open>Relation to the plain parser\<close>

text \<open>Either the hooks or the digits stop the parse, or it does what \<open>json.loads\<close> does.\<close>

definition follows :: "'e load_error + 'a \<Rightarrow> json_error + 'a \<Rightarrow> bool" where
  "follows x y \<longleftrightarrow>
     (case x of
        Inr v \<Rightarrow> y = Inr v
      | Inl (Raised e) \<Rightarrow> True
      | Inl Digits \<Rightarrow> True
      | Inl e \<Rightarrow> (\<exists>e'. y = Inl e' \<and> e = plain_error e'))"

lemma plain_error_iff [simp]:
  "Syntax = plain_error e \<longleftrightarrow> e = BadJson" "Nested = plain_error e \<longleftrightarrow> e = TooDeep"
  "NoFuel = plain_error e \<longleftrightarrow> e = OutOfFuel"
  by (cases e; simp add: plain_error_def)+

lemma follows_simps [simp]:
  "follows (Inr v) y \<longleftrightarrow> y = Inr v"
  "follows (Inl (Raised e)) y" "follows (Inl Digits) y"
  "follows (Inl Syntax) y \<longleftrightarrow> y = Inl BadJson" "follows (Inl Nested) y \<longleftrightarrow> y = Inl TooDeep"
  "follows (Inl NoFuel) y \<longleftrightarrow> y = Inl OutOfFuel"
  by (auto simp: follows_def)

text \<open>One rule per construct of the two parsers.\<close>

lemma follows_if:
  "(b \<Longrightarrow> follows x y) \<Longrightarrow> (\<not> b \<Longrightarrow> follows x' y') \<Longrightarrow> follows (if b then x else x') (if b then y else y')"
  by simp

lemma follows_option:
  "(v = None \<Longrightarrow> follows x y) \<Longrightarrow> (\<And>w. v = Some w \<Longrightarrow> follows (f w) (g w)) \<Longrightarrow>
    follows (case v of None \<Rightarrow> x | Some w \<Rightarrow> f w) (case v of None \<Rightarrow> y | Some w \<Rightarrow> g w)"
  by (cases v) simp_all

lemma follows_pair:
  "(\<And>a b. p = (a, b) \<Longrightarrow> follows (f a b) (g a b)) \<Longrightarrow>
    follows (case p of (a, b) \<Rightarrow> f a b) (case p of (a, b) \<Rightarrow> g a b)"
  by (cases p) simp

lemma follows_bind:
  "follows x y \<Longrightarrow> (\<And>v. x = Inr v \<Longrightarrow> y = Inr v \<Longrightarrow> follows (f v) (g v)) \<Longrightarrow> follows (bindE x f) (bindE y g)"
  by (cases x) (auto simp: follows_def split: load_error.splits)

lemma follows_raise: "follows (raise_if e v) (Inr v)"
  by (simp add: raise_if_def split: option.split)

lemma follows_word: "follows (hooked_word k v r) (Inr (v, r))"
  by (simp add: hooked_word_def follows_raise split: option.split)

lemma follows_number: "follows (hooked_number p) (num_value p)"
  by (simp add: hooked_number_def split: sum.split)

lemma hooked_follows:
  "follows (hooked_value k f d s) (scan_value f d s)"
  "follows (hooked_items k f d s) (scan_items f d s)"
  "follows (hooked_fields k f d s) (scan_fields f d s)"
proof (induction k f d s and k f d s and k f d s rule: hooked_value_hooked_items_hooked_fields.induct)
  case (2 k f d s)
  show ?case
  proof (cases s)
    case Nil
    then show ?thesis by (simp add: scan_value.simps(2))
  next
    case (Cons c r)
    show ?thesis
      unfolding hooked_value.simps(2) scan_value.simps(2) Cons list.case
      by (intro follows_if follows_option follows_pair follows_bind follows_raise follows_word
          follows_number 2 [OF Cons]; simp)
  qed
next
  case (4 k f d s)
  then show ?case
    unfolding hooked_items.simps(2) scan_items.simps(2)
    by (intro follows_if follows_pair follows_bind; simp)
next
  case (6 k f d s)
  then show ?case
    unfolding hooked_fields.simps(2) scan_fields.simps(2)
    by (intro follows_if follows_option follows_pair follows_bind; simp)
qed (simp_all add: scan_value.simps(1) scan_items.simps(1) scan_fields.simps(1))

lemma hooked_loads_follows: "follows (hooked_loads k limit s) (loads limit s)"
  unfolding hooked_loads_def loads_def
  by (intro follows_if follows_bind follows_pair hooked_follows; simp)

lemma hooked_loads_fuel: "hooked_loads k limit s \<noteq> Inl NoFuel"
  using hooked_loads_follows [of k limit s] loads_no_fuel [of limit s] by (auto simp: follows_def)

section \<open>Evaluating a parse\<close>

text \<open>The equations on literal text and literal fuel, for reading a concrete document.\<close>

lemma scan_str_Cons:
  "scan_str (c # r) = (if c = 34 then Some ([], r)
          else if c = 92
          then (case unescape r of
                  None \<Rightarrow> None
                | Some (x, r1) \<Rightarrow> map_option (\<lambda>(t, r2). (x # t, r2)) (scan_str r1))
          else if c < 32 then None
          else map_option (\<lambda>(t, r2). (c # t, r2)) (scan_str r))"
  by (simp add: scan_str.simps [of "c # r"])

lemma hooked_value_Cons:
  "hooked_value k (numeral f) d (c # r) =
     (if c = 34 then (case scan_str r of None \<Rightarrow> Inl Syntax | Some (t, r1) \<Rightarrow> Inr (JStr t, r1))
      else if c = 123
      then (if d = 0 then Inl Nested
            else if take 1 (skip_ws r) = [125]
            then raise_if (pairs_hook k []) (JObj [], drop 1 (skip_ws r))
            else bindE (hooked_fields k (pred_numeral f) (d - 1) (skip_ws r))
                   (\<lambda>(kvs, r1). raise_if (pairs_hook k kvs) (JObj (dict_of kvs), r1)))
      else if c = 91
      then (if d = 0 then Inl Nested
            else if take 1 (skip_ws r) = [93] then Inr (JArr [], drop 1 (skip_ws r))
            else bindE (hooked_items k (pred_numeral f) (d - 1) (skip_ws r)) (\<lambda>(vs, r1). Inr (JArr vs, r1)))
      else (case scan_word (c # r) of
              Some (v, r1) \<Rightarrow> hooked_word k v r1
            | None \<Rightarrow>
                (case scan_num (c # r) of
                   None \<Rightarrow> Inl Syntax
                 | Some (p, r1) \<Rightarrow> bindE (hooked_number p) (\<lambda>v. Inr (v, r1)))))"
  by (simp add: numeral_eq_Suc)

lemma hooked_items_numeral:
  "hooked_items k (numeral f) d s =
     bindE (hooked_value k (pred_numeral f) d s) (\<lambda>(v, r).
       if take 1 (skip_ws r) = [93] then Inr ([v], drop 1 (skip_ws r))
       else if take 1 (skip_ws r) = [44]
       then bindE (hooked_items k (pred_numeral f) d (skip_ws (drop 1 (skip_ws r)))) (\<lambda>(vs, r1). Inr (v # vs, r1))
       else Inl Syntax)"
  by (simp add: numeral_eq_Suc)

lemma hooked_fields_numeral:
  "hooked_fields k (numeral f) d s =
     (if take 1 s = [34]
      then (case scan_str (drop 1 s) of
              None \<Rightarrow> Inl Syntax
            | Some (key, r) \<Rightarrow>
                if take 1 (skip_ws r) = [58]
                then bindE (hooked_value k (pred_numeral f) d (skip_ws (drop 1 (skip_ws r)))) (\<lambda>(v, r1).
                       if take 1 (skip_ws r1) = [125] then Inr ([(key, v)], drop 1 (skip_ws r1))
                       else if take 1 (skip_ws r1) = [44]
                       then bindE (hooked_fields k (pred_numeral f) d (skip_ws (drop 1 (skip_ws r1))))
                              (\<lambda>(kvs, r2). Inr ((key, v) # kvs, r2))
                       else Inl Syntax)
                else Inl Syntax)
      else Inl Syntax)"
  by (simp add: numeral_eq_Suc)

lemma scan_str_replicate:
  "32 \<le> c \<Longrightarrow> c \<noteq> 34 \<Longrightarrow> c \<noteq> 92 \<Longrightarrow>
    scan_str (replicate n c @ r) = map_option (\<lambda>(t, r2). (replicate n c @ t, r2)) (scan_str r)"
  by (induction n; cases "scan_str r") (auto simp: scan_str_Cons)

lemmas hooked_eval = scan_str_replicate scan_str_Cons hooked_value_Cons hooked_items_numeral hooked_fields_numeral
  skip_ws_def scan_word_def json_words_def starts_with_def scan_num_def scan_int_def scan_frac_def
  scan_exp_def starts_digit_def span_digits_def is_digit_ascii_def hooked_number_def num_value_def
  is_float_parts_def MAX_INT_DIGITS_def raise_if_def hooked_word_def constant_of_def nat_of_digits_def

end
