(* ===== verification/PackageManifest.thy ===== *)
theory PackageManifest
  imports JsonHooks Utf8 "HOL-Library.List_Lexorder"
begin

text \<open>
  \<open>scripts/validate-package-manifest.py\<close>: a release manifest, the check of its shape, the walk over the
  directory it describes, and the comparison of the two. A \<open>ManifestError\<close> is a value of
  \<open>manifest_error\<close>, one constructor for each \<open>raise\<close>; the last three are exceptions of the library the
  script does not catch. A directory is a tree of entries. The digest is an argument.
\<close>

definition LANGUAGES :: "ustr list" where
  "LANGUAGES = [u ''go'', u ''node'', u ''python'', u ''php'', u ''java'', u ''dotnet'', u ''ruby'']"

definition MANIFEST_NAME :: ustr where
  "MANIFEST_NAME = u ''manifest.json''"

definition PACKAGE_VERSION :: ustr where
  "PACKAGE_VERSION = u ''0.4.0''"

datatype manifest_error =
    NonJsonNumber ustr
  | RepeatedKey ustr
  | InvalidUtf8
  | InvalidJson
  | PathNotText
  | PathWithBackslash ustr
  | PathAbsolute ustr
  | PathComponent ustr
  | ListsItself
  | NotAnObject
  | WrongKeys "ustr list" "ustr list"
  | SchemaVersion
  | UnknownLanguage
  | OtherLanguage json ustr
  | OtherVersion json ustr
  | NoArtifacts
  | ArtifactKeys nat
  | BadDigest ustr
  | BadSize ustr
  | PathsRepeat
  | PathsUnsorted
  | LinkInOutput ustr
  | SpecialInOutput ustr
  | WrongName
  | Missing
  | NotRegular
  | OutputIsLink
  | ListedMissing "ustr list"
  | Unlisted "ustr list"
  | SizeDiffers ustr nat int
  | DigestDiffers ustr
  | RootNotDirectory
  | WrongEntries "ustr list" "ustr list"
  | LanguageNotDirectory ustr
  | InLanguage ustr manifest_error
  | RecursionRaised
  | DigitsRaised
  | UnicodeRaised

record artifact =
  art_path :: ustr
  art_sha256 :: ustr
  art_size :: int

section \<open>Loading\<close>

fun first_repeat :: "ustr list \<Rightarrow> ustr list \<Rightarrow> ustr option" where
  "first_repeat seen [] = None"
| "first_repeat seen (k # ks) = (if k \<in> set seen then Some k else first_repeat (seen @ [k]) ks)"

definition unique_object :: "(ustr \<times> json) list \<Rightarrow> manifest_error option" where
  "unique_object pairs = map_option RepeatedKey (first_repeat [] (map fst pairs))"

definition manifest_hooks :: "manifest_error hooks" where
  "manifest_hooks = \<lparr>pairs_hook = unique_object, constant_hook = (\<lambda>w. Some (NonJsonNumber w))\<rparr>"

definition load_manifest :: "nat \<Rightarrow> bytes \<Rightarrow> manifest_error + json" where
  "load_manifest limit content =
     (case utf8_decode content of
        None \<Rightarrow> Inl InvalidUtf8
      | Some s \<Rightarrow>
          (case hooked_loads manifest_hooks limit s of
             Inr v \<Rightarrow> Inr v
           | Inl (Raised e) \<Rightarrow> Inl e
           | Inl Nested \<Rightarrow> Inl RecursionRaised
           | Inl Digits \<Rightarrow> Inl DigitsRaised
           | Inl Syntax \<Rightarrow> Inl InvalidJson
           | Inl NoFuel \<Rightarrow> Inl InvalidJson))"

section \<open>The shape of a manifest\<close>

definition check_path :: "json \<Rightarrow> manifest_error + ustr" where
  "check_path v =
     (case v of
        JStr path \<Rightarrow>
          if path = [] then Inl PathNotText
          else if 92 \<in> set path \<or> 0 \<in> set path then Inl (PathWithBackslash path)
          else if hd path = 47 then Inl (PathAbsolute path)
          else if list_ex (\<lambda>part. part \<in> {[], u ''.'', u ''..''}) (split_on 47 path) then Inl (PathComponent path)
          else if path = MANIFEST_NAME then Inl ListsItself
          else Inr path
      | _ \<Rightarrow> Inl PathNotText)"

definition is_sha256 :: "ustr \<Rightarrow> bool" where
  "is_sha256 s \<longleftrightarrow> length s = 64 \<and> list_all (\<lambda>c. 48 \<le> c \<and> c \<le> 57 \<or> 97 \<le> c \<and> c \<le> 102) s"

definition has_keys :: "json \<Rightarrow> ustr list \<Rightarrow> bool" where
  "has_keys v ks \<longleftrightarrow> (case v of JObj d \<Rightarrow> set (dict_keys d) = set ks | _ \<Rightarrow> False)"

definition field :: "json \<Rightarrow> string \<Rightarrow> json" where
  "field v name = (case v of JObj d \<Rightarrow> (case dict_get d (u name) of Some w \<Rightarrow> w | None \<Rightarrow> JNull) | _ \<Rightarrow> JNull)"

definition check_artifact :: "nat \<Rightarrow> json \<Rightarrow> manifest_error + artifact" where
  "check_artifact index raw =
     (if \<not> has_keys raw [u ''path'', u ''sha256'', u ''size_bytes''] then Inl (ArtifactKeys index)
      else bindE (check_path (field raw ''path'')) (\<lambda>path.
        case field raw ''sha256'' of
          JStr sha256 \<Rightarrow>
            if \<not> is_sha256 sha256 then Inl (BadDigest path)
            else (case field raw ''size_bytes'' of
                    JInt count \<Rightarrow>
                      if count < 1 then Inl (BadSize path)
                      else Inr \<lparr>art_path = path, art_sha256 = sha256, art_size = count\<rparr>
                  | _ \<Rightarrow> Inl (BadSize path))
        | _ \<Rightarrow> Inl (BadDigest path)))"

primrec check_artifacts :: "nat \<Rightarrow> json list \<Rightarrow> manifest_error + artifact list" where
  "check_artifacts index [] = Inr []"
| "check_artifacts index (raw # raws) =
     bindE (check_artifact index raw) (\<lambda>a. bindE (check_artifacts (index + 1) raws) (\<lambda>rest. Inr (a # rest)))"

text \<open>\<open>sorted(paths, key=lambda value: value.encode("utf-8"))\<close>: a lone surrogate cannot be encoded.\<close>

definition sorted_by_utf8 :: "ustr list \<Rightarrow> manifest_error + ustr list" where
  "sorted_by_utf8 paths =
     (if list_all valid_unicode paths then Inr (sort_key (\<lambda>p. the (utf8_encode p)) paths) else Inl UnicodeRaised)"

definition MANIFEST_KEYS :: "ustr list" where
  "MANIFEST_KEYS = [u ''artifacts'', u ''language'', u ''schema_version'', u ''version'']"

definition parse_manifest :: "ustr \<Rightarrow> ustr \<Rightarrow> json \<Rightarrow> manifest_error + artifact list" where
  "parse_manifest language version document =
     (case document of
        JObj d \<Rightarrow>
          if \<not> has_keys document MANIFEST_KEYS
          then Inl (WrongKeys (sort (filter (\<lambda>k. k \<notin> set MANIFEST_KEYS) (dict_keys d)))
                 (filter (\<lambda>k. k \<notin> set (dict_keys d)) MANIFEST_KEYS))
          else if field document ''schema_version'' \<noteq> JInt 1 then Inl SchemaVersion
          else if field document ''language'' \<notin> JStr ` set LANGUAGES then Inl UnknownLanguage
          else if field document ''language'' \<noteq> JStr language then Inl (OtherLanguage (field document ''language'') language)
          else if field document ''version'' \<noteq> JStr version then Inl (OtherVersion (field document ''version'') version)
          else (case field document ''artifacts'' of
                  JArr raws \<Rightarrow>
                    if raws = [] then Inl NoArtifacts
                    else bindE (check_artifacts 0 raws) (\<lambda>artifacts.
                      let paths = map art_path artifacts in
                      if \<not> distinct paths then Inl PathsRepeat
                      else bindE (sorted_by_utf8 paths) (\<lambda>ordered.
                        if paths \<noteq> ordered then Inl PathsUnsorted else Inr artifacts))
                | _ \<Rightarrow> Inl NoArtifacts)
      | _ \<Rightarrow> Inl NotAnObject)"

section \<open>The output directory\<close>

text \<open>
  What \<open>os.walk\<close> finds: regular files with their content, directories with their entries, symbolic
  links (told by whether they lead to a directory, as \<open>os.walk\<close> lists those with the directories), and
  other files.
\<close>

datatype entry = RegularFile bytes | Directory "(ustr \<times> entry) list" | SymbolicLink bool | SpecialFile

definition is_dir_entry :: "entry \<Rightarrow> bool" where
  "is_dir_entry e \<longleftrightarrow> (case e of Directory _ \<Rightarrow> True | SymbolicLink to_dir \<Rightarrow> to_dir | _ \<Rightarrow> False)"

definition join_path :: "ustr list \<Rightarrow> ustr" where
  "join_path parts = join_with [47] parts"

text \<open>The entries of one directory, in the order \<open>subdirectories + names\<close>.\<close>

primrec check_entries :: "ustr list \<Rightarrow> (ustr \<times> entry) list \<Rightarrow> manifest_error + ustr list list" where
  "check_entries pre [] = Inr []"
| "check_entries pre (ne # nes) =
     (case snd ne of
        SymbolicLink _ \<Rightarrow> Inl (LinkInOutput (join_path (pre @ [fst ne])))
      | Directory _ \<Rightarrow> check_entries pre nes
      | SpecialFile \<Rightarrow> Inl (SpecialInOutput (join_path (pre @ [fst ne])))
      | RegularFile _ \<Rightarrow> bindE (check_entries pre nes) (\<lambda>fs. Inr ((pre @ [fst ne]) # fs)))"

definition walk_order :: "(ustr \<times> entry) list \<Rightarrow> (ustr \<times> entry) list" where
  "walk_order nes = filter (\<lambda>ne. is_dir_entry (snd ne)) nes @ filter (\<lambda>ne. \<not> is_dir_entry (snd ne)) nes"

fun walk_entry :: "ustr list \<Rightarrow> entry \<Rightarrow> manifest_error + ustr list list" where
  "walk_entry pre (Directory nes) =
     bindE (check_entries pre (walk_order nes)) (\<lambda>here.
     bindE (mapE (\<lambda>ne. walk_entry (pre @ [fst ne]) (snd ne)) nes) (\<lambda>below. Inr (here @ concat below)))"
| "walk_entry pre _ = Inr []"

definition regular_files :: "(ustr \<times> entry) list \<Rightarrow> manifest_error + ustr list" where
  "regular_files nes = bindE (walk_entry [] (Directory nes)) (\<lambda>parts. Inr (map join_path parts))"

fun find_entry :: "ustr list \<Rightarrow> entry \<Rightarrow> entry option" where
  "find_entry [] e = Some e"
| "find_entry (p # ps) (Directory nes) = Option.bind (map_of nes p) (find_entry ps)"
| "find_entry _ _ = None"

section \<open>Validating a directory\<close>

text \<open>The path handed over: its last component, and the directory that holds it.\<close>

record manifest_path =
  mp_name :: ustr
  mp_output_is_link :: bool
  mp_entries :: "(ustr \<times> entry) list"

definition file_content :: "(ustr \<times> entry) list \<Rightarrow> ustr \<Rightarrow> bytes" where
  "file_content nes path =
     (case find_entry (split_on 47 path) (Directory nes) of Some (RegularFile bs) \<Rightarrow> bs | _ \<Rightarrow> [])"

primrec check_files :: "(bytes \<Rightarrow> ustr) \<Rightarrow> (ustr \<times> entry) list \<Rightarrow> artifact list \<Rightarrow> manifest_error + unit" where
  "check_files sha256 nes [] = Inr ()"
| "check_files sha256 nes (a # artifacts) =
     (let bs = file_content nes (art_path a) in
      if int (length bs) \<noteq> art_size a then Inl (SizeDiffers (art_path a) (length bs) (art_size a))
      else if sha256 bs \<noteq> art_sha256 a then Inl (DigestDiffers (art_path a))
      else check_files sha256 nes artifacts)"

definition validate_manifest ::
  "(bytes \<Rightarrow> ustr) \<Rightarrow> nat \<Rightarrow> ustr \<Rightarrow> ustr \<Rightarrow> manifest_path \<Rightarrow> manifest_error + artifact list" where
  "validate_manifest sha256 limit language version m =
     (if mp_name m \<noteq> MANIFEST_NAME then Inl WrongName
      else (case map_of (mp_entries m) (mp_name m) of
              None \<Rightarrow> Inl Missing
            | Some (RegularFile content) \<Rightarrow>
                if mp_output_is_link m then Inl OutputIsLink
                else
                  bindE (load_manifest limit content) (\<lambda>document.
                  bindE (parse_manifest language version document) (\<lambda>artifacts.
                  bindE (regular_files (mp_entries m)) (\<lambda>files.
                    let present = filter (\<lambda>f. f \<noteq> MANIFEST_NAME) files; listed = map art_path artifacts;
                        missing = filter (\<lambda>p. p \<notin> set present) listed;
                        unlisted = filter (\<lambda>p. p \<notin> set listed) present
                    in if missing \<noteq> [] then Inl (ListedMissing (sort missing))
                       else if unlisted \<noteq> [] then Inl (Unlisted (sort unlisted))
                       else bindE (check_files sha256 (mp_entries m) artifacts) (\<lambda>_. Inr artifacts))))
            | Some _ \<Rightarrow> Inl NotRegular))"

definition uncaught :: "manifest_error \<Rightarrow> bool" where
  "uncaught e \<longleftrightarrow> e \<in> {RecursionRaised, DigitsRaised, UnicodeRaised}"

definition validate_language ::
  "(bytes \<Rightarrow> ustr) \<Rightarrow> nat \<Rightarrow> ustr \<Rightarrow> (ustr \<times> entry) list \<Rightarrow> ustr \<Rightarrow> manifest_error + artifact list" where
  "validate_language sha256 limit version base language =
     (case map_of base language of
        Some (Directory nes) \<Rightarrow>
          (case validate_manifest sha256 limit language version
                  \<lparr>mp_name = MANIFEST_NAME, mp_output_is_link = False, mp_entries = nes\<rparr> of
             Inl e \<Rightarrow> Inl (if uncaught e then e else InLanguage language e)
           | Inr artifacts \<Rightarrow> Inr artifacts)
      | _ \<Rightarrow> Inl (LanguageNotDirectory language))"

text \<open>\<open>None\<close> is a path that leads nowhere.\<close>

definition validate_all ::
  "(bytes \<Rightarrow> ustr) \<Rightarrow> nat \<Rightarrow> ustr \<Rightarrow> entry option \<Rightarrow> manifest_error + (ustr \<times> artifact list) list" where
  "validate_all sha256 limit version base =
     (case base of
        Some (Directory nes) \<Rightarrow>
          if set (map fst nes) \<noteq> set LANGUAGES
          then Inl (WrongEntries (filter (\<lambda>l. l \<notin> set (map fst nes)) LANGUAGES)
                 (sort (filter (\<lambda>n. n \<notin> set LANGUAGES) (map fst nes))))
          else mapE (\<lambda>language. bindE (validate_language sha256 limit version nes language)
                 (\<lambda>artifacts. Inr (language, artifacts))) LANGUAGES
      | _ \<Rightarrow> Inl RootNotDirectory)"

section \<open>Reports\<close>

definition markdown_row :: "ustr \<Rightarrow> artifact \<Rightarrow> ustr" where
  "markdown_row language a =
     u ''| '' @ language @ u '' | `'' @ art_path a @ u ''` | '' @ str_of_int (art_size a) @ u '' | `'' @
     art_sha256 a @ u ''` |''"

definition markdown_summary :: "ustr \<Rightarrow> (ustr \<times> artifact list) list \<Rightarrow> ustr" where
  "markdown_summary version results =
     join_with [10]
       ([u ''### Cekat event SDK '' @ version @ u '' package artifacts'', [],
         u ''| Language | Artifact | Bytes | SHA-256 |'', u ''| --- | --- | ---: | --- |''] @
        concat (map (\<lambda>(language, artifacts). map (markdown_row language) artifacts) results)) @ [10]"

section \<open>The command\<close>

text \<open>
  The parsed arguments, the path of the manifest with the text of its parent. The run ends with a usage
  error of the argument parser, with the reported error and status 1, with an exception the script does
  not catch, or with status 0 and what it prints.
\<close>

record arguments =
  arg_manifest :: "(ustr \<times> manifest_path) option"
  arg_language :: "ustr option"
  arg_version :: "ustr option"
  arg_aggregate :: "entry option option"
  arg_markdown :: bool

datatype outcome = Usage | Invalid manifest_error | Traceback manifest_error | Printed ustr

definition report_error :: "manifest_error \<Rightarrow> outcome" where
  "report_error e = (if uncaught e then Traceback e else Invalid e)"

definition verified_line :: "ustr \<Rightarrow> artifact list \<Rightarrow> ustr" where
  "verified_line language artifacts =
     language @ u '': '' @ str_of_nat (length artifacts) @ u '' artifact(s) verified''"

definition check_all :: "(bytes \<Rightarrow> ustr) \<Rightarrow> nat \<Rightarrow> entry option \<Rightarrow> arguments \<Rightarrow> outcome" where
  "check_all sha256 limit base a =
     (if arg_manifest a \<noteq> None \<or> arg_language a \<noteq> None then Usage
      else if arg_version a \<notin> {None, Some PACKAGE_VERSION} then Usage
      else (case validate_all sha256 limit PACKAGE_VERSION base of
              Inl e \<Rightarrow> report_error e
            | Inr results \<Rightarrow>
                Printed (if arg_markdown a then markdown_summary PACKAGE_VERSION results
                         else concat (map (\<lambda>(l, artifacts). verified_line l artifacts @ [10]) results))))"

definition package_main :: "(bytes \<Rightarrow> ustr) \<Rightarrow> nat \<Rightarrow> arguments \<Rightarrow> outcome" where
  "package_main sha256 limit a =
     (case arg_aggregate a of
        Some base \<Rightarrow> check_all sha256 limit base a
      | None \<Rightarrow>
          (case (arg_manifest a, arg_language a, arg_version a) of
             (Some (parent, m), Some language, Some version) \<Rightarrow>
               if arg_markdown a then Usage
               else if version \<noteq> PACKAGE_VERSION then Usage
               else (case validate_manifest sha256 limit language version m of
                       Inl e \<Rightarrow> report_error e
                     | Inr artifacts \<Rightarrow> Printed (verified_line language artifacts @ u '' in '' @ parent @ [10]))
           | _ \<Rightarrow> Usage))"

end
