(* ===== verification/ManifestChecks.thy ===== *)
theory ManifestChecks
  imports PackageManifest
begin

text \<open>
  What \<open>scripts/validate-package-manifest.py\<close> establishes: the walk finds every regular file below the
  directory and stops at anything else, an accepted path stays below the directory, an accepted document is
  the one that declares the returned artifacts, and a run succeeds exactly on a directory that holds what
  its manifest says.
\<close>

section \<open>What the walk finds\<close>

text \<open>A tree as a file system has it: the names of a directory differ and are single components.\<close>

definition component_ok :: "ustr \<Rightarrow> bool" where
  "component_ok n \<longleftrightarrow> n \<notin> {[], u ''.'', u ''..''} \<and> 47 \<notin> set n"

fun tree_ok :: "entry \<Rightarrow> bool" where
  "tree_ok (Directory nes) \<longleftrightarrow>
     distinct (map fst nes) \<and> (\<forall>ne\<in>set nes. component_ok (fst ne) \<and> tree_ok (snd ne))"
| "tree_ok _ \<longleftrightarrow> True"

fun only_files :: "entry \<Rightarrow> bool" where
  "only_files (Directory nes) \<longleftrightarrow> (\<forall>ne\<in>set nes. only_files (snd ne))"
| "only_files (RegularFile _) \<longleftrightarrow> True"
| "only_files _ \<longleftrightarrow> False"

definition file_at :: "(ustr \<times> entry) list \<Rightarrow> ustr \<Rightarrow> bytes \<Rightarrow> bool" where
  "file_at nes path bs \<longleftrightarrow> find_entry (split_on 47 path) (Directory nes) = Some (RegularFile bs)"

fun is_file :: "entry \<Rightarrow> bool" where
  "is_file (RegularFile _) \<longleftrightarrow> True"
| "is_file _ \<longleftrightarrow> False"

fun may_stay :: "entry \<Rightarrow> bool" where
  "may_stay (RegularFile _) \<longleftrightarrow> True"
| "may_stay (Directory _) \<longleftrightarrow> True"
| "may_stay _ \<longleftrightarrow> False"

lemma check_entries_iff:
  "check_entries pre nes = Inr fs \<longleftrightarrow>
     (\<forall>ne\<in>set nes. may_stay (snd ne)) \<and> fs = map (\<lambda>ne. pre @ [fst ne]) (filter (\<lambda>ne. is_file (snd ne)) nes)"
  by (induction nes arbitrary: fs) (auto simp: bindE_Inr_iff split: entry.split)

lemma set_walk_order [simp]: "set (walk_order nes) = set nes"
  by (auto simp: walk_order_def)

lemma join_path_split: "join_path (split_on 47 path) = path"
  by (simp add: join_path_def)

lemma split_join_path:
  "ps \<noteq> [] \<Longrightarrow> (\<And>p. p \<in> set ps \<Longrightarrow> component_ok p) \<Longrightarrow> split_on 47 (join_path ps) = ps"
  unfolding join_path_def
proof (induction ps)
  case (Cons p ps)
  then show ?case
    using split_on_absent [of 47 p] split_on_append_sep [of 47 p]
    by (simp add: component_ok_def)
qed simp

lemma find_entry_components:
  "find_entry ps e = Some e' \<Longrightarrow> tree_ok e \<Longrightarrow> p \<in> set ps \<Longrightarrow> component_ok p"
  by (induction ps e rule: find_entry.induct) (auto simp: bind_eq_Some_conv dest: map_of_SomeD)

lemma entry_tree_induct [case_names Directory Other]:
  assumes "\<And>nes. (\<And>ne. ne \<in> set nes \<Longrightarrow> P (snd ne)) \<Longrightarrow> P (Directory nes)"
    and "\<And>e. \<nexists>nes. e = Directory nes \<Longrightarrow> P e"
  shows "P e"
proof (induction e)
  case (Directory nes)
  then show ?case by (intro assms(1)) (auto simp: snds.simps)
qed (auto intro: assms(2))

text \<open>The walk ends without an error exactly where there are only files, and finds each of them.\<close>

lemma walk_Directory_iff:
  "walk_entry pre (Directory nes) = Inr fs \<longleftrightarrow>
     (\<forall>ne\<in>set nes. may_stay (snd ne)) \<and>
     (\<exists>below. list_all2 (\<lambda>ne b. walk_entry (pre @ [fst ne]) (snd ne) = Inr b) nes below \<and>
        fs = map (\<lambda>ne. pre @ [fst ne]) (filter (\<lambda>ne. is_file (snd ne)) (walk_order nes)) @ concat below)"
  by (auto simp: bindE_Inr_iff check_entries_iff mapE_Inr_iff)

lemma walk_entry_total: "may_stay e \<and> (\<exists>fs. walk_entry pre e = Inr fs) \<longleftrightarrow> only_files e"
proof (induction e arbitrary: pre rule: entry_tree_induct)
  case (Directory nes)
  have "(\<exists>fs. walk_entry pre (Directory nes) = Inr fs) \<longleftrightarrow>
      (\<forall>ne\<in>set nes. may_stay (snd ne)) \<and> (\<forall>ne\<in>set nes. \<exists>b. walk_entry (pre @ [fst ne]) (snd ne) = Inr b)"
    using mapE_ex [of "\<lambda>ne. walk_entry (pre @ [fst ne]) (snd ne)" nes]
    by (auto simp: bindE_Inr_iff check_entries_iff)
  also have "\<dots> \<longleftrightarrow> (\<forall>ne\<in>set nes. only_files (snd ne))"
    using Directory by metis
  finally show ?case by simp
next
  case (Other e)
  then show ?case by (cases e) simp_all
qed

lemma set_concat_list_all2:
  "list_all2 (\<lambda>x b. f x = Inr b) xs bs \<Longrightarrow> y \<in> set (concat bs) \<longleftrightarrow> (\<exists>x\<in>set xs. \<exists>b. f x = Inr b \<and> y \<in> set b)"
  by (induction xs bs rule: list_all2_induct) auto

lemma find_entry_step:
  assumes "distinct (map fst nes)"
  shows "(ps \<noteq> [] \<and> find_entry ps (Directory nes) = Some e') \<longleftrightarrow>
    (\<exists>ne\<in>set nes. \<exists>qs. ps = fst ne # qs \<and> find_entry qs (snd ne) = Some e')"
  using assms by (cases ps) (force simp: bind_eq_Some_conv)+

lemma find_entry_here: "find_entry [] e = Some (RegularFile bs) \<longleftrightarrow> e = RegularFile bs"
  by simp

lemma is_file_iff: "is_file e \<longleftrightarrow> (\<exists>bs. e = RegularFile bs)"
  by (cases e) simp_all

lemma walk_entry_finds:
  "walk_entry pre e = Inr fs \<Longrightarrow> tree_ok e \<Longrightarrow>
    f \<in> set fs \<longleftrightarrow> (\<exists>ps bs. f = pre @ ps \<and> ps \<noteq> [] \<and> find_entry ps e = Some (RegularFile bs))"
proof (induction e arbitrary: pre fs rule: entry_tree_induct)
  case (Directory nes)
  obtain below where below: "list_all2 (\<lambda>ne b. walk_entry (pre @ [fst ne]) (snd ne) = Inr b) nes below"
    and fs: "fs = map (\<lambda>ne. pre @ [fst ne]) (filter (\<lambda>ne. is_file (snd ne)) (walk_order nes)) @ concat below"
    using Directory.prems(1) unfolding walk_Directory_iff by blast
  have names: "distinct (map fst nes)" and sub: "\<And>ne. ne \<in> set nes \<Longrightarrow> tree_ok (snd ne)"
    using Directory.prems(2) by auto
  have below_iff: "f \<in> set (concat below) \<longleftrightarrow>
      (\<exists>ne\<in>set nes. \<exists>qs bs. f = pre @ fst ne # qs \<and> qs \<noteq> [] \<and> find_entry qs (snd ne) = Some (RegularFile bs))"
  proof -
    have "\<exists>b. walk_entry (pre @ [fst ne]) (snd ne) = Inr b" if "ne \<in> set nes" for ne
      using below that unfolding list_all2_conv_all_nth in_set_conv_nth by metis
    then show ?thesis
      unfolding set_concat_list_all2 [OF below] using Directory.IH sub by (intro bex_cong refl) fastforce
  qed
  have here_iff: "f \<in> set (map (\<lambda>ne. pre @ [fst ne]) (filter (\<lambda>ne. is_file (snd ne)) (walk_order nes))) \<longleftrightarrow>
      (\<exists>ne\<in>set nes. \<exists>bs. f = pre @ fst ne # [] \<and> find_entry [] (snd ne) = Some (RegularFile bs))"
    unfolding find_entry_here set_map set_filter set_walk_order is_file_iff image_iff by blast
  have "f \<in> set fs \<longleftrightarrow>
      (\<exists>ne\<in>set nes. \<exists>qs bs. f = pre @ fst ne # qs \<and> find_entry qs (snd ne) = Some (RegularFile bs))"
    unfolding fs set_append Un_iff below_iff here_iff by blast
  also have "\<dots> \<longleftrightarrow> (\<exists>ps bs. f = pre @ ps \<and> ps \<noteq> [] \<and> find_entry ps (Directory nes) = Some (RegularFile bs))"
    using find_entry_step [OF names] by metis
  finally show ?case .
next
  case (Other e)
  have "find_entry ps e = None" if "ps \<noteq> []" for ps
    using that Other(1) by (cases ps; cases e) simp_all
  moreover have "fs = []" using Other by (cases e) simp_all
  ultimately show ?case by auto
qed

lemma regular_files_iff:
  assumes "tree_ok (Directory nes)"
  shows "(\<exists>fs. regular_files nes = Inr fs) \<longleftrightarrow> only_files (Directory nes)"
    and "regular_files nes = Inr fs \<Longrightarrow> path \<in> set fs \<longleftrightarrow> (\<exists>bs. file_at nes path bs)"
proof -
  show "(\<exists>fs. regular_files nes = Inr fs) \<longleftrightarrow> only_files (Directory nes)"
    using walk_entry_total [of "Directory nes" "[]"] by (simp add: regular_files_def bindE_Inr_iff del: walk_entry.simps only_files.simps)
  assume "regular_files nes = Inr fs"
  then obtain parts where parts: "walk_entry [] (Directory nes) = Inr parts" and fs: "fs = map join_path parts"
    unfolding regular_files_def bindE_Inr_iff by blast
  note finds = walk_entry_finds [OF parts assms]
  have same: "split_on 47 (join_path f) = f" if "f \<in> set parts" for f
    using that unfolding finds by (auto intro!: split_join_path dest: find_entry_components [OF _ assms])
  have "path \<in> set fs \<longleftrightarrow> split_on 47 path \<in> set parts"
    unfolding fs set_map image_iff using same join_path_split by metis
  then show "path \<in> set fs \<longleftrightarrow> (\<exists>bs. file_at nes path bs)"
    unfolding finds file_at_def by simp
qed


section \<open>A verified manifest\<close>

definition file_matches :: "(bytes \<Rightarrow> ustr) \<Rightarrow> (ustr \<times> entry) list \<Rightarrow> artifact \<Rightarrow> bool" where
  "file_matches sha256 nes a \<longleftrightarrow>
     (\<exists>bs. file_at nes (art_path a) bs \<and> int (length bs) = art_size a \<and> sha256 bs = art_sha256 a)"

lemma file_content_at: "file_at nes path bs \<Longrightarrow> file_content nes path = bs"
  by (simp add: file_at_def file_content_def)

lemma check_files_iff:
  assumes "\<And>a. a \<in> set artifacts \<Longrightarrow> \<exists>bs. file_at nes (art_path a) bs"
  shows "check_files sha256 nes artifacts = Inr x \<longleftrightarrow> (\<forall>a\<in>set artifacts. file_matches sha256 nes a)"
  using assms
proof (induction artifacts)
  case (Cons a artifacts)
  obtain bs where bs: "file_at nes (art_path a) bs" using Cons.prems by auto
  have "file_matches sha256 nes a \<longleftrightarrow> int (length bs) = art_size a \<and> sha256 bs = art_sha256 a"
    using bs file_content_at unfolding file_matches_def by metis
  then show ?case using Cons by (simp add: file_content_at [OF bs])
qed simp

text \<open>The manifest the walk is compared with.\<close>

definition declared :: "nat \<Rightarrow> ustr \<Rightarrow> ustr \<Rightarrow> (ustr \<times> entry) list \<Rightarrow> manifest_error + artifact list" where
  "declared limit language version nes =
     (case map_of nes MANIFEST_NAME of
        Some (RegularFile content) \<Rightarrow> bindE (load_manifest limit content) (parse_manifest language version)
      | Some _ \<Rightarrow> Inl NotRegular
      | None \<Rightarrow> Inl Missing)"

section \<open>The paths of a manifest\<close>

text \<open>
  How the system resolves a relative path below a directory, the names on the way as a stack: an empty
  component and a dot stay, two dots go up, and going up from the top leaves the directory.
\<close>

fun resolve :: "ustr list \<Rightarrow> ustr list \<Rightarrow> ustr list option" where
  "resolve at_dir [] = Some at_dir"
| "resolve at_dir (c # cs) =
     (if c = [] \<or> c = u ''.'' then resolve at_dir cs
      else if c = u ''..'' then (if at_dir = [] then None else resolve (butlast at_dir) cs)
      else resolve (at_dir @ [c]) cs)"

lemma resolve_plain: "list_all component_ok cs \<Longrightarrow> resolve at_dir cs = Some (at_dir @ cs)"
  by (induction cs arbitrary: at_dir) (auto simp: component_ok_def)

definition safe_path :: "ustr \<Rightarrow> bool" where
  "safe_path p \<longleftrightarrow> p \<noteq> [] \<and> 92 \<notin> set p \<and> 0 \<notin> set p \<and> list_all component_ok (split_on 47 p) \<and> p \<noteq> MANIFEST_NAME"

lemma split_parts_ok:
  "list_ex (\<lambda>part. part \<in> {[], u ''.'', u ''..''}) (split_on 47 p) \<longleftrightarrow> \<not> list_all component_ok (split_on 47 p)"
  using split_on_no_sep [of _ 47 p] by (auto simp: list_ex_iff list_all_iff component_ok_def)

lemma leading_slash: "p \<noteq> [] \<Longrightarrow> hd p = 47 \<Longrightarrow> \<not> list_all component_ok (split_on 47 p)"
  by (cases p) (simp_all add: component_ok_def)

lemma check_path_iff: "check_path v = Inr p \<longleftrightarrow> v = JStr p \<and> safe_path p"
  using leading_slash [of p] split_parts_ok [of p]
  by (auto simp: check_path_def safe_path_def split: json.splits)

section \<open>The shape of a manifest, exactly\<close>

text \<open>Two documents that differ at most in the order of the members of their objects.\<close>

inductive same_json :: "json \<Rightarrow> json \<Rightarrow> bool" where
  same_atom: "same_json v v"
| same_arr: "list_all2 same_json vs ws \<Longrightarrow> same_json (JArr vs) (JArr ws)"
| same_obj: "(\<And>k. rel_option same_json (dict_get d k) (dict_get d' k)) \<Longrightarrow> same_json (JObj d) (JObj d')"

inductive_simps same_json_arr: "same_json v (JArr ws)"
inductive_simps same_json_str: "same_json v (JStr s)"
inductive_simps same_json_int: "same_json v (JInt i)"
inductive_simps same_json_obj: "same_json v (JObj d)"

definition artifact_document :: "artifact \<Rightarrow> json" where
  "artifact_document a =
     JObj [(u ''path'', JStr (art_path a)), (u ''sha256'', JStr (art_sha256 a)), (u ''size_bytes'', JInt (art_size a))]"

definition manifest_document :: "ustr \<Rightarrow> ustr \<Rightarrow> artifact list \<Rightarrow> json" where
  "manifest_document language version artifacts =
     JObj [(u ''schema_version'', JInt 1), (u ''language'', JStr language), (u ''version'', JStr version),
           (u ''artifacts'', JArr (map artifact_document artifacts))]"

definition artifact_ok :: "artifact \<Rightarrow> bool" where
  "artifact_ok a \<longleftrightarrow> safe_path (art_path a) \<and> is_sha256 (art_sha256 a) \<and> 1 \<le> art_size a"

definition release_ok :: "artifact list \<Rightarrow> bool" where
  "release_ok artifacts \<longleftrightarrow>
     artifacts \<noteq> [] \<and> list_all artifact_ok artifacts \<and> list_all (\<lambda>a. valid_unicode (art_path a)) artifacts \<and>
     sorted_wrt (<) (map (\<lambda>a. the (utf8_encode (art_path a))) artifacts)"

lemma rel_option_None_Some:
  "rel_option R x None \<longleftrightarrow> x = None" "rel_option R x (Some w) \<longleftrightarrow> (\<exists>v. x = Some v \<and> R v w)"
  by (cases x; auto)+

lemma same_json_fields:
  "same_json v (JObj d') \<longleftrightarrow> (\<exists>d. v = JObj d \<and> (\<forall>k. rel_option same_json (dict_get d k) (dict_get d' k)))"
  by (auto simp: same_json_obj intro: same_atom option.rel_refl)

text \<open>An object with the members of a literal one: the same keys, and each value is like the literal's.\<close>

lemma rel_option_split:
  "rel_option R x y \<longleftrightarrow> (x = None \<longleftrightarrow> y = None) \<and> (\<forall>w. y = Some w \<longrightarrow> (\<exists>v. x = Some v \<and> R v w))"
  by (cases x; cases y) auto

lemma same_members:
  assumes "distinct (map fst d')"
  shows "same_json v (JObj d') \<longleftrightarrow>
    (\<exists>d. v = JObj d \<and> set (dict_keys d) = fst ` set d' \<and>
      (\<forall>(k, w)\<in>set d'. \<exists>x. dict_get d k = Some x \<and> same_json x w))"
proof -
  have member: "dict_get d' k = Some w \<longleftrightarrow> (k, w) \<in> set d'" for k w
    using assms by (simp add: dict_get_def)
  have absent: "dict_get d' k = None \<longleftrightarrow> k \<notin> fst ` set d'" for k
    by (simp add: dict_get_def map_of_eq_None_iff)
  have "(\<forall>k. rel_option same_json (dict_get d k) (dict_get d' k)) \<longleftrightarrow>
      set (dict_keys d) = fst ` set d' \<and> (\<forall>(k, w)\<in>set d'. \<exists>x. dict_get d k = Some x \<and> same_json x w)" for d
  proof -
    have "set (dict_keys d) = fst ` set d' \<longleftrightarrow> (\<forall>k. dict_get d k = None \<longleftrightarrow> k \<notin> fst ` set d')"
      unfolding set_eq_iff dict_keys_get by metis
    then show ?thesis
      unfolding rel_option_split member absent all_conj_distrib by (simp add: split_beta Ball_def)
  qed
  then show ?thesis unfolding same_json_fields by simp
qed

text \<open>One artifact of the manifest.\<close>

lemma same_json_text: "same_json v (JStr s) \<longleftrightarrow> v = JStr s" "same_json v (JInt i) \<longleftrightarrow> v = JInt i"
  by (auto simp: same_json_str same_json_int)

lemma field_get: "(u name) \<in> set (dict_keys d) \<Longrightarrow> field (JObj d) name = w \<longleftrightarrow> dict_get d (u name) = Some w"
  unfolding dict_keys_get field_def by (auto split: option.split)

lemma json_case_Inr:
  "(case v of JStr s \<Rightarrow> f s | _ \<Rightarrow> Inl e) = Inr x \<longleftrightarrow> (\<exists>s. v = JStr s \<and> f s = Inr x)"
  "(case v of JInt i \<Rightarrow> g i | _ \<Rightarrow> Inl e) = Inr x \<longleftrightarrow> (\<exists>i. v = JInt i \<and> g i = Inr x)"
  "(case v of JArr vs \<Rightarrow> h vs | _ \<Rightarrow> Inl e) = Inr x \<longleftrightarrow> (\<exists>vs. v = JArr vs \<and> h vs = Inr x)"
  by (cases v; simp)+

lemma if_Inr: "(if b then Inl e else y) = Inr x \<longleftrightarrow> \<not> b \<and> y = Inr x"
  by simp

lemma check_artifact_iff:
  "check_artifact i v = Inr a \<longleftrightarrow> artifact_ok a \<and> same_json v (artifact_document a)"
proof (cases "has_keys v [u ''path'', u ''sha256'', u ''size_bytes'']")
  case False
  then have "\<not> same_json v (artifact_document a)"
    unfolding artifact_document_def by (subst same_members) (auto simp: has_keys_def)
  with False show ?thesis by (simp add: check_artifact_def)
next
  case True
  then obtain d where d: "v = JObj d" "set (dict_keys d) = {u ''path'', u ''sha256'', u ''size_bytes''}"
    by (auto simp: has_keys_def split: json.splits)
  have "same_json v (artifact_document a) \<longleftrightarrow> field v ''path'' = JStr (art_path a) \<and>
      field v ''sha256'' = JStr (art_sha256 a) \<and> field v ''size_bytes'' = JInt (art_size a)"
    unfolding artifact_document_def using d by (subst same_members) (auto simp: same_json_text field_get)
  moreover have "check_artifact i v = Inr a \<longleftrightarrow> artifact_ok a \<and> field v ''path'' = JStr (art_path a) \<and>
      field v ''sha256'' = JStr (art_sha256 a) \<and> field v ''size_bytes'' = JInt (art_size a)"
    using True unfolding check_artifact_def artifact_ok_def if_Inr bindE_Inr_iff json_case_Inr check_path_iff
    by (cases a) auto
  ultimately show ?thesis by simp
qed

lemma check_artifacts_iff:
  "check_artifacts i vs = Inr artifacts \<longleftrightarrow>
    list_all artifact_ok artifacts \<and> list_all2 same_json vs (map artifact_document artifacts)"
proof (induction vs arbitrary: i artifacts)
  case Nil
  then show ?case by auto
next
  case (Cons v vs)
  then show ?case
    by (cases artifacts) (auto simp: bindE_Inr_iff check_artifact_iff)
qed

text \<open>Sorting by the encoded path leaves a list of different paths as it is exactly when the bytes ascend.\<close>

lemma sorted_by_utf8_iff:
  "sorted_by_utf8 paths = Inr paths \<and> distinct paths \<longleftrightarrow>
    list_all valid_unicode paths \<and> sorted_wrt (<) (map (\<lambda>p. the (utf8_encode p)) paths)"
proof (cases "list_all valid_unicode paths")
  case True
  then have inj: "inj_on (\<lambda>p. the (utf8_encode p)) (set paths)"
    by (intro inj_onI) (metis list_all_iff option.expand option.sel utf8.enc_inj utf8_encode_None_iff not_None_eq)
  have "sort_key (\<lambda>p. the (utf8_encode p)) paths = paths \<longleftrightarrow> sorted (map (\<lambda>p. the (utf8_encode p)) paths)"
    by (metis sorted_sort_key sort_key_id_if_sorted)
  with True inj show ?thesis
    unfolding sorted_by_utf8_def strict_sorted_iff by (auto simp: distinct_map)
qed (simp add: sorted_by_utf8_def)


lemma manifest_fields:
  "same_json document (manifest_document language version artifacts) \<longleftrightarrow>
    has_keys document MANIFEST_KEYS \<and> field document ''schema_version'' = JInt 1 \<and>
    field document ''language'' = JStr language \<and> field document ''version'' = JStr version \<and>
    (\<exists>vs. field document ''artifacts'' = JArr vs \<and> list_all2 same_json vs (map artifact_document artifacts))"
proof (cases "has_keys document MANIFEST_KEYS")
  case False
  then have "\<not> same_json document (manifest_document language version artifacts)"
    unfolding manifest_document_def by (subst same_members) (auto simp: has_keys_def MANIFEST_KEYS_def)
  with False show ?thesis by simp
next
  case True
  then obtain d where d: "document = JObj d"
      "set (dict_keys d) = {u ''artifacts'', u ''language'', u ''schema_version'', u ''version''}"
    by (auto simp: has_keys_def MANIFEST_KEYS_def split: json.splits)
  have arr: "same_json v (JArr ws) \<longleftrightarrow> (\<exists>vs. v = JArr vs \<and> list_all2 same_json vs ws)" for v ws
    by (auto simp: same_json_arr intro: list.rel_refl same_atom)
  show ?thesis
    using True unfolding manifest_document_def d
    by (subst same_members) (use d(2) in \<open>auto simp: same_json_text field_get arr\<close>)
qed

lemma validate_language_iff:
  "validate_language sha256 limit version nes language = Inr artifacts \<longleftrightarrow>
    (\<exists>sub. map_of nes language = Some (Directory sub) \<and>
      validate_manifest sha256 limit language version
        \<lparr>mp_name = MANIFEST_NAME, mp_output_is_link = False, mp_entries = sub\<rparr> = Inr artifacts)"
  by (auto simp: validate_language_def split: option.splits entry.splits sum.splits)

lemma parse_manifest_accepts:
  "parse_manifest language version document = Inr artifacts \<longleftrightarrow>
    language \<in> set LANGUAGES \<and> release_ok artifacts \<and>
    same_json document (manifest_document language version artifacts)"
proof (cases "has_keys document MANIFEST_KEYS")
  case False
  then show ?thesis
    unfolding manifest_fields by (auto simp: parse_manifest_def split: json.splits)
next
  case True
  then obtain d where d: "document = JObj d" by (auto simp: has_keys_def split: json.splits)
  have order: "sorted_by_utf8 (map art_path as) = Inr (map art_path as) \<and> distinct (map art_path as) \<longleftrightarrow>
      list_all (\<lambda>a. valid_unicode (art_path a)) as \<and> sorted_wrt (<) (map (\<lambda>a. the (utf8_encode (art_path a))) as)" for as
    using sorted_by_utf8_iff [of "map art_path as"] by (simp add: list.pred_map o_def)
  have artifacts: "list_all2 same_json vs (map artifact_document as) \<Longrightarrow> vs = [] \<longleftrightarrow> as = []" for vs as
    by auto
  show ?thesis
    using True unfolding manifest_fields release_ok_def parse_manifest_def
    unfolding d json.case if_Inr bindE_Inr_iff json_case_Inr check_artifacts_iff Let_def
    using order [of artifacts] artifacts [of _ artifacts] by (auto simp: image_iff)
qed

section \<open>A sample release\<close>

definition sample_text :: ustr where
  "sample_text =
     u ''{ \"schema_version\": 1, \"language\": \"go\", \"version\": \"0.4.0\", '' @
     u ''\"artifacts\": [{ \"path\": \"dist/event.tgz\", \"sha256\": \"'' @ replicate 64 51 @
     u ''\", \"size_bytes\": 3 }] }''"

definition sample_artifact :: artifact where
  "sample_artifact = \<lparr>art_path = u ''dist/event.tgz'', art_sha256 = replicate 64 51, art_size = 3\<rparr>"

lemma sample_load:
  "hooked_loads manifest_hooks 10 sample_text = Inr (manifest_document (u ''go'') PACKAGE_VERSION [sample_artifact])"
proof -
  have len: "length sample_text = 201" by (simp add: sample_text_def)
  show ?thesis
    unfolding hooked_loads_def len
    by (simp add: sample_text_def u_def hooked_eval manifest_hooks_def unique_object_def dict_of_def
        manifest_document_def PACKAGE_VERSION_def artifact_document_def sample_artifact_def)
qed

definition sample_sha :: "bytes \<Rightarrow> ustr" where
  "sample_sha bs = replicate 64 (48 + length bs mod 10)"

definition sample_output :: manifest_path where
  "sample_output = \<lparr>mp_name = MANIFEST_NAME, mp_output_is_link = False, mp_entries =
     [(u ''dist'', Directory [(u ''event.tgz'', RegularFile [1, 2, 3])]),
      (MANIFEST_NAME, RegularFile (concat (map utf8_cp sample_text)))]\<rparr>"

lemma sample_decode: "utf8_decode (concat (map utf8_cp sample_text)) = Some sample_text"
proof (rule utf8_decode_concat)
  show "valid_unicode sample_text"
    unfolding sample_text_def valid_unicode_append
    by (simp add: u_def is_surrogate_def, simp add: valid_unicode_def is_surrogate_def list_all_iff)
qed

lemma sample_names: "component_ok (u ''dist'')" "component_ok (u ''event.tgz'')" "component_ok MANIFEST_NAME"
  by (simp_all add: component_ok_def u_def MANIFEST_NAME_def)

lemma sample_safe: "safe_path (u ''dist/event.tgz'')" "split_on 47 (u ''dist/event.tgz'') = [u ''dist'', u ''event.tgz'']"
  by (simp_all add: safe_path_def u_def MANIFEST_NAME_def component_ok_def)

lemma sample_artifact_ok: "artifact_ok sample_artifact" "valid_unicode (art_path sample_artifact)"
  using sample_safe(1) by (simp_all add: artifact_ok_def sample_artifact_def is_sha256_def list_all_iff u_def is_surrogate_def)

lemma sample_language: "u ''go'' \<in> set LANGUAGES"
  by (simp add: LANGUAGES_def)

lemma sample_different: "MANIFEST_NAME \<noteq> u ''dist''"
  by (simp add: MANIFEST_NAME_def)

lemma sample_declared:
  "declared 10 (u ''go'') PACKAGE_VERSION (mp_entries sample_output) = Inr [sample_artifact]"
  using sample_artifact_ok sample_language sample_different
  by (simp add: declared_def sample_output_def load_manifest_def sample_decode sample_load
      parse_manifest_accepts release_ok_def same_atom)

lemma find_entry_file [simp]: "find_entry ps (RegularFile b) = Some e \<longleftrightarrow> ps = [] \<and> e = RegularFile b"
  by (cases ps) auto

lemma sample_file_at:
  "file_at (mp_entries sample_output) (u ''dist/event.tgz'') bs \<longleftrightarrow> bs = [1, 2, 3]"
  by (auto simp: file_at_def sample_safe(2) sample_output_def)

section \<open>Properties\<close>

text \<open>
  C31: a run over an output directory succeeds exactly when the directory is no link and holds, all the way
  down, nothing but directories and regular files, its manifest declares the artifacts that are returned,
  these are the files of the directory besides the manifest, and each has the declared size and digest.
\<close>

theorem validate_manifest_exact:
  assumes ok: "tree_ok (Directory (mp_entries m))"
  shows "validate_manifest sha256 limit language version m = Inr artifacts \<longleftrightarrow>
    mp_name m = MANIFEST_NAME \<and> \<not> mp_output_is_link m \<and> only_files (Directory (mp_entries m)) \<and>
    declared limit language version (mp_entries m) = Inr artifacts \<and>
    {path. \<exists>bs. file_at (mp_entries m) path bs} - {MANIFEST_NAME} = art_path ` set artifacts \<and>
    (\<forall>a\<in>set artifacts. file_matches sha256 (mp_entries m) a)" (is "?v = _ \<longleftrightarrow> ?spec")
proof -
  let ?nes = "mp_entries m"
  show ?thesis
  proof (cases "regular_files ?nes")
    case (Inl e)
    then show ?thesis
      using regular_files_iff(1) [OF ok] unfolding validate_manifest_def
      by (auto simp: bindE_Inr_iff split: option.splits entry.splits)
  next
    case (Inr fs)
    have here: "only_files (Directory ?nes)" using regular_files_iff(1) [OF ok] Inr by blast
    note found = regular_files_iff(2) [OF ok Inr]
    let ?present = "filter (\<lambda>f. f \<noteq> MANIFEST_NAME) fs"
    have same: "{path. \<exists>bs. file_at ?nes path bs} - {MANIFEST_NAME} = art_path ` set artifacts \<longleftrightarrow>
        filter (\<lambda>p. p \<notin> set ?present) (map art_path artifacts) = [] \<and>
        filter (\<lambda>p. p \<notin> set (map art_path artifacts)) ?present = []"
      unfolding filter_empty_conv using found by auto
    have files: "check_files sha256 ?nes artifacts = Inr x \<longleftrightarrow> (\<forall>a\<in>set artifacts. file_matches sha256 ?nes a)"
      if "{path. \<exists>bs. file_at ?nes path bs} - {MANIFEST_NAME} = art_path ` set artifacts" for x
      using that by (intro check_files_iff) blast
    show ?thesis
      unfolding validate_manifest_def declared_def Inr bindE_simps Let_def
      using here same files
      by (auto simp: bindE_Inr_iff split: option.splits entry.splits if_splits)
  qed
qed

theorem validate_manifest_exact_witness:
  "validate_manifest sample_sha 10 (u ''go'') PACKAGE_VERSION sample_output = Inr [sample_artifact]"
proof -
  have ok: "tree_ok (Directory (mp_entries sample_output))"
    using sample_names sample_different by (auto simp: sample_output_def)
  have only: "only_files (Directory (mp_entries sample_output))" by (simp add: sample_output_def)
  have matches: "file_matches sample_sha (mp_entries sample_output) sample_artifact"
    unfolding file_matches_def sample_artifact_def by (simp add: sample_file_at sample_sha_def)
  have files: "(\<exists>bs. file_at (mp_entries sample_output) path bs) \<longleftrightarrow> path \<in> {u ''dist/event.tgz'', MANIFEST_NAME}" for path
  proof
    assume "\<exists>bs. file_at (mp_entries sample_output) path bs"
    then have "split_on 47 path = [u ''dist'', u ''event.tgz''] \<or> split_on 47 path = [MANIFEST_NAME]"
      unfolding file_at_def sample_output_def
      by (cases "split_on 47 path"; cases "tl (split_on 47 path)") (auto split: if_splits simp: neq_Nil_conv)
    then have "path = join_path [u ''dist'', u ''event.tgz''] \<or> path = join_path [MANIFEST_NAME]"
      using join_path_split [of path] by metis
    then show "path \<in> {u ''dist/event.tgz'', MANIFEST_NAME}" by (simp add: join_path_def u_def MANIFEST_NAME_def)
  next
    assume "path \<in> {u ''dist/event.tgz'', MANIFEST_NAME}"
    moreover have "split_on 47 MANIFEST_NAME = [MANIFEST_NAME]" by (simp add: MANIFEST_NAME_def u_def)
    ultimately show "\<exists>bs. file_at (mp_entries sample_output) path bs"
      using sample_file_at sample_different by (auto simp: file_at_def sample_output_def)
  qed
  have "{path. \<exists>bs. file_at (mp_entries sample_output) path bs} - {MANIFEST_NAME} = art_path ` set [sample_artifact]"
    using sample_safe(1) unfolding files by (auto simp: sample_artifact_def safe_path_def)
  then show ?thesis
    unfolding validate_manifest_exact [OF ok] using only matches sample_declared
    by (simp add: sample_output_def)
qed

text \<open>
  C35: a manifest is accepted exactly when, up to the order of the members of its objects, it is the document
  of the artifacts that are returned: a known language, the version asked for, and at least one artifact with
  a safe path, a well-formed digest and a size of at least one, the encoded paths strictly ascending.
\<close>

theorem parse_manifest_exact:
  "parse_manifest language version document = Inr artifacts \<longleftrightarrow>
    language \<in> set LANGUAGES \<and> release_ok artifacts \<and>
    same_json document (manifest_document language version artifacts)"
  by (rule parse_manifest_accepts)

text \<open>
  C36: an accepted path leads below the output directory: resolved from any directory it adds its own
  components and nothing is left on the way, and it is not the manifest.
\<close>

theorem path_stays_below:
  assumes "check_path v = Inr p"
  shows "v = JStr p \<and> resolve at_dir (split_on 47 p) = Some (at_dir @ split_on 47 p) \<and>
    split_on 47 p \<noteq> [] \<and> p \<noteq> MANIFEST_NAME"
  using assms by (simp add: check_path_iff safe_path_def resolve_plain)

theorem path_stays_below_witness:
  "resolve [u ''out''] (split_on 47 (u ''dist/event.tgz'')) = Some [u ''out'', u ''dist'', u ''event.tgz'']"
proof -
  have "check_path (JStr (u ''dist/event.tgz'')) = Inr (u ''dist/event.tgz'')"
    using sample_safe(1) by (simp add: check_path_iff)
  from path_stays_below [OF this, of "[u ''out'']"] show ?thesis by (simp add: sample_safe(2))
qed

text \<open>
  A manifest whose only fault is a path with a lone surrogate is not reported as invalid: encoding the
  path for the sort raises an exception of the interpreter, which the script does not catch.
\<close>

theorem surrogate_path_raises:
  assumes "same_json document (manifest_document language version artifacts)"
    and "language \<in> set LANGUAGES" "artifacts \<noteq> []" "list_all artifact_ok artifacts"
    and "distinct (map art_path artifacts)" "a \<in> set artifacts" "\<not> valid_unicode (art_path a)"
  shows "parse_manifest language version document = Inl UnicodeRaised"
proof -
  obtain d vs where d: "document = JObj d" and keys: "has_keys document MANIFEST_KEYS"
    and fs: "field document ''schema_version'' = JInt 1" "field document ''language'' = JStr language"
      "field document ''version'' = JStr version" "field document ''artifacts'' = JArr vs"
    and vs: "list_all2 same_json vs (map artifact_document artifacts)"
    using assms(1) unfolding manifest_fields by (auto simp: has_keys_def split: json.splits)
  have "check_artifacts 0 vs = Inr artifacts" using vs assms(4) by (simp add: check_artifacts_iff)
  moreover have "vs \<noteq> []" using vs assms(3) by auto
  moreover have "sorted_by_utf8 (map art_path artifacts) = Inl UnicodeRaised"
    using assms(6,7) by (auto simp: sorted_by_utf8_def list_all_iff)
  ultimately show ?thesis
    using keys fs assms(2,5) unfolding parse_manifest_def d by (simp add: image_iff)
qed

theorem surrogate_path_raises_witness:
  "parse_manifest (u ''go'') PACKAGE_VERSION (manifest_document (u ''go'') PACKAGE_VERSION
     [sample_artifact \<lparr>art_path := [55296]\<rparr>]) = Inl UnicodeRaised"
proof (rule surrogate_path_raises [OF same_atom sample_language, where a = "sample_artifact\<lparr>art_path := [55296]\<rparr>"])
  show "list_all artifact_ok [sample_artifact\<lparr>art_path := [55296]\<rparr>]"
    using sample_artifact_ok(1) by (simp add: artifact_ok_def safe_path_def component_ok_def MANIFEST_NAME_def u_def)
qed (simp_all add: is_surrogate_def sample_artifact_def)

text \<open>
  A run over all languages prints its report exactly when no other argument was combined with it, and the
  directory holds one directory for each of the seven languages and nothing else, each with a valid manifest.
\<close>

theorem release_run:
  "(\<exists>out. check_all sha256 limit base a = Printed out) \<longleftrightarrow>
    arg_manifest a = None \<and> arg_language a = None \<and> arg_version a \<in> {None, Some PACKAGE_VERSION} \<and>
    (\<exists>nes. base = Some (Directory nes) \<and> set (map fst nes) = set LANGUAGES \<and>
      list_all (\<lambda>language. \<exists>artifacts sub. map_of nes language = Some (Directory sub) \<and>
        validate_manifest sha256 limit language PACKAGE_VERSION
          \<lparr>mp_name = MANIFEST_NAME, mp_output_is_link = False, mp_entries = sub\<rparr> = Inr artifacts) LANGUAGES)"
proof -
  have runs: "(\<exists>results. mapE (\<lambda>l. bindE (validate_language sha256 limit PACKAGE_VERSION nes l)
        (\<lambda>artifacts. Inr (l, artifacts))) LANGUAGES = Inr results) \<longleftrightarrow>
      list_all (\<lambda>l. \<exists>artifacts. validate_language sha256 limit PACKAGE_VERSION nes l = Inr artifacts) LANGUAGES" for nes
    unfolding mapE_ex list_all_iff bindE_Inr_iff by simp
  have status: "(\<exists>out. (case v of Inl e \<Rightarrow> report_error e | Inr results \<Rightarrow> Printed (f results)) = Printed out)
      \<longleftrightarrow> (\<exists>results. v = Inr results)" for v :: "manifest_error + 'x" and f
    by (cases v) (simp_all add: report_error_def)
  have all: "(\<exists>results. validate_all sha256 limit PACKAGE_VERSION base = Inr results) \<longleftrightarrow>
      (\<exists>nes. base = Some (Directory nes) \<and> set (map fst nes) = set LANGUAGES \<and>
        list_all (\<lambda>l. \<exists>artifacts. validate_language sha256 limit PACKAGE_VERSION nes l = Inr artifacts) LANGUAGES)"
    unfolding validate_all_def using runs by (auto split: option.splits entry.splits)
  show ?thesis
  proof (cases "arg_manifest a = None \<and> arg_language a = None \<and> arg_version a \<in> {None, Some PACKAGE_VERSION}")
    case True
    then show ?thesis
      using all unfolding check_all_def validate_language_iff by (simp add: status)
  next
    case False
    then have "check_all sha256 limit base a = Usage"
      unfolding check_all_def by (simp only: de_Morgan_conj) (auto simp del: not_None_eq)
    then have "\<not> (\<exists>out. check_all sha256 limit base a = Printed out)" by simp
    with False show ?thesis by blast
  qed
qed

end
