(* ===== verification/PyLines.thy ===== *)
theory PyLines
  imports PyStr
begin

text \<open>
  String methods the scripts use beyond those of the SDK: \<open>str.replace\<close>, \<open>str.splitlines\<close>,
  \<open>str.endswith\<close>, and the stem of a file name.
\<close>

section \<open>Replacing\<close>

text \<open>\<open>s.replace(old, new)\<close> for a text \<open>old\<close> that is not empty: leftmost occurrences, none overlapping.\<close>

function py_replace :: "ustr \<Rightarrow> ustr \<Rightarrow> ustr \<Rightarrow> ustr" where
  "py_replace old new s =
     (if s = [] \<or> old = [] then s
      else if starts_with old s then new @ py_replace old new (drop (length old) s)
      else hd s # py_replace old new (tl s))"
  by pat_completeness auto
termination
  by (relation "measure (\<lambda>(old, new, s). length s)") auto

declare py_replace.simps [simp del]

definition ends_with :: "ustr \<Rightarrow> ustr \<Rightarrow> bool" where
  "ends_with p s \<longleftrightarrow> starts_with (rev p) (rev s)"

text \<open>An occurrence of a text without a character lies on one side of that character.\<close>

lemma starts_with_split:
  assumes "starts_with p (s @ c # t)" "c \<notin> set p"
  shows "starts_with p s"
proof -
  have "prefix p (s @ c # t)" using assms(1) by (simp add: starts_with_prefix)
  moreover have "prefix (s @ [c]) (s @ c # t)" by simp
  ultimately have "prefix p (s @ [c]) \<or> prefix (s @ [c]) p" by (rule prefix_same_cases)
  with assms(2) show ?thesis by (auto simp: starts_with_prefix prefix_snoc dest: set_mono_prefix)
qed

lemma occurs_in_split:
  "occurs_in p (s @ c # t) \<Longrightarrow> c \<notin> set p \<Longrightarrow> p \<noteq> [] \<Longrightarrow> occurs_in p s \<or> occurs_in p t"
proof (induction s)
  case Nil
  then show ?case by (cases p) (auto simp: starts_with_prefix)
next
  case (Cons x s)
  then show ?case using starts_with_split [of p "x # s" c t] by auto
qed

text \<open>
  A new text that begins and ends with a character the old one does not have, and does not contain it,
  leaves no occurrence of the old text: it would lie inside one copied piece, and there it would have been
  replaced.
\<close>

lemma replace_no_start:
  assumes "n \<notin> set old" "starts_with old (py_replace old (n # new) s)"
  shows "starts_with old s"
proof -
  have "starts_with p (py_replace old (n # new) s) \<Longrightarrow> n \<notin> set p \<Longrightarrow> starts_with p s" for p
  proof (induction p arbitrary: s)
    case (Cons x p)
    then show ?case
      using py_replace.simps [of old "n # new" s]
      by (cases s) (auto simp: starts_with_prefix split: if_splits)
  qed (simp add: starts_with_prefix)
  with assms show ?thesis by blast
qed

lemma replace_leaves_none:
  assumes "n \<notin> set old" "m \<notin> set old" "\<not> occurs_in old mid" "old \<noteq> []"
  shows "\<not> occurs_in old (py_replace old (n # mid @ [m]) s)"
  using assms
proof (induction old "n # mid @ [m]" s rule: py_replace.induct)
  case (1 old s)
  let ?r = "py_replace old (n # mid @ [m])"
  consider (empty) "s = []" | (hit) "s \<noteq> []" "starts_with old s" | (miss) "s \<noteq> []" "\<not> starts_with old s" by blast
  then show ?case
  proof cases
    case empty
    then show ?thesis using 1(6) by (simp add: py_replace.simps)
  next
    case hit
    then have eq: "?r s = [] @ n # (mid @ m # ?r (drop (length old) s))"
      using 1(6) by (subst py_replace.simps) simp
    have "\<not> occurs_in old (?r (drop (length old) s))" using 1 hit by simp
    then show ?thesis
      using 1(3-6) occurs_in_split [of old "[]" n "mid @ m # ?r (drop (length old) s)"]
        occurs_in_split [of old mid m "?r (drop (length old) s)"]
      unfolding eq by auto
  next
    case miss
    then have eq: "?r s = hd s # ?r (tl s)" using 1(6) by (subst py_replace.simps) simp
    have "\<not> starts_with old (?r s)" using replace_no_start 1(3) miss by blast
    moreover have "\<not> occurs_in old (?r (tl s))" using 1 miss by simp
    ultimately show ?thesis unfolding eq by simp
  qed
qed

section \<open>Lines\<close>

definition line_break :: "nat \<Rightarrow> bool" where
  "line_break c \<longleftrightarrow> c \<in> {10, 11, 12, 13, 28, 29, 30, 133, 8232, 8233}"

definition after_break :: "ustr \<Rightarrow> ustr" where
  "after_break r = (if take 2 r = [13, 10] then drop 2 r else drop 1 r)"

function splitlines :: "ustr \<Rightarrow> ustr list" where
  "splitlines s =
     (if s = [] then []
      else takeWhile (\<lambda>c. \<not> line_break c) s # splitlines (after_break (dropWhile (\<lambda>c. \<not> line_break c) s)))"
  by pat_completeness auto
termination
proof (relation "measure length")
  fix s :: ustr
  assume "s \<noteq> []"
  have "length (dropWhile (\<lambda>c. \<not> line_break c) s) \<le> length s" by (rule length_dropWhile_le)
  with \<open>s \<noteq> []\<close> show "(after_break (dropWhile (\<lambda>c. \<not> line_break c) s), s) \<in> measure length"
    by (cases s) (auto simp: after_break_def)
qed simp

declare splitlines.simps [simp del]

text \<open>\<open>Path(name).stem\<close>: without the last suffix, unless the only dot is the first or the last character.\<close>

definition path_stem :: "ustr \<Rightarrow> ustr" where
  "path_stem name =
     (case rpartition_at 46 name of
        (stem, dotted, ext) \<Rightarrow> if dotted \<and> stem \<noteq> [] \<and> ext \<noteq> [] then stem else name)"

end
