(* ===== verification/Conformance.thy ===== *)
theory Conformance
  imports JsonHooks PyLines Utf8 Validation "HOL-Library.List_Lexorder"
begin

text \<open>
  \<open>scripts/conformance.py\<close>: fixtures and the languages they exclude, the records in a runner's output,
  the accounting of records against fixtures, the readiness of the mock server, the run of one language and
  of all. What happens outside the script (files, processes, the clock) is a record of \<open>happenings\<close>; a
  polling loop reads one \<open>tick\<close> in each round. A problem is a value of \<open>problem\<close> in place of its text.
  An exception that the script does not catch is a \<open>crash\<close>.
\<close>

datatype crash =
  NoDirectory | NoFixtures | NotUtf8 | NotJson | AttributeRaised | TypeRaised | NestingRaised | DigitsRaised | UrlRaised

definition no_hooks :: "crash hooks" where
  "no_hooks = \<lparr>pairs_hook = (\<lambda>_. None), constant_hook = (\<lambda>_. None)\<rparr>"

text \<open>What a failed parse raises; the second argument is the outcome of a \<open>JSONDecodeError\<close>.\<close>

definition parse_failure :: "crash load_error \<Rightarrow> crash + 'a \<Rightarrow> crash + 'a" where
  "parse_failure e on_syntax =
     (case e of Nested \<Rightarrow> Inl NestingRaised | Digits \<Rightarrow> Inl DigitsRaised | Raised c \<Rightarrow> Inl c
      | Syntax \<Rightarrow> on_syntax | NoFuel \<Rightarrow> on_syntax)"

section \<open>Fixtures\<close>

definition as_set :: "json \<Rightarrow> crash + json list" where
  "as_set v =
     (case v of
        JArr vs \<Rightarrow> if list_ex (\<lambda>w. case w of JArr _ \<Rightarrow> True | JObj _ \<Rightarrow> True | _ \<Rightarrow> False) vs then Inl TypeRaised else Inr vs
      | JStr s \<Rightarrow> Inr (map (\<lambda>c. JStr [c]) s)
      | JObj d \<Rightarrow> Inr (map JStr (dict_keys d))
      | _ \<Rightarrow> Inl TypeRaised)"

text \<open>\<open>v.get(name, default)\<close>\<close>

definition get_or :: "json \<Rightarrow> string \<Rightarrow> json \<Rightarrow> crash + json" where
  "get_or v name default_value =
     (case v of
        JObj d \<Rightarrow> Inr (case dict_get d (u name) of Some w \<Rightarrow> w | None \<Rightarrow> default_value)
      | _ \<Rightarrow> Inl AttributeRaised)"

definition read_fixture :: "nat \<Rightarrow> bytes \<Rightarrow> crash + json list" where
  "read_fixture limit content =
     (case utf8_decode content of
        None \<Rightarrow> Inl NotUtf8
      | Some s \<Rightarrow>
          (case hooked_loads no_hooks limit s of
             Inl e \<Rightarrow> parse_failure e (Inl NotJson)
           | Inr document \<Rightarrow>
               bindE (get_or document ''applicability'' (JObj [])) (\<lambda>applicability.
               bindE (get_or applicability ''inapplicable_languages'' (JArr [])) as_set)))"

type_synonym fixtures = "(ustr, json list) pydict"

primrec read_fixtures :: "nat \<Rightarrow> (ustr \<times> bytes) list \<Rightarrow> fixtures \<Rightarrow> crash + fixtures" where
  "read_fixtures limit [] fixtures = Inr fixtures"
| "read_fixtures limit (f # fs) fixtures =
     bindE (read_fixture limit (snd f)) (\<lambda>inapplicable.
       read_fixtures limit fs (dict_set (path_stem (fst f)) inapplicable fixtures))"

definition load_fixtures :: "nat \<Rightarrow> (ustr \<times> bytes) list option \<Rightarrow> crash + fixtures" where
  "load_fixtures limit directory =
     (case directory of
        None \<Rightarrow> Inl NoDirectory
      | Some files \<Rightarrow>
          bindE (read_fixtures limit (sort_key fst (filter (\<lambda>f. ends_with (u ''.json'') (fst f)) files)) [])
            (\<lambda>fixtures. if fixtures = [] then Inl NoFixtures else Inr fixtures))"

section \<open>Records\<close>

text \<open>The first position where the pattern of \<open>RECORD_START\<close> matches.\<close>

definition starts_record :: "ustr \<Rightarrow> bool" where
  "starts_record s \<longleftrightarrow> starts_with (u ''{\"id\"'') s \<and> take 1 (dropWhile is_space (drop 5 s)) = [58]"

fun find_record :: "ustr \<Rightarrow> ustr option" where
  "find_record [] = None"
| "find_record (c # cs) = (if starts_record (c # cs) then Some (c # cs) else find_record cs)"

type_synonym result = "(ustr, json) pydict"

definition result_of :: "json \<Rightarrow> result option" where
  "result_of v =
     (case v of
        JObj d \<Rightarrow>
          (case dict_get d (u ''id'') of
             Some (JStr _) \<Rightarrow> if u ''status'' \<in> set (dict_keys d) then Some d else None
           | _ \<Rightarrow> None)
      | _ \<Rightarrow> None)"

definition parse_line :: "nat \<Rightarrow> ustr \<Rightarrow> crash + result option" where
  "parse_line limit line =
     (case find_record line of
        None \<Rightarrow> Inr None
      | Some s \<Rightarrow>
          (case hooked_value no_hooks (2 * length s + 2) limit s of
             Inl e \<Rightarrow> parse_failure e (Inr None)
           | Inr (v, _) \<Rightarrow> Inr (result_of v)))"

definition parse_records :: "nat \<Rightarrow> ustr list \<Rightarrow> crash + result list" where
  "parse_records limit lines = bindE (mapE (parse_line limit) lines) (\<lambda>rs. Inr (List.map_filter id rs))"

definition result_id :: "result \<Rightarrow> ustr" where
  "result_id r = (case dict_get r (u ''id'') of Some (JStr s) \<Rightarrow> s | _ \<Rightarrow> [])"

definition result_status :: "result \<Rightarrow> json" where
  "result_status r = (case dict_get r (u ''status'') of Some v \<Rightarrow> v | None \<Rightarrow> JNull)"

section \<open>Accounting\<close>

datatype failure = MockExited int | NeverReady | BadReadiness | ControlExited int | ControlNever

datatype problem =
    UnknownFixture ustr
  | NotDeclared ustr ustr
  | BadStatus ustr json
  | Repeated "ustr list"
  | Missing nat "ustr list" nat
  | RunnerStatus int
  | MockStoppedEarly int
  | MockStatus int
  | Failed failure

record tally =
  passed :: nat
  not_applicable :: nat
  deviations :: nat
  problems :: "problem list"
  warnings :: nat

definition no_tally :: tally where
  "no_tally = \<lparr>passed = 0, not_applicable = 0, deviations = 0, problems = [], warnings = 0\<rparr>"

definition add_problem :: "problem \<Rightarrow> tally \<Rightarrow> tally" where
  "add_problem p t = t\<lparr>problems := problems t @ [p]\<rparr>"

definition count_seen :: "ustr \<Rightarrow> (ustr, nat) pydict \<Rightarrow> (ustr, nat) pydict" where
  "count_seen k seen = dict_set k ((case dict_get seen k of Some n \<Rightarrow> n | None \<Rightarrow> 0) + 1) seen"

definition count_result :: "ustr \<Rightarrow> fixtures \<Rightarrow> result \<Rightarrow> tally \<Rightarrow> tally" where
  "count_result language fixtures r t =
     (case dict_get fixtures (result_id r) of
        None \<Rightarrow> add_problem (UnknownFixture (result_id r)) t
      | Some inapplicable \<Rightarrow>
          if result_status r = JStr (u ''passed'')
          then t\<lparr>passed := passed t + 1,
                 deviations := deviations t + (if u ''runtime_deviation'' \<in> set (dict_keys r) then 1 else 0)\<rparr>
          else if result_status r = JStr (u ''not_applicable'')
          then (if JStr language \<in> set inapplicable then t\<lparr>not_applicable := not_applicable t + 1\<rparr>
                else add_problem (NotDeclared (result_id r) language) t)
          else add_problem (BadStatus (result_id r) (result_status r)) t)"

primrec account_loop ::
  "ustr \<Rightarrow> fixtures \<Rightarrow> result list \<Rightarrow> (ustr, nat) pydict \<Rightarrow> tally \<Rightarrow> (ustr, nat) pydict \<times> tally" where
  "account_loop language fixtures [] seen t = (seen, t)"
| "account_loop language fixtures (r # rs) seen t =
     account_loop language fixtures rs (count_seen (result_id r) seen) (count_result language fixtures r t)"

definition account :: "ustr \<Rightarrow> fixtures \<Rightarrow> result list \<Rightarrow> tally \<Rightarrow> tally" where
  "account language fixtures records t =
     (let (seen, t1) = account_loop language fixtures records [] t;
          duplicates = sort (map fst (filter (\<lambda>kn. 1 < snd kn) seen));
          t2 = (if duplicates \<noteq> [] then add_problem (Repeated duplicates) t1 else t1);
          missing = sort (filter (\<lambda>k. k \<notin> set (dict_keys seen)) (dict_keys fixtures))
      in if missing \<noteq> [] then add_problem (Missing (length missing) (take 5 missing) (length missing - 5)) t2 else t2)"

section \<open>Readiness of the mock server\<close>

text \<open>
  One round of a polling loop: the time at its test, the text of the readiness file if it exists, the exit
  status of the server if it has ended, and the status of the answer of the control API if there was one.
\<close>

record tick =
  tick_time :: rat
  tick_text :: "ustr option"
  tick_exit :: "int option"
  tick_answer :: "nat option"

datatype stop = Fails failure | Crashes crash

definition loopback_origin :: "(ustr \<Rightarrow> bool) \<Rightarrow> (ustr \<Rightarrow> bool) \<Rightarrow> ustr \<Rightarrow> stop + unit" where
  "loopback_origin nfkc_ok bracket_ok base_url =
     (let url = filter (\<lambda>c. c \<notin> {9, 10, 13}) (dropWhile (\<lambda>c. c \<le> 32) base_url) in
      case urlsplit nfkc_ok bracket_ok url of
        None \<Rightarrow> Inl (Crashes UrlRaised)
      | Some (scheme, netloc, rest) \<Rightarrow>
          (let (unfragmented, _, fragment) = partition_at 35 rest; (path, _, query) = partition_at 63 unfragmented
           in if scheme \<noteq> u ''http'' \<or> url_hostname netloc \<noteq> u ''127.0.0.1'' \<or> path \<noteq> [] \<or> query \<noteq> [] \<or> fragment \<noteq> []
              then Inl (Fails BadReadiness) else Inr ()))"

text \<open>
  A base address that is no string fails as well, at this test or as its text at the next, which begins with
  no scheme; both failures are the same value here.
\<close>

definition ready_origin :: "(ustr \<Rightarrow> bool) \<Rightarrow> (ustr \<Rightarrow> bool) \<Rightarrow> nat \<Rightarrow> ustr \<Rightarrow> stop + ustr" where
  "ready_origin nfkc_ok bracket_ok limit txt =
     (case splitlines txt of
        [line] \<Rightarrow>
          (case hooked_loads no_hooks limit line of
             Inl Nested \<Rightarrow> Inl (Crashes NestingRaised)
           | Inl Digits \<Rightarrow> Inl (Crashes DigitsRaised)
           | Inl _ \<Rightarrow> Inl (Fails BadReadiness)
           | Inr (JObj d) \<Rightarrow>
               if set (dict_keys d) \<noteq> {u ''base_url'', u ''control_url''} then Inl (Fails BadReadiness)
               else (case (dict_get d (u ''base_url''), dict_get d (u ''control_url'')) of
                       (Some (JStr b), Some (JStr c)) \<Rightarrow>
                         if b \<noteq> c then Inl (Fails BadReadiness)
                         else bindE (loopback_origin nfkc_ok bracket_ok b) (\<lambda>_. Inr b)
                     | _ \<Rightarrow> Inl (Fails BadReadiness))
           | Inr _ \<Rightarrow> Inl (Fails BadReadiness))
      | _ \<Rightarrow> Inl (Fails BadReadiness))"

text \<open>The loops; \<open>None\<close> is a loop that still runs after the given rounds.\<close>

primrec await_text :: "rat \<Rightarrow> tick list \<Rightarrow> (stop + ustr) option" where
  "await_text deadline [] = None"
| "await_text deadline (t # ts) =
     (let txt = (case tick_text t of Some s \<Rightarrow> s | None \<Rightarrow> []) in
      if deadline \<le> tick_time t then Some (Inl (Fails NeverReady))
      else if ends_with [10] txt then Some (Inr txt)
      else case tick_exit t of
             Some status \<Rightarrow> Some (Inl (Fails (MockExited status)))
           | None \<Rightarrow> await_text deadline ts)"

primrec wait_for_control :: "rat \<Rightarrow> tick list \<Rightarrow> (stop + unit) option" where
  "wait_for_control deadline [] = None"
| "wait_for_control deadline (t # ts) =
     (if deadline \<le> tick_time t then Some (Inl (Fails ControlNever))
      else case tick_exit t of
             Some status \<Rightarrow> Some (Inl (Fails (ControlExited status)))
           | None \<Rightarrow> if tick_answer t = Some 204 then Some (Inr ()) else wait_for_control deadline ts)"

section \<open>Processes\<close>

datatype signal = Term | Kill

text \<open>
  \<open>stop\<close>: a process as it answers the poll, the first wait and the last one; the signals sent and the status.
\<close>

definition stop_process :: "int option \<Rightarrow> int option \<Rightarrow> int \<Rightarrow> signal list \<times> int" where
  "stop_process polled after_term final =
     (case polled of
        Some status \<Rightarrow> ([], status)
      | None \<Rightarrow> (case after_term of Some status \<Rightarrow> ([Term], status) | None \<Rightarrow> ([Term, Kill], final)))"

text \<open>What the runner left in its process group: there after it ended, and there after the deadline.\<close>

definition stop_group :: "bool \<Rightarrow> bool \<Rightarrow> signal list" where
  "stop_group alive alive_later = (if alive then Term # (if alive_later then [Kill] else []) else [])"

definition ACCESS_TOKEN :: ustr where
  "ACCESS_TOKEN = u ''conformance-token''"

definition CONFORMANCE_PREFIX :: ustr where
  "CONFORMANCE_PREFIX = u ''CEKAT_CONFORMANCE_''"

definition runner_environment :: "ustr \<Rightarrow> ustr \<Rightarrow> (ustr, ustr) pydict \<Rightarrow> (ustr, ustr) pydict" where
  "runner_environment base_url fixture_dir environ =
     foldl (\<lambda>d (k, v). dict_set k v d) (filter (\<lambda>kv. \<not> starts_with CONFORMANCE_PREFIX (fst kv)) environ)
       [(u ''CEKAT_CONFORMANCE_BASE_URL'', base_url), (u ''CEKAT_CONFORMANCE_CONTROL_URL'', base_url),
        (u ''CEKAT_CONFORMANCE_ACCESS_TOKEN'', ACCESS_TOKEN), (u ''CEKAT_CONFORMANCE_FIXTURES'', fixture_dir)]"

text \<open>A line of the runner's output as it is shown, and as it is kept.\<close>

definition redacted :: "ustr \<Rightarrow> ustr" where
  "redacted line = py_replace ACCESS_TOKEN (u ''[redacted]'') line"

definition log_line :: "ustr \<Rightarrow> ustr" where
  "log_line line = rev (dropWhile (\<lambda>c. c = 10) (rev (redacted line)))"

text \<open>The standard error of the server, shown when there are problems.\<close>

definition shown_diagnostics :: "'p list \<Rightarrow> ustr option \<Rightarrow> ustr option" where
  "shown_diagnostics found stderr =
     (case stderr of
        None \<Rightarrow> None
      | Some s \<Rightarrow> if found \<noteq> [] \<and> py_strip s \<noteq> [] then Some (redacted (py_strip s)) else None)"

section \<open>One language\<close>

text \<open>
  The deadlines and rounds of the two loops; the status of the runner, whether it left processes behind, and
  the lines of its output; the exit status of the server if it has ended, when the runner has ended and when
  the script comes to stop it, and the statuses of its two waits.
\<close>

record happenings =
  ready_deadline :: rat
  ready_ticks :: "tick list"
  control_deadline :: rat
  control_ticks :: "tick list"
  runner_status :: int
  runner_left :: bool
  runner_output :: "ustr list"
  exit_after_runner :: "int option"
  exit_at_stop :: "int option"
  exit_after_term :: "int option"
  exit_at_last :: int

definition with_runner :: "nat \<Rightarrow> ustr \<Rightarrow> fixtures \<Rightarrow> happenings \<Rightarrow> crash + tally" where
  "with_runner limit language fixtures h =
     (let t0 = (if runner_left h then no_tally\<lparr>warnings := 1\<rparr> else no_tally);
          t1 = (if runner_status h \<noteq> 0 then add_problem (RunnerStatus (runner_status h)) t0 else t0);
          t2 = (case exit_after_runner h of Some status \<Rightarrow> add_problem (MockStoppedEarly status) t1 | None \<Rightarrow> t1)
      in bindE (parse_records limit (map log_line (runner_output h)))
           (\<lambda>records. Inr (account language fixtures records t2)))"

definition checked_run ::
  "(ustr \<Rightarrow> bool) \<Rightarrow> (ustr \<Rightarrow> bool) \<Rightarrow> nat \<Rightarrow> ustr \<Rightarrow> fixtures \<Rightarrow> happenings \<Rightarrow> (crash + tally) option" where
  "checked_run nfkc_ok bracket_ok limit language fixtures h =
     (case await_text (ready_deadline h) (ready_ticks h) of
        None \<Rightarrow> None
      | Some ready \<Rightarrow>
          (case bindE ready (ready_origin nfkc_ok bracket_ok limit) of
             Inl (Fails f) \<Rightarrow> Some (Inr (add_problem (Failed f) no_tally))
           | Inl (Crashes c) \<Rightarrow> Some (Inl c)
           | Inr base_url \<Rightarrow>
               (case wait_for_control (control_deadline h) (control_ticks h) of
                  None \<Rightarrow> None
                | Some (Inl (Fails f)) \<Rightarrow> Some (Inr (add_problem (Failed f) no_tally))
                | Some (Inl (Crashes c)) \<Rightarrow> Some (Inl c)
                | Some (Inr _) \<Rightarrow> Some (with_runner limit language fixtures h))))"

definition finish_run :: "happenings \<Rightarrow> tally \<Rightarrow> tally" where
  "finish_run h t =
     (let status = snd (stop_process (exit_at_stop h) (exit_after_term h) (exit_at_last h)) in
      if exit_at_stop h = None \<and> status \<noteq> 0 then add_problem (MockStatus status) t else t)"

definition run_language ::
  "(ustr \<Rightarrow> bool) \<Rightarrow> (ustr \<Rightarrow> bool) \<Rightarrow> nat \<Rightarrow> ustr \<Rightarrow> fixtures \<Rightarrow> happenings \<Rightarrow> (crash + tally) option" where
  "run_language nfkc_ok bracket_ok limit language fixtures h =
     map_option (\<lambda>r. bindE r (\<lambda>t. Inr (finish_run h t))) (checked_run nfkc_ok bracket_ok limit language fixtures h)"

section \<open>The command\<close>

definition RUN_LANGUAGES :: "ustr list" where
  "RUN_LANGUAGES = [u ''go'', u ''node'', u ''python'', u ''php'', u ''java'', u ''dotnet'', u ''ruby'']"

datatype selection = Usage | Nothing | Selected "ustr list"

definition select_languages :: "(ustr \<Rightarrow> bool) \<Rightarrow> ustr list \<Rightarrow> selection" where
  "select_languages has_runner arguments =
     (case arguments of
        [] \<Rightarrow> (case filter has_runner RUN_LANGUAGES of [] \<Rightarrow> Nothing | ls \<Rightarrow> Selected ls)
      | [option, language] \<Rightarrow>
          if option \<noteq> u ''--language'' then Usage
          else if language \<notin> set RUN_LANGUAGES then Usage
          else if \<not> has_runner language then Nothing else Selected [language]
      | _ \<Rightarrow> Usage)"

definition counts_text :: "tally \<Rightarrow> ustr" where
  "counts_text t =
     str_of_nat (passed t) @ u '' passed, '' @ str_of_nat (not_applicable t) @ u '' not_applicable'' @
     (if deviations t = 0 then [] else u '', '' @ str_of_nat (deviations t) @ u '' with runtime_deviation'')"

text \<open>A line of the summary: the language, the counts, and the problems, if there are any.\<close>

primrec run_selected ::
  "(ustr \<Rightarrow> (crash + tally) option) \<Rightarrow> ustr list \<Rightarrow> (crash + (ustr \<times> ustr \<times> problem list) list) option" where
  "run_selected run [] = Some (Inr [])"
| "run_selected run (l # ls) =
     (case run l of
        None \<Rightarrow> None
      | Some (Inl c) \<Rightarrow> Some (Inl c)
      | Some (Inr t) \<Rightarrow>
          map_option (\<lambda>r. bindE r (\<lambda>rest. Inr ((l, counts_text t, problems t) # rest))) (run_selected run ls))"

text \<open>The binary of the server: named by the environment, or built below the working directory.\<close>

datatype build_error = BuildFailed | NotExecutable ustr

definition build_mock :: "ustr option \<Rightarrow> bool \<Rightarrow> (ustr \<Rightarrow> bool) \<Rightarrow> ustr \<Rightarrow> build_error + ustr" where
  "build_mock named build_ok is_executable work =
     bindE (case named of
              Some binary \<Rightarrow>
                if binary \<noteq> [] then Inr binary
                else if build_ok then Inr (work @ u ''/mock-ingest-server'') else Inl BuildFailed
            | None \<Rightarrow> if build_ok then Inr (work @ u ''/mock-ingest-server'') else Inl BuildFailed)
       (\<lambda>path. if is_executable path then Inr path else Inl (NotExecutable path))"

datatype ending = Exit nat "(ustr \<times> ustr \<times> problem list) list" | Crashed crash | NoMock build_error

text \<open>\<open>None\<close> as before is a run that has not ended.\<close>

definition conformance_main ::
  "(ustr \<Rightarrow> bool) \<Rightarrow> (ustr \<Rightarrow> bool) \<Rightarrow> nat \<Rightarrow> (ustr \<Rightarrow> bool) \<Rightarrow> (ustr \<times> bytes) list option \<Rightarrow>
    build_error + ustr \<Rightarrow> (ustr \<Rightarrow> happenings) \<Rightarrow> ustr list \<Rightarrow> ending option" where
  "conformance_main nfkc_ok bracket_ok limit has_runner directory mock world arguments =
     (case select_languages has_runner arguments of
        Usage \<Rightarrow> Some (Exit 2 [])
      | Nothing \<Rightarrow> Some (Exit 1 [])
      | Selected ls \<Rightarrow>
          (case load_fixtures limit directory of
             Inl c \<Rightarrow> Some (Crashed c)
           | Inr fixtures \<Rightarrow>
               (case mock of
                  Inl e \<Rightarrow> Some (NoMock e)
                | Inr _ \<Rightarrow>
                    map_option (\<lambda>r. case r of
                        Inl c \<Rightarrow> Crashed c
                      | Inr summary \<Rightarrow> Exit (if list_ex (\<lambda>(_, _, ps). ps \<noteq> []) summary then 1 else 0) summary)
                      (run_selected (\<lambda>l. run_language nfkc_ok bracket_ok limit l fixtures (world l)) ls))))"

end
