(* ===== verification/ConformanceChecks.thy ===== *)
theory ConformanceChecks
  imports Conformance "HOL-Library.Multiset"
begin

text \<open>
  What \<open>scripts/conformance.py\<close> establishes: records account for the fixtures exactly once each, the access
  token never reaches the output or the kept log, and the command succeeds exactly when every selected
  language does.
\<close>

section \<open>Accounting\<close>

definition accepted :: "ustr \<Rightarrow> fixtures \<Rightarrow> result \<Rightarrow> bool" where
  "accepted language fixtures r \<longleftrightarrow>
     (case dict_get fixtures (result_id r) of
        None \<Rightarrow> False
      | Some inapplicable \<Rightarrow>
          result_status r = JStr (u ''passed'') \<or>
          result_status r = JStr (u ''not_applicable'') \<and> JStr language \<in> set inapplicable)"

lemma problems_add [simp]: "problems (add_problem p t) = problems t @ [p]"
  by (simp add: add_problem_def)

lemma count_result_accepted:
  "accepted language fixtures r \<Longrightarrow>
    problems (count_result language fixtures r t) = problems t \<and>
    passed (count_result language fixtures r t) + not_applicable (count_result language fixtures r t) =
      passed t + not_applicable t + 1"
  by (auto simp: accepted_def count_result_def split: option.splits)

lemma count_result_rejected:
  "\<not> accepted language fixtures r \<Longrightarrow> \<exists>p. problems (count_result language fixtures r t) = problems t @ [p]"
  by (auto simp: accepted_def count_result_def split: option.splits)

lemma account_loop_problems:
  "\<exists>ps. problems (snd (account_loop language fixtures rs seen t)) = problems t @ ps \<and>
    (ps = [] \<longleftrightarrow> list_all (accepted language fixtures) rs)"
proof (induction rs arbitrary: seen t)
  case (Cons r rs)
  obtain qs where qs: "problems (count_result language fixtures r t) = problems t @ qs"
      "qs = [] \<longleftrightarrow> accepted language fixtures r"
    using count_result_accepted [of language fixtures r t] count_result_rejected [of language fixtures r t]
    by (cases "accepted language fixtures r") auto
  obtain ps where "problems (snd (account_loop language fixtures (r # rs) seen t)) =
      problems (count_result language fixtures r t) @ ps" "ps = [] \<longleftrightarrow> list_all (accepted language fixtures) rs"
    using Cons by (metis account_loop.simps(2))
  with qs show ?case by (intro exI [of _ "qs @ ps"]) simp
qed simp

lemma account_loop_total:
  "list_all (accepted language fixtures) rs \<Longrightarrow>
    passed (snd (account_loop language fixtures rs seen t)) + not_applicable (snd (account_loop language fixtures rs seen t)) =
      passed t + not_applicable t + length rs"
  by (induction rs arbitrary: seen t) (auto simp: count_result_accepted)

lemma account_loop_seen:
  "dict_ok seen \<Longrightarrow> dict_ok (fst (account_loop language fixtures rs seen t)) \<and>
    (\<forall>k. (case dict_get (fst (account_loop language fixtures rs seen t)) k of Some n \<Rightarrow> n | None \<Rightarrow> 0) =
       (case dict_get seen k of Some n \<Rightarrow> n | None \<Rightarrow> 0) + count_list (map result_id rs) k) \<and>
    set (dict_keys (fst (account_loop language fixtures rs seen t))) = set (dict_keys seen) \<union> result_id ` set rs"
proof (induction rs arbitrary: seen t)
  case (Cons r rs)
  have "dict_ok (count_seen (result_id r) seen)" using Cons.prems by (simp add: count_seen_def dict_ok_set)
  from Cons.IH [OF this, of "count_result language fixtures r t"] show ?case
    by (auto simp: count_seen_def dict_get_set dict_keys_get split: option.splits if_splits)
qed simp

lemma count_list_le_one: "(\<forall>k. count_list xs k \<le> 1) \<longleftrightarrow> distinct xs"
proof
  assume one: "\<forall>k. count_list xs k \<le> 1"
  have "count_list xs k = (if k \<in> set xs then 1 else 0)" for k
    using one [rule_format, of k] count_list_0_iff [of xs k] by auto
  then show "distinct xs" by (simp add: distinct_count_atmost_1 count_mset)
qed (simp add: distinct_count_atmost_1 count_mset)

lemma sort_Nil_iff [simp]: "sort xs = [] \<longleftrightarrow> xs = []"
  by (metis length_0_conv length_sort)

lemma mset_keys_iff:
  "distinct ks \<Longrightarrow> mset is = mset ks \<longleftrightarrow> distinct is \<and> set is = set ks"
  by (metis mset_eq_imp_distinct_iff mset_eq_setD set_eq_iff_mset_eq_distinct)


lemma account_tail:
  fixes t :: tally
  assumes seen: "dict_ok seen" "\<And>k. (case dict_get seen k of Some n \<Rightarrow> n | None \<Rightarrow> 0) = count_list is k"
    and keys: "set (dict_keys seen) = set is"
  shows "sort (map fst (filter (\<lambda>kn. 1 < snd kn) seen)) = [] \<longleftrightarrow> distinct is"
    and "sort (filter (\<lambda>k. k \<notin> set (dict_keys seen)) ks) = [] \<longleftrightarrow> set ks \<subseteq> set is"
proof -
  have "(k, n) \<in> set seen \<longleftrightarrow> dict_get seen k = Some n" for k n
    using seen(1) by (simp add: dict_ok_def dict_get_def)
  then have "(\<forall>kn\<in>set seen. \<not> 1 < snd kn) \<longleftrightarrow> (\<forall>k n. dict_get seen k = Some n \<longrightarrow> n \<le> 1)"
    by (simp add: Ball_def split_paired_All not_less)
  also have "\<dots> \<longleftrightarrow> (\<forall>k. count_list is k \<le> 1)"
    unfolding seen(2) [symmetric] by (auto split: option.splits)
  finally show "sort (map fst (filter (\<lambda>kn. 1 < snd kn) seen)) = [] \<longleftrightarrow> distinct is"
    unfolding sort_Nil_iff map_is_Nil_conv filter_empty_conv count_list_le_one .
  show "sort (filter (\<lambda>k. k \<notin> set (dict_keys seen)) ks) = [] \<longleftrightarrow> set ks \<subseteq> set is"
    unfolding keys by (auto simp: filter_empty_conv)
qed

lemma account_accepts:
  assumes ok: "dict_ok fixtures"
  shows "problems (account language fixtures records t) = problems t \<longleftrightarrow>
    list_all (accepted language fixtures) records \<and> mset (map result_id records) = mset (dict_keys fixtures)"
    and "problems (account language fixtures records t) = problems t \<Longrightarrow>
      passed (account language fixtures records t) + not_applicable (account language fixtures records t) =
        passed t + not_applicable t + length fixtures"
proof -
  let ?ids = "map result_id records"
  obtain seen t1 where loop: "account_loop language fixtures records [] t = (seen, t1)" by fastforce
  have seen: "dict_ok seen" "\<And>k. (case dict_get seen k of Some n \<Rightarrow> n | None \<Rightarrow> 0) = count_list ?ids k"
      "set (dict_keys seen) = set ?ids"
    using account_loop_seen [of "[]" language fixtures records t] loop by (simp_all add: dict_keys_def)
  note tail = account_tail [OF seen]
  obtain ps where ps: "problems t1 = problems t @ ps" "ps = [] \<longleftrightarrow> list_all (accepted language fixtures) records"
    using account_loop_problems [of language fixtures records "[]" t] loop by auto
  have ids: "set ?ids \<subseteq> set (dict_keys fixtures)" if "list_all (accepted language fixtures) records"
    using that by (auto simp: list_all_iff accepted_def dict_keys_get split: option.splits)
  have same: "problems (account language fixtures records t) = problems t \<longleftrightarrow>
      list_all (accepted language fixtures) records \<and> distinct ?ids \<and> set (dict_keys fixtures) \<subseteq> set ?ids"
    unfolding account_def loop Let_def prod.case using tail ps by (auto simp del: sort_Nil_iff)
  also have "\<dots> \<longleftrightarrow> list_all (accepted language fixtures) records \<and> mset ?ids = mset (dict_keys fixtures)"
    using ids mset_keys_iff [of "dict_keys fixtures" ?ids] ok by (auto simp: dict_ok_def dict_keys_def)
  finally show iff: "problems (account language fixtures records t) = problems t \<longleftrightarrow> \<dots>" .
  assume none: "problems (account language fixtures records t) = problems t"
  then have all: "list_all (accepted language fixtures) records" and m: "mset ?ids = mset (dict_keys fixtures)"
    using iff by auto
  have "account language fixtures records t = t1"
    unfolding account_def loop Let_def prod.case using none same tail by (simp del: sort_Nil_iff)
  moreover have "length records = length fixtures"
    using mset_eq_length [OF m] by (simp add: dict_keys_def)
  ultimately show "passed (account language fixtures records t) + not_applicable (account language fixtures records t) =
        passed t + not_applicable t + length fixtures"
    using account_loop_total [OF all, of "[]" t] loop by simp
qed

section \<open>Polling and the environment\<close>

lemma polling_ends:
  assumes "list_ex (\<lambda>t. deadline \<le> tick_time t) ts"
  shows "\<exists>r. await_text deadline ts = Some r" "\<exists>r. wait_for_control deadline ts = Some r"
  using assms by (induction ts) (auto simp: Let_def split: option.splits)

text \<open>The runner sees four variables with the prefix and the variables of the script without it.\<close>

definition runner_variables :: "ustr \<Rightarrow> ustr \<Rightarrow> (ustr \<times> ustr) list" where
  "runner_variables base_url fixture_dir =
     [(u ''CEKAT_CONFORMANCE_BASE_URL'', base_url), (u ''CEKAT_CONFORMANCE_CONTROL_URL'', base_url),
      (u ''CEKAT_CONFORMANCE_ACCESS_TOKEN'', ACCESS_TOKEN), (u ''CEKAT_CONFORMANCE_FIXTURES'', fixture_dir)]"

lemma runner_environment_get:
  "dict_get (runner_environment base_url fixture_dir environ) name =
    (if starts_with CONFORMANCE_PREFIX name then map_of (runner_variables base_url fixture_dir) name
     else dict_get environ name)"
proof -
  have kept: "dict_get (filter (\<lambda>kv. P (fst kv)) d) k = (if P k then dict_get d k else None)"
    for P and d :: "(ustr, ustr) pydict" and k
    by (induction d) (auto simp: dict_get_def)
  have prefixed: "starts_with CONFORMANCE_PREFIX k" if "k \<in> fst ` set (runner_variables base_url fixture_dir)" for k
    using that by (auto simp: runner_variables_def CONFORMANCE_PREFIX_def starts_with_def u_def)
  have "dict_get (runner_environment base_url fixture_dir environ) name =
      (case map_of (runner_variables base_url fixture_dir) name of
         Some v \<Rightarrow> Some v
       | None \<Rightarrow> if starts_with CONFORMANCE_PREFIX name then None else dict_get environ name)"
    unfolding runner_environment_def runner_variables_def
    by (auto simp: dict_get_set kept [of "\<lambda>k. \<not> starts_with CONFORMANCE_PREFIX k"])
  then show ?thesis
    using prefixed [of name]
    by (cases "map_of (runner_variables base_url fixture_dir) name") (auto simp: rev_image_eqI dest!: map_of_SomeD)
qed

section \<open>One language and all\<close>

lemma load_fixtures_ok: "load_fixtures limit directory = Inr fixtures \<Longrightarrow> dict_ok fixtures"
proof -
  have "read_fixtures limit fs d = Inr d' \<Longrightarrow> dict_ok d \<Longrightarrow> dict_ok d'" for fs d d'
    by (induction fs arbitrary: d) (auto simp: bindE_Inr_iff dict_ok_set)
  then show "load_fixtures limit directory = Inr fixtures \<Longrightarrow> dict_ok fixtures"
    unfolding load_fixtures_def by (auto simp: bindE_Inr_iff split: option.splits if_splits)
qed

text \<open>What a run of one language has to show.\<close>

definition server_ready :: "(ustr \<Rightarrow> bool) \<Rightarrow> (ustr \<Rightarrow> bool) \<Rightarrow> nat \<Rightarrow> happenings \<Rightarrow> bool" where
  "server_ready nfkc_ok bracket_ok limit h \<longleftrightarrow>
     (\<exists>txt base_url. await_text (ready_deadline h) (ready_ticks h) = Some (Inr txt) \<and>
        ready_origin nfkc_ok bracket_ok limit txt = Inr base_url) \<and>
     wait_for_control (control_deadline h) (control_ticks h) = Some (Inr ())"

definition stopped_well :: "happenings \<Rightarrow> bool" where
  "stopped_well h \<longleftrightarrow>
     exit_after_runner h = None \<and>
     ((\<exists>status. exit_at_stop h = Some status) \<or>
      snd (stop_process (exit_at_stop h) (exit_after_term h) (exit_at_last h)) = 0)"

definition all_accounted :: "nat \<Rightarrow> ustr \<Rightarrow> fixtures \<Rightarrow> ustr list \<Rightarrow> bool" where
  "all_accounted limit language fixtures lines \<longleftrightarrow>
     (\<exists>records. parse_records limit (map log_line lines) = Inr records \<and>
        list_all (accepted language fixtures) records \<and> mset (map result_id records) = mset (dict_keys fixtures))"

lemma finish_run_problems:
  "problems (finish_run h t) = [] \<longleftrightarrow> problems t = [] \<and>
    ((\<exists>status. exit_at_stop h = Some status) \<or>
     snd (stop_process (exit_at_stop h) (exit_after_term h) (exit_at_last h)) = 0)"
  by (auto simp: finish_run_def Let_def)

lemma account_keeps: "\<exists>ps. problems (account language fixtures records t) = problems t @ ps"
  using account_loop_problems [of language fixtures records "[]" t]
  by (auto simp: account_def Let_def split_beta)

lemma with_runner_problems:
  assumes "dict_ok fixtures"
  shows "(\<exists>t. with_runner limit language fixtures h = Inr t \<and> problems t = []) \<longleftrightarrow>
    runner_status h = 0 \<and> exit_after_runner h = None \<and> all_accounted limit language fixtures (runner_output h)"
proof -
  have none: "problems (account language fixtures records t) = [] \<longleftrightarrow> problems t = [] \<and>
      list_all (accepted language fixtures) records \<and> mset (map result_id records) = mset (dict_keys fixtures)"
    for records t
    using account_accepts(1) [OF assms, of language records t] account_keeps [of language fixtures records t]
    by (metis append_is_Nil_conv)
  show ?thesis
    unfolding with_runner_def all_accounted_def Let_def
    by (auto simp: bindE_Inr_iff none no_tally_def split: option.splits)
qed

lemma run_language_passes:
  assumes "dict_ok fixtures"
  shows "(\<exists>t. run_language nfkc_ok bracket_ok limit language fixtures h = Some (Inr t) \<and> problems t = []) \<longleftrightarrow>
    server_ready nfkc_ok bracket_ok limit h \<and> runner_status h = 0 \<and> stopped_well h \<and>
    all_accounted limit language fixtures (runner_output h)"
proof -
  have failed: "problems (finish_run h (add_problem p t)) \<noteq> []" for p t by (simp add: finish_run_problems)
  have "(\<exists>t. run_language nfkc_ok bracket_ok limit language fixtures h = Some (Inr t) \<and> problems t = []) \<longleftrightarrow>
      server_ready nfkc_ok bracket_ok limit h \<and>
      (\<exists>t. with_runner limit language fixtures h = Inr t \<and> problems (finish_run h t) = [])"
    unfolding run_language_def checked_run_def server_ready_def
    using failed
    by (auto simp: bindE_Inr_iff bindE_def split: option.splits sum.splits stop.splits)
  then show ?thesis
    using with_runner_problems [OF assms, of limit language h] unfolding finish_run_problems stopped_well_def by auto
qed

lemma run_selected_passes:
  "(\<exists>summary. run_selected run ls = Some (Inr summary) \<and> \<not> list_ex (\<lambda>(_, _, ps). ps \<noteq> []) summary) \<longleftrightarrow>
    list_all (\<lambda>l. \<exists>t. run l = Some (Inr t) \<and> problems t = []) ls"
proof (induction ls)
  case (Cons l ls)
  show ?case
  proof (cases "\<exists>t. run l = Some (Inr t)")
    case True
    then obtain t where "run l = Some (Inr t)" by blast
    then show ?thesis using Cons by (auto simp: bindE_Inr_iff)
  next
    case False
    then show ?thesis by (auto split: option.splits sum.splits)
  qed
qed simp

section \<open>A sample run\<close>

text \<open>A run of one language over one fixture that succeeds.\<close>

definition ready_line :: ustr where
  "ready_line = u ''{\"base_url\":\"http://127.0.0.1:8\",\"control_url\":\"http://127.0.0.1:8\"}''"

definition passed_line :: ustr where
  "passed_line = u ''{\"id\":\"a\",\"status\":\"passed\"}''"

definition good_run :: happenings where
  "good_run = \<lparr>ready_deadline = 10,
     ready_ticks = [\<lparr>tick_time = 0, tick_text = Some (ready_line @ [10]), tick_exit = None, tick_answer = None\<rparr>],
     control_deadline = 10,
     control_ticks = [\<lparr>tick_time = 1, tick_text = None, tick_exit = None, tick_answer = Some 204\<rparr>],
     runner_status = 0, runner_left = False, runner_output = [passed_line],
     exit_after_runner = None, exit_at_stop = None, exit_after_term = Some 0, exit_at_last = 0\<rparr>"

lemma good_fixtures: "load_fixtures 10 (Some [(u ''a.json'', [123, 125])]) = Inr [(u ''a'', [])]"
proof -
  have d: "utf8_decode [123, 125] = Some [123, 125]" by code_simp
  have l: "hooked_loads no_hooks 10 [123, 125] = Inr (JObj [])"
    by (simp add: hooked_loads_def hooked_eval no_hooks_def)
  have p: "path_stem (u ''a.json'') = u ''a''" "ends_with (u ''.json'') (u ''a.json'')" by code_simp+
  show ?thesis by (simp add: load_fixtures_def p read_fixture_def d l get_or_def as_set_def dict_get_def)
qed

lemma good_origin: "ready_origin (\<lambda>_. True) (\<lambda>_. True) 10 (ready_line @ [10]) = Inr (u ''http://127.0.0.1:8'')"
proof -
  have s: "splitlines (ready_line @ [10]) = [ready_line]"
    by (simp add: ready_line_def u_def splitlines.simps [of "c # s" for c s] splitlines.simps [of "[]"] line_break_def
        after_break_def)
  have n: "length ready_line = 68" by (simp add: ready_line_def u_def)
  have l: "hooked_loads no_hooks 10 ready_line =
      Inr (JObj [(u ''base_url'', JStr (u ''http://127.0.0.1:8'')), (u ''control_url'', JStr (u ''http://127.0.0.1:8''))])"
    unfolding hooked_loads_def n by (simp add: ready_line_def u_def hooked_eval no_hooks_def dict_of_def)
  have o: "loopback_origin (\<lambda>_. True) (\<lambda>_. True) (u ''http://127.0.0.1:8'') = Inr ()" by code_simp
  have d: "u ''base_url'' \<noteq> u ''control_url''" by (simp add: u_def)
  show ?thesis unfolding ready_origin_def s by (simp add: l dict_get_def o dict_keys_def d)
qed

lemma good_records:
  "parse_records 10 (map log_line [passed_line]) = Inr [[(u ''id'', JStr (u ''a'')), (u ''status'', JStr (u ''passed''))]]"
proof -
  have s: "log_line passed_line = passed_line" by (simp add: passed_line_def) code_simp
  have n: "length passed_line = 28" by (simp add: passed_line_def u_def)
  have f: "find_record passed_line = Some passed_line"
    by (simp add: passed_line_def u_def starts_record_def starts_with_def is_space_def white_space_def)
  have l: "hooked_value no_hooks (2 * length passed_line + 2) 10 passed_line =
      Inr (JObj [(u ''id'', JStr (u ''a'')), (u ''status'', JStr (u ''passed''))], [])"
    unfolding n by (simp add: passed_line_def u_def hooked_eval no_hooks_def dict_of_def)
  have d: "u ''id'' \<noteq> u ''status''" by (simp add: u_def)
  have p: "parse_line 10 passed_line = Inr (Some [(u ''id'', JStr (u ''a'')), (u ''status'', JStr (u ''passed''))])"
    unfolding parse_line_def f option.case l sum.case by (simp add: result_of_def dict_get_def dict_keys_def d)
  show ?thesis by (simp add: parse_records_def s p)
qed

lemma good_run_ready: "server_ready (\<lambda>_. True) (\<lambda>_. True) 10 good_run"
  using good_origin by (simp add: server_ready_def good_run_def ends_with_def starts_with_def Let_def)

lemma good_run_accounted: "all_accounted 10 (u ''go'') [(u ''a'', [])] (runner_output good_run)"
proof -
  have "u ''id'' \<noteq> u ''status''" by (simp add: u_def)
  then show ?thesis
    using good_records
    by (simp add: all_accounted_def good_run_def accepted_def result_id_def result_status_def dict_get_def dict_keys_def)
qed

section \<open>Properties\<close>

text \<open>
  C28: the records of a runner raise no problem exactly when each of them is a pass, or a not-applicable its
  fixture declares for the language, of a known fixture, and together they name every fixture exactly once;
  then the counts of passed and not-applicable ones add up to the number of fixtures.
\<close>

theorem account_exact:
  assumes "dict_ok fixtures"
  shows "(problems (account language fixtures records t) = problems t \<longleftrightarrow>
      list_all (accepted language fixtures) records \<and> mset (map result_id records) = mset (dict_keys fixtures)) \<and>
    (problems (account language fixtures records t) = problems t \<longrightarrow>
      passed (account language fixtures records t) + not_applicable (account language fixtures records t) =
        passed t + not_applicable t + length fixtures)"
  using account_accepts [OF assms] by blast

theorem account_exact_witness:
  "problems (account (u ''go'') [(u ''a'', []), (u ''b'', [JStr (u ''go'')])]
     [[(u ''id'', JStr (u ''b'')), (u ''status'', JStr (u ''not_applicable''))],
      [(u ''id'', JStr (u ''a'')), (u ''status'', JStr (u ''passed''))]] no_tally) = problems no_tally"
proof -
  have "dict_ok [(u ''a'', []), (u ''b'', [JStr (u ''go'')])]" by (simp add: dict_ok_def)
  from account_exact [OF this] show ?thesis
    by (simp add: accepted_def result_id_def result_status_def dict_get_def dict_keys_def)
qed

text \<open>
  Whatever a runner prints, neither the line that is shown nor the line that is kept contains the
  access token, and neither do the diagnostics of the server that are shown.
\<close>

theorem token_never_shown:
  "\<not> occurs_in ACCESS_TOKEN (redacted line) \<and> \<not> occurs_in ACCESS_TOKEN (log_line line) \<and>
    pred_option (\<lambda>shown. \<not> occurs_in ACCESS_TOKEN shown) (shown_diagnostics found stderr)"
proof -
  have pieces: "u ''[redacted]'' = 91 # u ''redacted'' @ [93]" by (simp add: u_def)
  have "91 \<notin> set ACCESS_TOKEN" "93 \<notin> set ACCESS_TOKEN" "ACCESS_TOKEN \<noteq> []"
    "\<not> occurs_in ACCESS_TOKEN (u ''redacted'')"
    by (simp_all add: ACCESS_TOKEN_def u_def starts_with_def)
  then have shown: "\<not> occurs_in ACCESS_TOKEN (redacted line)" for line
    unfolding redacted_def pieces by (intro replace_leaves_none)
  have "sublist (log_line line) (redacted line)"
    unfolding log_line_def by (metis rev_rev_ident sublist_rev suffix_dropWhile suffix_imp_sublist)
  then have "\<not> occurs_in ACCESS_TOKEN (log_line line)"
    using shown [of line] unfolding occurs_in_sublist using sublist_order.order.trans by blast
  then show ?thesis using shown by (simp add: shown_diagnostics_def split: option.split)
qed

text \<open>A server that ended on its own before it is stopped, with any status, adds no problem when it is.\<close>

lemma late_death_unnoticed: "exit_at_stop h = Some status \<Longrightarrow> finish_run h t = t"
  by (simp add: finish_run_def Let_def)

lemma selected_known: "select_languages has_runner arguments = Selected ls \<Longrightarrow> set ls \<subseteq> set RUN_LANGUAGES"
  unfolding select_languages_def
  by (auto split: list.splits if_splits)

text \<open>A server that is up until it is stopped and then ends with status zero, after \<open>SIGTERM\<close> or at last.\<close>

lemma stopped_well_clean:
  assumes "exit_at_stop h = None \<or> exit_after_runner h \<noteq> None"
  shows "stopped_well h \<longleftrightarrow> exit_after_runner h = None \<and> exit_at_stop h = None \<and>
    (case exit_after_term h of Some status \<Rightarrow> status = 0 | None \<Rightarrow> exit_at_last h = 0)"
  using assms by (auto simp: stopped_well_def stop_process_def split: option.splits)

text \<open>
  C39: provided no server ends on its own between the look at it when the runner has ended and the one when it
  is stopped, the command ends with status zero exactly when languages were selected, the fixtures load, the
  mock server is there, and for each language the server became ready, the runner ended with status zero, the
  server stayed up until it was stopped and then ended with status zero, and the records account for the
  fixtures. In the window left out, a server that ended with any status counts as a success.
\<close>

theorem conformance_succeeds:
  assumes "\<forall>l \<in> set RUN_LANGUAGES. exit_at_stop (world l) = None \<or> exit_after_runner (world l) \<noteq> None"
  shows "(\<exists>summary. conformance_main nfkc_ok bracket_ok limit has_runner directory mock world arguments = Some (Exit 0 summary)) \<longleftrightarrow>
    (\<exists>ls fixtures. select_languages has_runner arguments = Selected ls \<and> load_fixtures limit directory = Inr fixtures \<and>
      (\<exists>binary. mock = Inr binary) \<and>
      list_all (\<lambda>l. server_ready nfkc_ok bracket_ok limit (world l) \<and> runner_status (world l) = 0 \<and>
        exit_after_runner (world l) = None \<and> exit_at_stop (world l) = None \<and>
        (case exit_after_term (world l) of Some status \<Rightarrow> status = 0 | None \<Rightarrow> exit_at_last (world l) = 0) \<and>
        all_accounted limit l fixtures (runner_output (world l))) ls)"
proof (cases "\<exists>ls fixtures binary. select_languages has_runner arguments = Selected ls \<and>
    load_fixtures limit directory = Inr fixtures \<and> mock = Inr binary")
  case False
  then show ?thesis unfolding conformance_main_def by (auto split: selection.splits sum.splits)
next
  case True
  then obtain ls fixtures binary where ls: "select_languages has_runner arguments = Selected ls"
    and fixtures: "load_fixtures limit directory = Inr fixtures" and mock: "mock = Inr binary" by blast
  let ?run = "\<lambda>l. run_language nfkc_ok bracket_ok limit l fixtures (world l)"
  have "(\<exists>summary. conformance_main nfkc_ok bracket_ok limit has_runner directory mock world arguments = Some (Exit 0 summary)) \<longleftrightarrow>
      (\<exists>summary. run_selected ?run ls = Some (Inr summary) \<and> \<not> list_ex (\<lambda>(_, _, ps). ps \<noteq> []) summary)"
  proof (cases "run_selected ?run ls")
    case None
    then show ?thesis by (simp add: conformance_main_def ls fixtures mock)
  next
    case (Some r)
    then show ?thesis by (cases r) (auto simp: conformance_main_def ls fixtures mock)
  qed
  also have "\<dots> \<longleftrightarrow> list_all (\<lambda>l. server_ready nfkc_ok bracket_ok limit (world l) \<and> runner_status (world l) = 0 \<and>
      stopped_well (world l) \<and> all_accounted limit l fixtures (runner_output (world l))) ls"
    unfolding run_selected_passes run_language_passes [OF load_fixtures_ok [OF fixtures]] ..
  also have "\<dots> \<longleftrightarrow> list_all (\<lambda>l. server_ready nfkc_ok bracket_ok limit (world l) \<and> runner_status (world l) = 0 \<and>
      exit_after_runner (world l) = None \<and> exit_at_stop (world l) = None \<and>
      (case exit_after_term (world l) of Some status \<Rightarrow> status = 0 | None \<Rightarrow> exit_at_last (world l) = 0) \<and>
      all_accounted limit l fixtures (runner_output (world l))) ls"
    using selected_known [OF ls] assms by (intro list.pred_cong refl) (auto simp: stopped_well_clean)
  finally show ?thesis using ls fixtures mock by auto
qed

theorem conformance_succeeds_witness:
  "\<exists>summary. conformance_main (\<lambda>_. True) (\<lambda>_. True) 10 (\<lambda>l. l = u ''go'') (Some [(u ''a.json'', [123, 125])]) (Inr [])
     (\<lambda>_. good_run) [] = Some (Exit 0 summary)"
proof -
  have run: "exit_at_stop good_run = None" "exit_after_runner good_run = None" "exit_after_term good_run = Some 0"
    "runner_status good_run = 0"
    by (simp_all add: good_run_def)
  have "select_languages (\<lambda>l. l = u ''go'') [] = Selected [u ''go'']" by (simp add: select_languages_def RUN_LANGUAGES_def u_def)
  with conformance_succeeds [of "\<lambda>_. good_run" "\<lambda>_. True" "\<lambda>_. True" 10 "\<lambda>l. l = u ''go''"
      "Some [(u ''a.json'', [123, 125])]" "Inr []" "[]"] run good_fixtures good_run_ready good_run_accounted
  show ?thesis by simp
qed

end
