(* ===== verification/ConformanceReport.thy ===== *)
theory ConformanceReport
  imports ConformanceChecks "HOL-Library.Code_Target_Nat"
begin

text \<open>
  \<open>scripts/conformance.py\<close>, what it prints: usage, groups of lines, the texts of the problems, the report of a
  language and the summary. How Python shows a JSON value, the deadline in seconds and which of the two messages
  tells a bad readiness record are arguments.
\<close>

section \<open>Texts\<close>

definition usage_lines :: "ustr \<Rightarrow> ustr list" where
  "usage_lines message =
     [u ''conformance: '' @ message,
      u ''usage: scripts/conformance.sh [--language <'' @ join_with (u ''|'') RUN_LANGUAGES @ u ''>]'']"

definition group_line :: "bool \<Rightarrow> ustr \<Rightarrow> ustr" where
  "group_line github title = (if github then u ''::group::'' @ title else u ''== '' @ title)"

definition end_group_lines :: "bool \<Rightarrow> ustr list" where
  "end_group_lines github = (if github then [u ''::endgroup::''] else [])"

definition failure_text :: "pyfloat \<Rightarrow> ustr \<Rightarrow> failure \<Rightarrow> ustr" where
  "failure_text seconds malformed f =
     (case f of
        MockExited status \<Rightarrow> u ''mock server exited with status '' @ str_of_int status @ u '' before reporting readiness''
      | NeverReady \<Rightarrow> u ''mock server did not report readiness within '' @ general_format seconds @ u '' seconds''
      | BadReadiness \<Rightarrow> malformed
      | ControlExited status \<Rightarrow> u ''mock server exited with status '' @ str_of_int status @ u '' before its control API was ready''
      | ControlNever \<Rightarrow> u ''mock server control API never answered POST /__control/reset with 204'')"

definition problem_text :: "(json \<Rightarrow> ustr) \<Rightarrow> (failure \<Rightarrow> ustr) \<Rightarrow> problem \<Rightarrow> ustr" where
  "problem_text show_json failed p =
     (case p of
        UnknownFixture k \<Rightarrow> u ''result for unknown fixture '' @ k
      | NotDeclared k language \<Rightarrow>
          k @ u '' reported not_applicable but does not declare '' @ language @ u '' inapplicable''
      | BadStatus k status \<Rightarrow>
          k @ u '' has status '' @ show_json status @ u ''; only passed or declared not_applicable count''
      | Repeated ks \<Rightarrow> u ''fixtures reported more than once: '' @ join_with (u '', '') ks
      | Missing n missing others \<Rightarrow>
          str_of_nat n @ u '' fixture(s) have no result: '' @ join_with (u '', '') missing @
          (if 0 < others then u '' and '' @ str_of_nat others @ u '' more'' else [])
      | RunnerStatus status \<Rightarrow> u ''runner exited with status '' @ str_of_int status
      | MockStoppedEarly status \<Rightarrow>
          u ''mock server exited with status '' @ str_of_int status @ u '' while the runner was active''
      | MockStatus status \<Rightarrow> u ''mock server exited with status '' @ str_of_int status @ u '' when stopped''
      | Failed f \<Rightarrow> failed f)"

section \<open>The report\<close>

text \<open>A text written to standard output or to standard error; \<open>print\<close> ends it with a line break.\<close>

datatype shown = Out ustr | Err ustr

definition out_line :: "ustr \<Rightarrow> shown" where
  "out_line s = Out (s @ [10])"

definition err_line :: "ustr \<Rightarrow> shown" where
  "err_line s = Err (s @ [10])"

definition about :: "ustr \<Rightarrow> ustr \<Rightarrow> ustr" where
  "about language what = u ''conformance: '' @ language @ u '': '' @ what"

definition warning_text :: ustr where
  "warning_text = u ''warning: runner left processes running; they were stopped''"

text \<open>One language: its group with what \<open>run_language\<close> shows, then its warnings and problems.\<close>

definition language_report :: "(problem \<Rightarrow> ustr) \<Rightarrow> bool \<Rightarrow> ustr \<Rightarrow> ustr list \<Rightarrow> ustr option \<Rightarrow> tally \<Rightarrow> shown list" where
  "language_report describe github language output stderr t =
     [out_line (group_line github (u ''conformance '' @ language))] @ map (\<lambda>line. Out (redacted line)) output @
     (case shown_diagnostics (problems t) stderr of None \<Rightarrow> [] | Some s \<Rightarrow> [err_line s]) @
     map out_line (end_group_lines github) @ replicate (warnings t) (err_line (about language warning_text)) @
     map (\<lambda>p. err_line (about language (describe p))) (problems t)"

definition summary_line :: "(problem \<Rightarrow> ustr) \<Rightarrow> ustr \<times> ustr \<times> problem list \<Rightarrow> ustr" where
  "summary_line describe entry =
     (case entry of (language, counts, ps) \<Rightarrow>
        if ps \<noteq> [] then language @ u '': FAILED ('' @ counts @ u ''; '' @ join_with (u ''; '') (map describe ps) @ u '')''
        else language @ u '': ok ('' @ counts @ u '')'')"

definition summary_report :: "(problem \<Rightarrow> ustr) \<Rightarrow> (ustr \<times> ustr \<times> problem list) list \<Rightarrow> shown list" where
  "summary_report describe summary =
     [out_line (10 # u ''Conformance summary'')] @ map (\<lambda>e. out_line (u ''  '' @ summary_line describe e)) summary"

section \<open>What the report tells\<close>

lemma starts_with_append [simp]: "starts_with (p @ q) (p @ s) \<longleftrightarrow> starts_with q s"
  by (simp add: starts_with_prefix)

text \<open>A line of the summary says ok exactly when its language has no problem.\<close>

lemma summary_line_ok: "starts_with (fst e @ u '': ok ('') (summary_line describe e) \<longleftrightarrow> snd (snd e) = []"
  by (cases e) (auto simp: summary_line_def starts_with_def u_def)

text \<open>
  The redaction works on the text of a line, the records are read from their JSON: an identifier written with an
  escape goes through the first and is the token after the second, so that a problem can show it.
\<close>

definition escaped_token_line :: ustr where
  "escaped_token_line = u ''{\"id\":\"'' @ [92] @ u ''u0063onformance-token\",\"status\":1}''"

lemma escaped_token_kept: "log_line escaped_token_line = escaped_token_line"
  by code_simp

lemma escaped_token_read: "parse_records 10 [escaped_token_line] = Inr [[(u ''id'', JStr ACCESS_TOKEN), (u ''status'', JInt 1)]]"
  by code_simp

lemma problem_may_show_token:
  "\<exists>line records p. parse_records 10 [log_line line] = Inr records \<and>
     p \<in> set (problems (account (u ''go'') [(u ''case'', [])] records no_tally)) \<and>
     \<not> occurs_in ACCESS_TOKEN (log_line line) \<and> occurs_in ACCESS_TOKEN (problem_text show_json failed p)"
proof -
  let ?records = "[[(u ''id'', JStr ACCESS_TOKEN), (u ''status'', JInt 1)]]"
  have "UnknownFixture ACCESS_TOKEN \<in> set (problems (account (u ''go'') [(u ''case'', [])] ?records no_tally))"
    by code_simp
  moreover have "occurs_in ACCESS_TOKEN (problem_text show_json failed (UnknownFixture ACCESS_TOKEN))"
    by (simp add: problem_text_def occurs_in_sublist)
  moreover have "\<not> occurs_in ACCESS_TOKEN escaped_token_line"
    by code_simp
  ultimately show ?thesis
    using escaped_token_read escaped_token_kept by (intro exI [of _ escaped_token_line] exI [of _ ?records] exI conjI) simp_all
qed

end
