(* ===== verification/Interrupts.thy ===== *)
theory Interrupts
  imports Conformance
begin

text \<open>
  \<open>scripts/conformance.py\<close> on a signal: the handler \<open>interrupted\<close> of \<open>main\<close> and the process groups it asks
  about. What the system answers to a signal, what \<open>ps\<close> prints and the clock are arguments, one \<open>poll\<close> for
  every round of the wait; \<open>None\<close> is a wait that goes on after the given rounds.
\<close>

section \<open>Process groups\<close>

datatype answer = Delivered | NoProcess | NotPermitted

text \<open>A signal is sent, and two refusals are ignored; the signal is listed when it was delivered.\<close>

datatype deed = Sent nat signal | RemovedWork | Exited nat

definition signal_target :: "nat \<Rightarrow> signal \<Rightarrow> answer \<Rightarrow> deed list" where
  "signal_target pid signum answer = (case answer of Delivered \<Rightarrow> [Sent pid signum] | NoProcess \<Rightarrow> [] | NotPermitted \<Rightarrow> [])"

definition group_alive :: "answer \<Rightarrow> bool" where
  "group_alive answer = (case answer of NoProcess \<Rightarrow> False | NotPermitted \<Rightarrow> True | Delivered \<Rightarrow> True)"

text \<open>\<open>str.split()\<close> at white space.\<close>

function py_split :: "ustr \<Rightarrow> ustr list" where
  "py_split s =
     (let rest = dropWhile is_space s
      in if rest = [] then [] else takeWhile (\<lambda>c. \<not> is_space c) rest # py_split (dropWhile (\<lambda>c. \<not> is_space c) rest))"
  by pat_completeness auto
termination
proof (relation "measure length")
  fix s rest :: ustr
  assume rest: "rest = dropWhile is_space s" "rest \<noteq> []"
  then have "\<not> is_space (hd rest)" using hd_dropWhile by blast
  with rest(2) have "length (dropWhile (\<lambda>c. \<not> is_space c) rest) < length rest"
    by (cases rest) (auto simp: less_Suc_eq_le length_dropWhile_le)
  also have "length rest \<le> length s" unfolding rest(1) by (rule length_dropWhile_le)
  finally show "(dropWhile (\<lambda>c. \<not> is_space c) rest, s) \<in> measure length" by simp
qed simp

declare py_split.simps [simp del]

definition live_line :: "nat \<Rightarrow> ustr \<Rightarrow> bool" where
  "live_line pgid line =
     (case py_split line of
        [shown, state] \<Rightarrow> shown = str_of_nat pgid \<and> \<not> starts_with (u ''Z'') state
      | _ \<Rightarrow> False)"

definition group_has_live_members :: "answer \<Rightarrow> ustr \<Rightarrow> nat \<Rightarrow> bool" where
  "group_has_live_members answer listing pgid \<longleftrightarrow> group_alive answer \<and> list_ex (live_line pgid) (splitlines listing)"

section \<open>The handler\<close>

record poll =
  poll_answer :: "nat \<Rightarrow> answer"
  poll_listing :: "nat \<Rightarrow> ustr"
  poll_time :: rat

definition still_live :: "nat list \<Rightarrow> poll \<Rightarrow> bool" where
  "still_live pgids p \<longleftrightarrow> list_ex (\<lambda>g. group_has_live_members (poll_answer p g) (poll_listing p g) g) pgids"

primrec await_groups :: "rat \<Rightarrow> nat list \<Rightarrow> poll list \<Rightarrow> poll option" where
  "await_groups deadline pgids [] = None"
| "await_groups deadline pgids (p # ps) =
     (if still_live pgids p \<and> poll_time p < deadline then await_groups deadline pgids ps else Some p)"

definition interrupted :: "nat list \<Rightarrow> (nat \<Rightarrow> answer) \<Rightarrow> rat \<Rightarrow> poll list \<Rightarrow> (nat \<Rightarrow> answer) \<Rightarrow> deed list option" where
  "interrupted pgids on_term deadline polls on_kill =
     map_option (\<lambda>_.
       concat (map (\<lambda>g. signal_target g Term (on_term g)) pgids) @
       concat (map (\<lambda>g. signal_target g Kill (on_kill g)) pgids) @ [RemovedWork, Exited 130])
       (await_groups deadline pgids polls)"

section \<open>What the handler does\<close>

lemma await_groups_ends:
  "p \<in> set polls \<Longrightarrow> deadline \<le> poll_time p \<Longrightarrow> \<exists>q. await_groups deadline pgids polls = Some q"
  by (induction polls) auto

lemma await_groups_reason:
  "await_groups deadline pgids polls = Some p \<Longrightarrow> p \<in> set polls \<and> (still_live pgids p \<longrightarrow> deadline \<le> poll_time p)"
  by (induction polls) (auto split: if_splits)

lemma signal_target_iff: "Sent pid signum \<in> set (signal_target pid' signum' answer) \<longleftrightarrow>
    pid' = pid \<and> signum' = signum \<and> answer = Delivered"
  by (cases answer) (auto simp: signal_target_def)

text \<open>Once the clock has reached the deadline, the handler has ended with status 130, after it removed its files and sent both
  signals to every group that took them.\<close>

lemma interrupt_ends:
  assumes "p \<in> set polls" "deadline \<le> poll_time p"
  shows "\<exists>deeds. interrupted pgids on_term deadline polls on_kill = Some deeds \<and> last deeds = Exited 130 \<and> RemovedWork \<in> set deeds \<and>
    list_all (\<lambda>g. (on_term g = Delivered \<longrightarrow> Sent g Term \<in> set deeds) \<and> (on_kill g = Delivered \<longrightarrow> Sent g Kill \<in> set deeds)) pgids"
  using await_groups_ends [OF assms, of pgids]
  by (auto simp: interrupted_def list_all_iff signal_target_iff)

section \<open>Reading the listing\<close>

text \<open>A listing of \<open>ps -o pgid=,stat=\<close>: the group, padded on the left, and the state.\<close>

definition listing_line :: "nat \<Rightarrow> nat \<times> ustr \<Rightarrow> ustr" where
  "listing_line w row = replicate (w - length (str_of_nat (fst row))) 32 @ str_of_nat (fst row) @ [32] @ snd row"

definition listing :: "nat \<Rightarrow> (nat \<times> ustr) list \<Rightarrow> ustr" where
  "listing w rows = concat (map (\<lambda>row. listing_line w row @ [10]) rows)"

definition state_ok :: "ustr \<Rightarrow> bool" where
  "state_ok state \<longleftrightarrow> state \<noteq> [] \<and> list_all (\<lambda>c. 33 \<le> c \<and> c < 127) state"

lemma visible_plain: "33 \<le> c \<and> c < 127 \<Longrightarrow> \<not> is_space c \<and> \<not> line_break c"
  by (auto simp: is_space_def white_space_def line_break_def)

lemma digits_visible: "list_all (\<lambda>c. 33 \<le> c \<and> c < 127) (str_of_nat n)"
  using str_of_nat_digits [of n] by (auto simp: list_all_iff is_digit_ascii_def)

lemma takeWhile_word:
  "list_all (\<lambda>c. 33 \<le> c \<and> c < 127) w \<Longrightarrow> r = [] \<or> is_space (hd r) \<Longrightarrow>
    takeWhile (\<lambda>c. \<not> is_space c) (w @ r) = w \<and> dropWhile (\<lambda>c. \<not> is_space c) (w @ r) = r"
  using visible_plain by (cases r) (auto simp: list_all_iff takeWhile_append2 dropWhile_append2 takeWhile_eq_all_conv)

lemma space_is_space: "is_space 32"
  by (simp add: is_space_def white_space_def)

lemma py_split_word:
  assumes "list_all (\<lambda>c. 33 \<le> c \<and> c < 127) w" "w \<noteq> []" "r = [] \<or> is_space (hd r)"
  shows "py_split (replicate k 32 @ w @ r) = w # py_split r"
proof -
  have "dropWhile is_space (replicate k 32 @ t) = dropWhile is_space t" for t
    using space_is_space by (induction k) simp_all
  moreover have "dropWhile is_space (w @ r) = w @ r" using assms(1,2) visible_plain by (cases w) auto
  ultimately have "dropWhile is_space (replicate k 32 @ w @ r) = w @ r" by simp
  then show ?thesis using takeWhile_word [OF assms(1,3)] assms(2) by (simp add: py_split.simps [of "replicate k 32 @ w @ r"])
qed

lemma py_split_row: "state_ok state \<Longrightarrow> py_split (listing_line w (g, state)) = [str_of_nat g, state]"
proof -
  assume s: "state_ok state"
  have "py_split (listing_line w (g, state)) = str_of_nat g # py_split ([32] @ state)"
    unfolding listing_line_def fst_conv snd_conv using space_is_space by (intro py_split_word digits_visible) simp_all
  also have "py_split ([32] @ state) = [state]"
    using py_split_word [of state "[]" 1] s by (simp add: state_ok_def py_split.simps [of "[]"])
  finally show ?thesis .
qed

lemma splitlines_line: "list_all (\<lambda>c. \<not> line_break c) line \<Longrightarrow> splitlines (line @ 10 # rest) = line # splitlines rest"
proof -
  assume "list_all (\<lambda>c. \<not> line_break c) line"
  then have "takeWhile (\<lambda>c. \<not> line_break c) (line @ 10 # rest) = line" "dropWhile (\<lambda>c. \<not> line_break c) (line @ 10 # rest) = 10 # rest"
    by (simp_all add: list_all_iff takeWhile_append2 dropWhile_append2 line_break_def)
  then show ?thesis by (simp add: splitlines.simps [of "line @ 10 # rest"] after_break_def)
qed

lemma splitlines_listing:
  "list_all (\<lambda>row. state_ok (snd row)) rows \<Longrightarrow> splitlines (listing w rows) = map (listing_line w) rows"
proof (induction rows)
  case Nil
  then show ?case by (simp add: listing_def splitlines.simps)
next
  case (Cons row rows)
  have "list_all (\<lambda>c. \<not> line_break c) (listing_line w row)"
    using Cons.prems digits_visible [of "fst row"] visible_plain
    by (auto simp: listing_line_def list_all_iff state_ok_def line_break_def)
  then show ?case using Cons splitlines_line by (simp add: listing_def)
qed

lemma str_of_nat_eq: "str_of_nat a = str_of_nat b \<longleftrightarrow> a = b"
  by (metis nat_of_digits_str_of_nat)

text \<open>The group has a live member exactly when the table has a row of it whose state does not begin with Z.\<close>

lemma live_members_read:
  assumes "list_all (\<lambda>row. state_ok (snd row)) rows"
  shows "group_has_live_members answer (listing w rows) g \<longleftrightarrow>
    answer \<noteq> NoProcess \<and> (\<exists>state. (g, state) \<in> set rows \<and> hd state \<noteq> 90)"
proof -
  have "live_line g (listing_line w (p, state)) \<longleftrightarrow> p = g \<and> hd state \<noteq> 90" if "(p, state) \<in> set rows" for p state
  proof -
    have "state_ok state" using assms that by (auto simp: list_all_iff)
    then show ?thesis
      by (cases state) (auto simp: live_line_def py_split_row str_of_nat_eq state_ok_def starts_with_def u_def)
  qed
  moreover have "group_alive answer \<longleftrightarrow> answer \<noteq> NoProcess" by (cases answer) (simp_all add: group_alive_def)
  ultimately show ?thesis
    unfolding group_has_live_members_def splitlines_listing [OF assms] by (force simp: list_ex_iff)
qed

end
