(* ===== verification/Lifecycle.thy ===== *)
theory Lifecycle
  imports Interrupts
begin

text \<open>
  \<open>scripts/conformance.py\<close>, its processes: what \<open>main\<close>, \<open>run_language\<close> and \<open>run_runner\<close> start, list in
  \<open>active\<close>, wait for, stop and remove, one step for each point between which a signal can be handled. The
  processes live on their own: any may end at any time, and those of a runner may start others in their
  group. The mock server starts none (\<open>conformance/mock-ingest-server\<close>), and no process leaves its group.
\<close>

section \<open>The state\<close>

datatype role = BuilderRole | MockRole | RunnerRole

text \<open>A process: what started it, its group and its identifier.\<close>

type_synonym proc = "role \<times> nat \<times> nat"

text \<open>How control leaves a \<open>try\<close>: normally, or with an exception; the second names a runner whose end was not awaited.\<close>

datatype way = Fine | Raising "nat option"

text \<open>Where the main thread is, with the languages that are left and the identifiers of the processes it knows.\<close>

datatype stage =
    Started "ustr list" | WorkMade "ustr list" | Guarded "ustr list"
  | Building "ustr list" nat | Choosing "ustr list"
  | MockStarted "ustr list" nat | AwaitingMock "ustr list" nat
  | RunnerStarted "ustr list" nat nat | RunnerListed "ustr list" nat nat | RunnerAwaited "ustr list" nat nat
  | RunnerEnded "ustr list" nat nat | RunnerSwept "ustr list" nat nat
  | Accounting "ustr list" nat | StoppingMock "ustr list" nat way | MockStopped "ustr list" nat way
  | Cleaning way | Ended outcome
and outcome = Returned | Propagated "nat option" | Interrupted nat stage | KilledEarly stage

record run =
  stage :: stage
  live :: "proc set"
  active :: "(ustr, nat) pydict"
  work :: bool
  handling :: bool

definition start_run :: "ustr list \<Rightarrow> run" where
  "start_run selected = \<lparr>stage = Started selected, live = {}, active = [], work = False, handling = False\<rparr>"

text \<open>The system gives a new process an identifier that no process and no group has.\<close>

definition new_pid :: "nat \<Rightarrow> nat \<Rightarrow> run \<Rightarrow> bool" where
  "new_pid own p s \<longleftrightarrow> p \<noteq> own \<and> (\<forall>(role, g, q)\<in>live s. g \<noteq> p \<and> q \<noteq> p)"

definition group_members :: "nat \<Rightarrow> run \<Rightarrow> proc set" where
  "group_members g s = {(role, h, q) \<in> live s. h = g}"

definition mock_name :: ustr where "mock_name = u ''mock''"
definition runner_name :: ustr where "runner_name = u ''runner''"

section \<open>The steps of the script\<close>

text \<open>
  \<open>run_runner\<close>: start the runner in a session of its own, list it, start the thread that reads its output,
  wait for it, stop what it left in its group, join the thread and strike it from the list. Starting the
  process or the thread may raise.
\<close>

inductive runner_step :: "nat \<Rightarrow> run \<Rightarrow> run \<Rightarrow> bool" for own where
  runner_start: "stage s = AwaitingMock ls m \<Longrightarrow> new_pid own r s \<Longrightarrow>
     runner_step own s (s\<lparr>stage := RunnerStarted ls m r, live := insert (RunnerRole, r, r) (live s)\<rparr>)"
| runner_start_fails: "stage s = AwaitingMock ls m \<Longrightarrow>
     runner_step own s (s\<lparr>stage := StoppingMock ls m (Raising None)\<rparr>)"
| runner_listed: "stage s = RunnerStarted ls m r \<Longrightarrow>
     runner_step own s (s\<lparr>stage := RunnerListed ls m r, active := dict_set runner_name r (active s)\<rparr>)"
| reader_started: "stage s = RunnerListed ls m r \<Longrightarrow>
     runner_step own s (s\<lparr>stage := RunnerAwaited ls m r\<rparr>)"
| reader_fails: "stage s = RunnerListed ls m r \<Longrightarrow>
     runner_step own s (s\<lparr>stage := StoppingMock ls m (Raising (Some r))\<rparr>)"
| runner_waited: "stage s = RunnerAwaited ls m r \<Longrightarrow> (RunnerRole, r, r) \<notin> live s \<Longrightarrow>
     runner_step own s (s\<lparr>stage := RunnerEnded ls m r\<rparr>)"
| group_gone: "stage s = RunnerEnded ls m r \<Longrightarrow> group_members r s = {} \<Longrightarrow>
     runner_step own s (s\<lparr>stage := RunnerSwept ls m r\<rparr>)"
| group_killed: "stage s = RunnerEnded ls m r \<Longrightarrow> group_members r s \<noteq> {} \<Longrightarrow>
     runner_step own s (s\<lparr>stage := RunnerSwept ls m r, live := live s - group_members r s\<rparr>)"
| runner_struck: "stage s = RunnerSwept ls m r \<Longrightarrow>
     runner_step own s (s\<lparr>stage := Accounting ls m, active := snd (dict_pop runner_name (active s))\<rparr>)"

text \<open>
  \<open>run_language\<close>: make its directory and files and start the server, list it, wait until it answers, run the
  runner and account for its results, all of which may raise; then stop the server itself (not its group), strike
  it, and show its messages, which may raise again. A \<open>Failure\<close> is handled, any other exception passes.
\<close>

inductive language_step :: "nat \<Rightarrow> run \<Rightarrow> run \<Rightarrow> bool" for own where
  mock_start: "stage s = Choosing (l # ls) \<Longrightarrow> new_pid own m s \<Longrightarrow>
     language_step own s (s\<lparr>stage := MockStarted ls m, live := insert (MockRole, m, m) (live s)\<rparr>)"
| mock_start_fails: "stage s = Choosing (l # ls) \<Longrightarrow>
     language_step own s (s\<lparr>stage := Cleaning (Raising None)\<rparr>)"
| mock_listed: "stage s = MockStarted ls m \<Longrightarrow>
     language_step own s (s\<lparr>stage := AwaitingMock ls m, active := dict_set mock_name m (active s)\<rparr>)"
| mock_failed: "stage s = AwaitingMock ls m \<Longrightarrow> way = Fine \<or> way = Raising None \<Longrightarrow>
     language_step own s (s\<lparr>stage := StoppingMock ls m way\<rparr>)"
| accounted: "stage s = Accounting ls m \<Longrightarrow> way = Fine \<or> way = Raising None \<Longrightarrow>
     language_step own s (s\<lparr>stage := StoppingMock ls m way\<rparr>)"
| mock_stopped: "stage s = StoppingMock ls m way \<Longrightarrow>
     language_step own s (s\<lparr>stage := MockStopped ls m way, live := live s - {(MockRole, m, m)}\<rparr>)"
| mock_struck: "stage s = MockStopped ls m Fine \<Longrightarrow>
     language_step own s (s\<lparr>stage := Choosing ls, active := snd (dict_pop mock_name (active s))\<rparr>)"
| mock_struck_raising: "stage s = MockStopped ls m way \<Longrightarrow>
     language_step own s (s\<lparr>stage := Cleaning (case way of Fine \<Rightarrow> Raising None | Raising left \<Rightarrow> Raising left),
       active := snd (dict_pop mock_name (active s))\<rparr>)"

text \<open>
  \<open>main\<close>: make the working directory, install the handlers, build the server unless the environment names a
  binary, run the selected languages, and remove the working directory at the end in any case.
\<close>

inductive main_step :: "nat \<Rightarrow> run \<Rightarrow> run \<Rightarrow> bool" for own where
  work_made: "stage s = Started ls \<Longrightarrow> main_step own s (s\<lparr>stage := WorkMade ls, work := True\<rparr>)"
| handlers_installed: "stage s = WorkMade ls \<Longrightarrow> main_step own s (s\<lparr>stage := Guarded ls, handling := True\<rparr>)"
| mock_named: "stage s = Guarded ls \<Longrightarrow> main_step own s (s\<lparr>stage := Choosing ls\<rparr>)"
| mock_unusable: "stage s = Guarded ls \<Longrightarrow> main_step own s (s\<lparr>stage := Cleaning (Raising None)\<rparr>)"
| build_started: "stage s = Guarded ls \<Longrightarrow> new_pid own b s \<Longrightarrow>
     main_step own s (s\<lparr>stage := Building ls b, live := insert (BuilderRole, own, b) (live s)\<rparr>)"
| build_ended: "stage s = Building ls b \<Longrightarrow> (BuilderRole, own, b) \<notin> live s \<Longrightarrow>
     main_step own s (s\<lparr>stage := Choosing ls\<rparr>)"
| build_failed: "stage s = Building ls b \<Longrightarrow> (BuilderRole, own, b) \<notin> live s \<Longrightarrow>
     main_step own s (s\<lparr>stage := Cleaning (Raising None)\<rparr>)"
| all_run: "stage s = Choosing [] \<Longrightarrow> main_step own s (s\<lparr>stage := Cleaning Fine\<rparr>)"
| output_fails: "stage s = Choosing ls \<Longrightarrow> main_step own s (s\<lparr>stage := Cleaning (Raising None)\<rparr>)"
| cleaned: "stage s = Cleaning way \<Longrightarrow>
     main_step own s (s\<lparr>stage := Ended (case way of Fine \<Rightarrow> Returned | Raising left \<Rightarrow> Propagated left), work := False\<rparr>)"

section \<open>Signals\<close>

definition has_ended :: "run \<Rightarrow> bool" where
  "has_ended s \<longleftrightarrow> (case stage s of Ended how \<Rightarrow> True | _ \<Rightarrow> False)"

text \<open>What the deeds of the handler do; a group that gets \<open>SIGTERM\<close> may live on.\<close>

definition carry_out :: "deed \<Rightarrow> run \<Rightarrow> run" where
  "carry_out d s =
     (case d of
        Sent g signum \<Rightarrow> (case signum of Term \<Rightarrow> s | Kill \<Rightarrow> s\<lparr>live := live s - group_members g s\<rparr>)
      | RemovedWork \<Rightarrow> s\<lparr>work := False\<rparr>
      | Exited status \<Rightarrow> s\<lparr>stage := Ended (Interrupted status (stage s))\<rparr>)"

text \<open>A signal to a group that has processes is delivered: they run as the same user.\<close>

definition delivers :: "run \<Rightarrow> (nat \<Rightarrow> answer) \<Rightarrow> bool" where
  "delivers s answers \<longleftrightarrow> (\<forall>g. group_members g s \<noteq> {} \<longrightarrow> answers g = Delivered)"

inductive signal_step :: "run \<Rightarrow> run \<Rightarrow> bool" where
  handled: "handling s \<Longrightarrow> \<not> has_ended s \<Longrightarrow>
     interrupted (map snd (active s)) on_term deadline polls on_kill = Some deeds \<Longrightarrow> delivers s on_kill \<Longrightarrow>
     signal_step s (fold carry_out deeds s)"
| unhandled: "\<not> handling s \<Longrightarrow> \<not> has_ended s \<Longrightarrow>
     signal_step s (s\<lparr>stage := Ended (KilledEarly (stage s))\<rparr>)"

section \<open>Runs\<close>

inductive run_step :: "nat \<Rightarrow> run \<Rightarrow> run \<Rightarrow> bool" for own where
  in_main: "main_step own s s' \<Longrightarrow> run_step own s s'"
| in_language: "language_step own s s' \<Longrightarrow> run_step own s s'"
| in_runner: "runner_step own s s' \<Longrightarrow> run_step own s s'"
| on_signal: "signal_step s s' \<Longrightarrow> run_step own s s'"
| process_ends: "run_step own s (s\<lparr>live := live s - {p}\<rparr>)"
| process_forks: "(RunnerRole, g, p) \<in> live s \<Longrightarrow> new_pid own q s \<Longrightarrow>
     run_step own s (s\<lparr>live := insert (RunnerRole, g, q) (live s)\<rparr>)"

inductive reachable_run :: "nat \<Rightarrow> ustr list \<Rightarrow> run \<Rightarrow> bool" for own selected where
  run_start: "reachable_run own selected (start_run selected)"
| run_more: "reachable_run own selected s \<Longrightarrow> run_step own s s' \<Longrightarrow> reachable_run own selected s'"

section \<open>The invariant\<close>

text \<open>At every stage: the list \<open>active\<close>, and the processes that may be alive.\<close>

fun left_listed :: "way \<Rightarrow> (ustr, nat) pydict" where
  "left_listed (Raising (Some r)) = [(runner_name, r)]"
| "left_listed _ = []"

fun listed :: "stage \<Rightarrow> (ustr, nat) pydict" where
  "listed (AwaitingMock ls m) = [(mock_name, m)]"
| "listed (RunnerStarted ls m r) = [(mock_name, m)]"
| "listed (RunnerListed ls m r) = [(mock_name, m), (runner_name, r)]"
| "listed (RunnerAwaited ls m r) = [(mock_name, m), (runner_name, r)]"
| "listed (RunnerEnded ls m r) = [(mock_name, m), (runner_name, r)]"
| "listed (RunnerSwept ls m r) = [(mock_name, m), (runner_name, r)]"
| "listed (Accounting ls m) = [(mock_name, m)]"
| "listed (StoppingMock ls m way) = (mock_name, m) # left_listed way"
| "listed (MockStopped ls m way) = (mock_name, m) # left_listed way"
| "listed (Cleaning way) = left_listed way"
| "listed (Ended (Propagated left)) = left_listed (Raising left)"
| "listed (Ended (Interrupted status here)) = listed here"
| "listed _ = []"

definition group_of :: "nat \<Rightarrow> proc set" where
  "group_of r = {(role, g, q). role = RunnerRole \<and> g = r}"

fun left_alive :: "way \<Rightarrow> proc set" where
  "left_alive (Raising (Some r)) = group_of r"
| "left_alive _ = {}"

text \<open>The processes that are started and not yet listed: the server or the runner in between, and the compiler.\<close>

fun unlisted :: "nat \<Rightarrow> stage \<Rightarrow> proc set" where
  "unlisted own (Building ls b) = {(BuilderRole, own, b)}"
| "unlisted own (MockStarted ls m) = {(MockRole, m, m)}"
| "unlisted own (RunnerStarted ls m r) = group_of r"
| "unlisted own _ = {}"

fun may_live :: "nat \<Rightarrow> stage \<Rightarrow> proc set" where
  "may_live own (Building ls b) = {(BuilderRole, own, b)}"
| "may_live own (MockStarted ls m) = {(MockRole, m, m)}"
| "may_live own (AwaitingMock ls m) = {(MockRole, m, m)}"
| "may_live own (RunnerStarted ls m r) = insert (MockRole, m, m) (group_of r)"
| "may_live own (RunnerListed ls m r) = insert (MockRole, m, m) (group_of r)"
| "may_live own (RunnerAwaited ls m r) = insert (MockRole, m, m) (group_of r)"
| "may_live own (RunnerEnded ls m r) = insert (MockRole, m, m) (group_of r)"
| "may_live own (RunnerSwept ls m r) = {(MockRole, m, m)}"
| "may_live own (Accounting ls m) = {(MockRole, m, m)}"
| "may_live own (StoppingMock ls m way) = insert (MockRole, m, m) (left_alive way)"
| "may_live own (MockStopped ls m way) = left_alive way"
| "may_live own (Cleaning way) = left_alive way"
| "may_live own (Ended (Propagated left)) = left_alive (Raising left)"
| "may_live own (Ended (Interrupted status here)) = unlisted own here"
| "may_live own _ = {}"

fun has_work :: "stage \<Rightarrow> bool" where
  "has_work (Started ls) = False"
| "has_work (Ended (KilledEarly here)) = has_work here"
| "has_work (Ended how) = False"
| "has_work _ = True"

fun is_handling :: "stage \<Rightarrow> bool" where
  "is_handling (Started ls) = False"
| "is_handling (WorkMade ls) = False"
| "is_handling (Ended (KilledEarly here)) = False"
| "is_handling _ = True"

text \<open>A signal ends a run with status 130 once the handlers are installed, and as the system does it before.\<close>

fun sound_end :: "stage \<Rightarrow> bool" where
  "sound_end (Ended (Interrupted status here)) \<longleftrightarrow> status = 130 \<and> is_handling here \<and> (\<forall>how. here \<noteq> Ended how)"
| "sound_end (Ended (KilledEarly here)) \<longleftrightarrow> (\<exists>ls. here = Started ls \<or> here = WorkMade ls)"
| "sound_end _ \<longleftrightarrow> True"

definition run_ok :: "nat \<Rightarrow> run \<Rightarrow> bool" where
  "run_ok own s \<longleftrightarrow> active s = listed (stage s) \<and> live s \<subseteq> may_live own (stage s) \<and>
     work s = has_work (stage s) \<and> handling s = is_handling (stage s) \<and> sound_end (stage s)"

lemma names_differ: "mock_name \<noteq> runner_name" "runner_name \<noteq> mock_name"
  by (simp_all add: mock_name_def runner_name_def u_def)

lemma group_of_iff [simp]: "x \<in> group_of r \<longleftrightarrow> fst x = RunnerRole \<and> fst (snd x) = r"
  by (cases x) (auto simp: group_of_def)

lemma group_members_iff [simp]: "x \<in> group_members g s \<longleftrightarrow> x \<in> live s \<and> fst (snd x) = g"
  by (cases x) (auto simp: group_members_def)

lemma runner_step_ok: "runner_step own s s' \<Longrightarrow> run_ok own s \<Longrightarrow> run_ok own s'"
proof (induction rule: runner_step.induct)
  case (group_gone s ls m r)
  then have "\<forall>x\<in>live s. fst (snd x) \<noteq> r" using group_members_iff [of _ r s] by blast
  with group_gone show ?case by (fastforce simp: run_ok_def)
qed (use names_differ in \<open>auto simp: run_ok_def dict_pop_def\<close>)

lemma way_cases: "way = Fine \<or> way = Raising None \<or> (\<exists>r. way = Raising (Some r))"
  by (cases way) (auto split: option.splits)

lemma language_step_ok: "language_step own s s' \<Longrightarrow> run_ok own s \<Longrightarrow> run_ok own s'"
proof (induction rule: language_step.induct)
  case (mock_struck_raising s ls m way)
  then show ?case using names_differ way_cases [of way] by (auto simp: run_ok_def dict_pop_def)
qed (use names_differ in \<open>auto simp: run_ok_def dict_pop_def\<close>)

lemma main_step_ok: "main_step own s s' \<Longrightarrow> run_ok own s \<Longrightarrow> run_ok own s'"
proof (induction rule: main_step.induct)
  case (cleaned s way)
  then show ?case using way_cases [of way] by (auto simp: run_ok_def)
qed (auto simp: run_ok_def)

text \<open>What the handler leaves: no process of a listed group, and no working directory.\<close>

lemma carry_terms: "fold carry_out (concat (map (\<lambda>g. signal_target g Term (answers g)) gs)) s = s"
  by (induction gs) (auto simp: signal_target_def carry_out_def split: answer.split)

lemma delivers_mono: "delivers s answers \<Longrightarrow> live s' \<subseteq> live s \<Longrightarrow> delivers s' answers"
  by (fastforce simp: delivers_def)

lemma carry_kill: "delivers s answers \<Longrightarrow>
    fold carry_out (signal_target g Kill (answers g)) s = s\<lparr>live := {x \<in> live s. fst (snd x) \<noteq> g}\<rparr>"
proof -
  assume d: "delivers s answers"
  have l: "live s - group_members g s = {x \<in> live s. fst (snd x) \<noteq> g}" by auto
  show ?thesis
  proof (cases "answers g = Delivered")
    case True
    then show ?thesis by (simp add: signal_target_def carry_out_def l)
  next
    case False
    with d have "group_members g s = {}" by (auto simp: delivers_def)
    with l have "{x \<in> live s. fst (snd x) \<noteq> g} = live s" by simp
    then have "s\<lparr>live := {x \<in> live s. fst (snd x) \<noteq> g}\<rparr> = s" by simp
    with False show ?thesis by (cases "answers g") (simp_all add: signal_target_def)
  qed
qed

lemma carry_kills: "delivers s answers \<Longrightarrow>
    fold carry_out (concat (map (\<lambda>g. signal_target g Kill (answers g)) gs)) s =
      s\<lparr>live := {x \<in> live s. fst (snd x) \<notin> set gs}\<rparr>"
proof (induction gs arbitrary: s)
  case (Cons g gs)
  let ?s1 = "s\<lparr>live := {x \<in> live s. fst (snd x) \<noteq> g}\<rparr>"
  have "delivers ?s1 answers" using Cons.prems by (rule delivers_mono) auto
  from Cons.IH [OF this] show ?case
    by (auto simp: carry_kill [OF Cons.prems] intro: arg_cong [where f = "\<lambda>l. s\<lparr>live := l\<rparr>"])
qed simp

definition interrupted_run :: "run \<Rightarrow> run" where
  "interrupted_run s =
     s\<lparr>live := {x \<in> live s. fst (snd x) \<notin> snd ` set (active s)}, work := False,
       stage := Ended (Interrupted 130 (stage s))\<rparr>"

lemma handler_effect:
  assumes "interrupted (map snd (active s)) on_term deadline polls on_kill = Some deeds" "delivers s on_kill"
  shows "fold carry_out deeds s = interrupted_run s"
proof -
  let ?gs = "map snd (active s)"
  from assms(1) have "deeds = concat (map (\<lambda>g. signal_target g Term (on_term g)) ?gs) @
      concat (map (\<lambda>g. signal_target g Kill (on_kill g)) ?gs) @ [RemovedWork, Exited 130]"
    by (auto simp: interrupted_def simp del: map_map)
  then have "fold carry_out deeds s =
      fold carry_out [RemovedWork, Exited 130] (s\<lparr>live := {x \<in> live s. fst (snd x) \<notin> set ?gs}\<rparr>)"
    by (simp only: fold_append comp_apply carry_terms carry_kills [OF assms(2)])
  then show ?thesis by (simp add: carry_out_def interrupted_run_def)
qed

lemma left_alive_listed: "x \<in> left_alive way \<Longrightarrow> fst (snd x) \<in> snd ` set (left_listed way)"
  by (cases way rule: left_alive.cases) auto

lemma listed_or_unlisted:
  "x \<in> may_live own here \<Longrightarrow> is_handling here \<Longrightarrow> (\<forall>how. here \<noteq> Ended how) \<Longrightarrow>
    x \<in> unlisted own here \<or> fst (snd x) \<in> snd ` set (listed here)"
  by (induction own here rule: may_live.induct) (auto dest: left_alive_listed)

lemma signal_step_ok: "signal_step s s' \<Longrightarrow> run_ok own s \<Longrightarrow> run_ok own s'"
proof (induction rule: signal_step.induct)
  case (handled s on_term deadline polls on_kill deeds)
  from handled(1,2,5) have here: "is_handling (stage s)" "\<forall>how. stage s \<noteq> Ended how"
    by (auto simp: run_ok_def has_ended_def)
  have "live (interrupted_run s) \<subseteq> unlisted own (stage s)"
    using handled(5) listed_or_unlisted [OF _ here] by (fastforce simp: interrupted_run_def run_ok_def)
  with handled(1,5) here(2) show ?case
    unfolding handler_effect [OF handled(3,4)] by (simp add: run_ok_def interrupted_run_def)
next
  case (unhandled s)
  then show ?case by (cases "stage s") (auto simp: run_ok_def has_ended_def)
qed

lemma fork_allowed: "(RunnerRole, g, p) \<in> may_live own here \<Longrightarrow> (RunnerRole, g, q) \<in> may_live own here"
proof -
  have l: "(RunnerRole, g, p) \<in> left_alive way \<Longrightarrow> (RunnerRole, g, q) \<in> left_alive way" for way
    by (cases way rule: left_alive.cases) auto
  have "(RunnerRole, g, p) \<in> unlisted own here \<Longrightarrow> (RunnerRole, g, q) \<in> unlisted own here" for here
    by (cases "(own, here)" rule: unlisted.cases) auto
  with l show "(RunnerRole, g, p) \<in> may_live own here \<Longrightarrow> (RunnerRole, g, q) \<in> may_live own here"
    by (cases "(own, here)" rule: may_live.cases) auto
qed

lemma run_step_ok: "run_step own s s' \<Longrightarrow> run_ok own s \<Longrightarrow> run_ok own s'"
proof (induction rule: run_step.induct)
  case (process_forks g p s q)
  then show ?case using fork_allowed [of g p own "stage s" q] by (auto simp: run_ok_def)
next
  case (process_ends s p)
  then show ?case by (auto simp: run_ok_def)
qed (blast intro: main_step_ok language_step_ok runner_step_ok signal_step_ok)+

lemma start_run_ok: "run_ok own (start_run selected)"
  by (simp add: run_ok_def start_run_def)

lemma reachable_run_ok: "reachable_run own selected s \<Longrightarrow> run_ok own s"
  by (induction rule: reachable_run.induct) (auto intro: start_run_ok run_step_ok)

text \<open>A run of one language from its start to its end, and one that is interrupted.\<close>

lemma more_main: "reachable_run own ls s \<Longrightarrow> main_step own s s' \<Longrightarrow> reachable_run own ls s'"
  and more_language: "reachable_run own ls s \<Longrightarrow> language_step own s s' \<Longrightarrow> reachable_run own ls s'"
  and more_runner: "reachable_run own ls s \<Longrightarrow> runner_step own s s' \<Longrightarrow> reachable_run own ls s'"
  by (blast intro: run_more in_main in_language in_runner)+

lemma mock_starts: "m \<noteq> own \<Longrightarrow> reachable_run own [l]
    \<lparr>stage = MockStarted [] m, live = {(MockRole, m, m)}, active = [], work = True, handling = True\<rparr>"
proof -
  assume m: "m \<noteq> own"
  note r0 = run_start [of own "[l]"]
  note r1 = more_main [OF r0 work_made [where ls = "[l]"]]
  note r2 = more_main [OF r1 handlers_installed [where ls = "[l]"]]
  note r3 = more_main [OF r2 mock_named [where ls = "[l]"]]
  note r4 = more_language [OF r3 mock_start [where l = l and ls = "[]" and m = m]]
  show ?thesis using r4 m by (simp add: start_run_def new_pid_def)
qed

lemma build_starts: "b \<noteq> own \<Longrightarrow> reachable_run own [l]
    \<lparr>stage = Building [l] b, live = {(BuilderRole, own, b)}, active = [], work = True, handling = True\<rparr>"
proof -
  assume b: "b \<noteq> own"
  note r1 = more_main [OF run_start [of own "[l]"] work_made [where ls = "[l]"]]
  note r2 = more_main [OF r1 handlers_installed [where ls = "[l]"]]
  note r3 = more_main [OF r2 build_started [where ls = "[l]" and b = b]]
  show ?thesis using r3 b by (simp add: start_run_def new_pid_def)
qed

lemma runner_starts: "m \<noteq> own \<Longrightarrow> r \<noteq> own \<Longrightarrow> r \<noteq> m \<Longrightarrow> reachable_run own [l]
    \<lparr>stage = RunnerStarted [] m r, live = {(RunnerRole, r, r), (MockRole, m, m)}, active = [(mock_name, m)],
     work = True, handling = True\<rparr>"
proof -
  assume a: "m \<noteq> own" "r \<noteq> own" "r \<noteq> m"
  note r1 = more_language [OF mock_starts [OF a(1)] mock_listed [where ls = "[]" and m = m]]
  note r2 = more_runner [OF r1 runner_start [where ls = "[]" and m = m and r = r]]
  show ?thesis using r2 a by (simp add: new_pid_def)
qed

lemma whole_run: "\<exists>s. reachable_run 1 [l] s \<and> stage s = Ended Returned"
proof -
  note r1 = more_runner [OF runner_starts [of 2 1 3] runner_listed [where ls = "[]" and m = 2 and r = 3]]
  note r2 = more_runner [OF r1 reader_started [where ls = "[]" and m = 2 and r = 3]]
  note r3 = run_more [OF r2 process_ends [where p = "(RunnerRole, 3, 3)"]]
  note r4 = more_runner [OF r3 runner_waited [where ls = "[]" and m = 2 and r = 3]]
  note r5 = more_runner [OF r4 group_gone [where ls = "[]" and m = 2 and r = 3]]
  note r6 = more_runner [OF r5 runner_struck [where ls = "[]" and m = 2 and r = 3]]
  note r7 = more_language [OF r6 accounted [where ls = "[]" and m = 2 and way = Fine]]
  note r8 = more_language [OF r7 mock_stopped [where ls = "[]" and m = 2 and way = Fine]]
  note r9 = more_language [OF r8 mock_struck [where ls = "[]" and m = 2]]
  note r10 = more_main [OF r9 all_run]
  note r11 = more_main [OF r10 cleaned [where way = Fine]]
  have "reachable_run 1 [l] \<lparr>stage = Ended Returned, live = {}, active = [], work = False, handling = True\<rparr>"
    using r11 names_differ by (simp add: dict_pop_def group_members_def)
  then show ?thesis by force
qed

section \<open>Properties\<close>

text \<open>
  C29: a conformance run that has ended has left no process that it waited for or listed: after a normal end
  and after an exception nothing lives but a runner whose reader could not be started; after a signal,
  which ends it with status 130, nothing but a process started at that very moment and not yet listed
  (the compiler is never listed); and its working directory is removed, unless the signal came before the
  handlers were installed.
\<close>

theorem ended_runs_are_clean:
  assumes "reachable_run own selected s" "stage s = Ended how"
  shows "case how of
      Returned \<Rightarrow> live s = {} \<and> active s = [] \<and> \<not> work s
    | Propagated left \<Rightarrow> live s \<subseteq> left_alive (Raising left) \<and> \<not> work s
    | Interrupted status here \<Rightarrow> status = 130 \<and> live s \<subseteq> unlisted own here \<and> \<not> work s
    | KilledEarly here \<Rightarrow> live s = {} \<and> (work s \<longleftrightarrow> (\<exists>ls. here = WorkMade ls))"
  using reachable_run_ok [OF assms(1)] assms(2) by (cases how) (auto simp: run_ok_def)

theorem ended_runs_are_clean_witness:
  "\<exists>s. reachable_run 1 [u ''go''] s \<and> stage s = Ended Returned \<and> live s = {} \<and> active s = [] \<and> \<not> work s"
proof -
  obtain s where s: "reachable_run 1 [u ''go''] s" "stage s = Ended Returned" using whole_run by blast
  from ended_runs_are_clean [OF this] s show ?thesis by auto
qed

text \<open>
  C30: while a run goes on, every process alive belongs to a listed group or was started at this very moment;
  and a signal, once the handlers are installed, ends the run with status 130 from any point, whatever the
  processes do, as soon as the clock has reached the handler's deadline: the working directory is gone, and of
  the processes only those in no listed group are left.
\<close>

theorem signals_end_runs:
  assumes "reachable_run own selected s" "\<not> has_ended s" "handling s"
    "p \<in> set polls" "deadline \<le> poll_time p" "delivers s on_kill"
  shows "(\<forall>x\<in>live s. x \<in> unlisted own (stage s) \<or> fst (snd x) \<in> snd ` set (active s)) \<and>
    (\<exists>deeds s'. interrupted (map snd (active s)) on_term deadline polls on_kill = Some deeds \<and>
      s' = fold carry_out deeds s \<and> signal_step s s' \<and> stage s' = Ended (Interrupted 130 (stage s)) \<and> \<not> work s' \<and>
      live s' = {x \<in> live s. fst (snd x) \<notin> snd ` set (active s)})"
proof -
  from reachable_run_ok [OF assms(1)] assms(2,3)
  have here: "active s = listed (stage s)" "live s \<subseteq> may_live own (stage s)" "is_handling (stage s)"
    "\<forall>how. stage s \<noteq> Ended how"
    by (auto simp: run_ok_def has_ended_def)
  from interrupt_ends [OF assms(4,5)] obtain deeds where
    d: "interrupted (map snd (active s)) on_term deadline polls on_kill = Some deeds" by blast
  have "\<forall>x\<in>live s. x \<in> unlisted own (stage s) \<or> fst (snd x) \<in> snd ` set (active s)"
    unfolding here(1) using here(2) listed_or_unlisted [OF _ here(3,4), of _ own] by blast
  moreover have "signal_step s (fold carry_out deeds s)" by (rule handled [OF assms(3,2) d assms(6)])
  ultimately show ?thesis
    using d by (auto simp: handler_effect [OF d assms(6)] interrupted_run_def)
qed

lemma always_delivers: "delivers s (\<lambda>_. Delivered)"
  by (simp add: delivers_def)

text \<open>One look at the clock, after the deadline.\<close>

definition late_poll :: poll where
  "late_poll = \<lparr>poll_answer = (\<lambda>_. Delivered), poll_listing = (\<lambda>_. []), poll_time = 6\<rparr>"

theorem signals_end_runs_witness:
  "\<exists>s s'. reachable_run 1 [u ''go''] s \<and> stage s = RunnerStarted [] 2 3 \<and> signal_step s s' \<and>
     stage s' = Ended (Interrupted 130 (stage s)) \<and> \<not> work s' \<and> (MockRole, 2, 2) \<in> live s \<and> (MockRole, 2, 2) \<notin> live s'"
proof -
  let ?s = "\<lparr>stage = RunnerStarted [] 2 3, live = {(RunnerRole, 3, 3), (MockRole, 2, 2)}, active = [(mock_name, 2)],
     work = True, handling = True\<rparr>"
  have r: "reachable_run 1 [u ''go''] ?s" by (rule runner_starts) simp_all
  have "\<not> has_ended ?s" "handling ?s" "late_poll \<in> set [late_poll]" "6 \<le> poll_time late_poll"
    by (simp_all add: has_ended_def late_poll_def)
  from signals_end_runs [OF r this always_delivers] obtain s' where
    "signal_step ?s s'" "stage s' = Ended (Interrupted 130 (stage ?s))" "\<not> work s'"
    "live s' = {x \<in> live ?s. fst (snd x) \<notin> snd ` set (active ?s)}" by blast
  with r show ?thesis by (intro exI [of _ ?s] exI [of _ s']) simp
qed

text \<open>
  The moment between the start of a process and its listing is open to a signal: the server alone, or the
  runner with the server stopped, or the compiler, can outlive a run that a signal ended with status 130.
\<close>

theorem unlisted_process_survives:
  "(\<exists>s here. reachable_run 1 [l] s \<and> stage s = Ended (Interrupted 130 here) \<and> live s = {(MockRole, 2, 2)}) \<and>
   (\<exists>s here. reachable_run 1 [l] s \<and> stage s = Ended (Interrupted 130 here) \<and> live s = {(RunnerRole, 3, 3)}) \<and>
   (\<exists>s here. reachable_run 1 [l] s \<and> stage s = Ended (Interrupted 130 here) \<and> live s = {(BuilderRole, 1, 4)})"
proof -
  note stop = handled [where deadline = 6 and polls = "[late_poll]" and on_term = "\<lambda>_. Delivered", OF _ _ _ always_delivers]
  have ends: "reachable_run 1 [l] s \<Longrightarrow> handling s \<Longrightarrow> \<not> has_ended s \<Longrightarrow> reachable_run 1 [l] (interrupted_run s)" for s
  proof -
    assume s: "reachable_run 1 [l] s" "handling s" "\<not> has_ended s"
    have "\<exists>deeds. interrupted (map snd (active s)) (\<lambda>_. Delivered) 6 [late_poll] (\<lambda>_. Delivered) = Some deeds"
      by (simp add: interrupted_def late_poll_def still_live_def)
    then obtain deeds where d: "interrupted (map snd (active s)) (\<lambda>_. Delivered) 6 [late_poll] (\<lambda>_. Delivered) = Some deeds" ..
    from run_more [OF s(1) on_signal [OF stop [OF s(2,3) d]]] show ?thesis
      by (simp only: handler_effect [OF d always_delivers])
  qed
  have a: "reachable_run 1 [l] \<lparr>stage = MockStarted [] 2, live = {(MockRole, 2, 2)}, active = [], work = True, handling = True\<rparr>"
    by (rule mock_starts) simp
  have b: "reachable_run 1 [l] \<lparr>stage = RunnerStarted [] 2 3, live = {(RunnerRole, 3, 3), (MockRole, 2, 2)},
     active = [(mock_name, 2)], work = True, handling = True\<rparr>"
    by (rule runner_starts) simp_all
  have c: "reachable_run 1 [l] \<lparr>stage = Building [l] 4, live = {(BuilderRole, 1, 4)}, active = [], work = True, handling = True\<rparr>"
    by (rule build_starts) simp
  show ?thesis
    using ends [OF a] ends [OF b] ends [OF c]
    by (intro conjI) (auto simp: interrupted_run_def has_ended_def)
qed

end
