(* ===== verification/PyRegex.thy ===== *)
theory PyRegex
  imports PyStr
begin

text \<open>
  Python's \<open>re\<close> as far as the scripts use it. A pattern is a value of \<open>rx\<close>; \<open>ends\<close> is the backtracking
  matcher, which lists the places where a match can end in the order in which the engine tries them; \<open>rel\<close>
  is the relation a pattern denotes, and the matcher computes it. A place is the text before it, last
  character first, the text after it, and the captured group, as no pattern here has more than one.
  What \<open>\d\<close> and \<open>\w\<close> are beyond ASCII is a question to the Unicode database, a record.
\<close>

record unidata =
  ud_alnum :: "nat \<Rightarrow> bool"
  ud_digit :: "nat \<Rightarrow> nat option"

definition decimal_value :: "unidata \<Rightarrow> nat \<Rightarrow> nat option" where
  "decimal_value ud c = (if c < 128 then (if 48 \<le> c \<and> c \<le> 57 then Some (c - 48) else None) else ud_digit ud c)"

definition is_word :: "unidata \<Rightarrow> nat \<Rightarrow> bool" where
  "is_word ud c \<longleftrightarrow> (if c < 128 then is_alnum_ascii c \<or> c = 95 else ud_alnum ud c)"

definition is_decimal :: "unidata \<Rightarrow> nat \<Rightarrow> bool" where
  "is_decimal ud c \<longleftrightarrow> decimal_value ud c \<noteq> None"

section \<open>Patterns and the matcher\<close>

text \<open>
  One character of a class, the empty pattern, sequence, alternative, repetition (greedy or not) of a pattern
  that consumes, a capturing group, a negative look-ahead, and a test of the place itself, for the anchors
  and the negative look-behinds of one character.
\<close>

datatype rx =
    Ch "nat \<Rightarrow> bool"
  | Eps
  | Then rx rx
  | Or rx rx
  | Many bool rx
  | Group rx
  | Unless rx
  | Where "ustr \<Rightarrow> ustr \<Rightarrow> bool"

type_synonym place = "ustr \<times> ustr \<times> ustr option"

definition left :: "place \<Rightarrow> nat" where
  "left s = length (fst (snd s))"

definition captured :: "place \<Rightarrow> place \<Rightarrow> place" where
  "captured s t = (fst t, fst (snd t), Some (rev (take (length (fst t) - length (fst s)) (fst t))))"

function ends :: "rx \<Rightarrow> place \<Rightarrow> place list" where
  "ends (Ch p) s =
     (case s of (b, a, g) \<Rightarrow> (case a of [] \<Rightarrow> [] | c # cs \<Rightarrow> if p c then [(c # b, cs, g)] else []))"
| "ends Eps s = [s]"
| "ends (Then r1 r2) s = concat (map (ends r2) (ends r1 s))"
| "ends (Or r1 r2) s = ends r1 s @ ends r2 s"
| "ends (Many greedy r) s =
     (let more = concat (map (\<lambda>t. if left t < left s then ends (Many greedy r) t else []) (ends r s))
      in if greedy then more @ [s] else s # more)"
| "ends (Group r) s = map (captured s) (ends r s)"
| "ends (Unless r) s = (if ends r s = [] then [s] else [])"
| "ends (Where p) s = (if p (fst s) (fst (snd s)) then [s] else [])"
  by pat_completeness auto
termination
  by (relation "inv_image (less_than <*lex*> less_than) (\<lambda>(r, s). (size r, left s))") auto

section \<open>The relation of a pattern\<close>

primrec rel :: "rx \<Rightarrow> (place \<times> place) set" where
  "rel (Ch p) =
     {(s, t). fst (snd s) \<noteq> [] \<and> p (hd (fst (snd s))) \<and>
              t = (hd (fst (snd s)) # fst s, tl (fst (snd s)), snd (snd s))}"
| "rel Eps = Id"
| "rel (Then r1 r2) = rel r1 O rel r2"
| "rel (Or r1 r2) = rel r1 \<union> rel r2"
| "rel (Many greedy r) = (rel r \<inter> {(s, t). left t < left s})\<^sup>*"
| "rel (Group r) = {(s, t). \<exists>x. (s, x) \<in> rel r \<and> t = captured s x}"
| "rel (Unless r) = {(s, t). t = s \<and> (\<forall>x. (s, x) \<notin> rel r)}"
| "rel (Where p) = {(s, t). t = s \<and> p (fst s) (fst (snd s))}"

lemma rtrancl_first_step: "(s, t) \<in> R\<^sup>* \<longleftrightarrow> t = s \<or> (\<exists>s'. (s, s') \<in> R \<and> (s', t) \<in> R\<^sup>*)"
  by (metis converse_rtranclE converse_rtrancl_into_rtrancl rtrancl.rtrancl_refl)

lemma ends_rel: "t \<in> set (ends r s) \<longleftrightarrow> (s, t) \<in> rel r"
proof (induction r s arbitrary: t rule: ends.induct)
  case (1 p s)
  obtain b a g where s: "s = (b, a, g)" by (cases s)
  show ?case by (cases a; cases "p (hd a)") (simp_all add: s)
next
  case (3 r1 r2 s)
  have "t \<in> set (ends (Then r1 r2) s) \<longleftrightarrow> (\<exists>x\<in>set (ends r1 s). t \<in> set (ends r2 x))" by simp
  also have "\<dots> \<longleftrightarrow> (\<exists>x. (s, x) \<in> rel r1 \<and> (x, t) \<in> rel r2)"
    using 3 by (metis (no_types, lifting))
  finally show ?case by (simp only: rel.simps relcomp_unfold mem_Collect_eq prod.case)
next
  case (5 greedy r s)
  have "(s, t) \<in> rel (Many greedy r) \<longleftrightarrow>
      t = s \<or> (\<exists>s'. (s, s') \<in> rel r \<and> left s' < left s \<and> (s', t) \<in> rel (Many greedy r))"
    using rtrancl_first_step [of s t "rel r \<inter> {(s, t). left t < left s}"] by simp
  also have "\<dots> \<longleftrightarrow> t = s \<or> (\<exists>s'\<in>set (ends r s). left s' < left s \<and> t \<in> set (ends (Many greedy r) s'))"
    using 5 by blast
  also have "\<dots> \<longleftrightarrow> t \<in> set (ends (Many greedy r) s)"
    unfolding ends.simps(5) [of greedy r s] Let_def by (simp del: ends.simps(5)) blast
  finally show ?case by (rule sym)
next
  case (6 r s)
  then show ?case by (simp only: ends.simps set_map image_iff Bex_def rel.simps mem_Collect_eq prod.case)
next
  case (7 r s)
  have "ends r s = [] \<longleftrightarrow> (\<forall>x. (s, x) \<notin> rel r)"
    unfolding 7 [symmetric] by (cases "ends r s") auto
  then show ?case by (simp only: ends.simps rel.simps mem_Collect_eq prod.case) simp
qed (simp_all add: eq_commute)

text \<open>A match takes characters from the text after its place to the text before it.\<close>

definition same_text :: "place \<Rightarrow> place \<Rightarrow> bool" where
  "same_text s t \<longleftrightarrow> (\<exists>w. fst t = rev w @ fst s \<and> fst (snd s) = w @ fst (snd t))"

lemma same_text_refl [simp]: "same_text s s"
  by (simp add: same_text_def)

lemma same_text_trans: "same_text s t \<Longrightarrow> same_text t v \<Longrightarrow> same_text s v"
  by (auto simp: same_text_def)

lemma rel_same_text: "(s, t) \<in> rel r \<Longrightarrow> same_text s t"
proof (induction r arbitrary: s t)
  case (Ch p)
  then show ?case by (cases "fst (snd s)") (auto simp: same_text_def)
next
  case (Many greedy r)
  from Many.prems have "(s, t) \<in> (rel r \<inter> {(s, t). left t < left s})\<^sup>*" by simp
  then show ?case by induction (auto intro: same_text_trans Many.IH)
next
  case (Then r1 r2)
  then obtain v where "(s, v) \<in> rel r1" "(v, t) \<in> rel r2" by auto
  then show ?case using Then.IH same_text_trans by blast
next
  case (Group r)
  then obtain v where "t = captured s v" "(s, v) \<in> rel r" by auto
  with Group.IH [of s v] show ?case by (simp add: same_text_def captured_def)
qed auto

lemmas ends_same_text = rel_same_text [OF iffD1 [OF ends_rel]]

lemma ends_left: "t \<in> set (ends r s) \<Longrightarrow> left t \<le> left s"
  using ends_same_text by (fastforce simp: same_text_def left_def)

section \<open>match, fullmatch, search, finditer, sub\<close>

record hit =
  hit_start :: nat
  hit_text :: ustr
  hit_group :: ustr

definition hit_at :: "place \<Rightarrow> place \<Rightarrow> hit" where
  "hit_at s t =
     \<lparr>hit_start = length (fst s), hit_text = rev (take (length (fst t) - length (fst s)) (fst t)),
      hit_group = (case snd (snd t) of Some w \<Rightarrow> w | None \<Rightarrow> [])\<rparr>"

definition first_end :: "rx \<Rightarrow> place \<Rightarrow> place option" where
  "first_end r s = (case ends r s of [] \<Rightarrow> None | t # _ \<Rightarrow> Some t)"

definition re_match :: "rx \<Rightarrow> ustr \<Rightarrow> hit option" where
  "re_match r txt = map_option (hit_at ([], txt, None)) (first_end r ([], txt, None))"

definition re_fullmatch :: "rx \<Rightarrow> ustr \<Rightarrow> bool" where
  "re_fullmatch r txt \<longleftrightarrow> list_ex (\<lambda>t. fst (snd t) = []) (ends r ([], txt, None))"

text \<open>
  The matches of \<open>finditer\<close>, left to right, for a pattern that does not match the empty text; the first is
  the match of \<open>search\<close>.
\<close>

function scan :: "rx \<Rightarrow> ustr \<Rightarrow> ustr \<Rightarrow> hit list" where
  "scan r b a =
     (case first_end r (b, a, None) of
        Some t \<Rightarrow>
          hit_at (b, a, None) t #
          (if left t < length a then scan r (fst t) (fst (snd t))
           else if a = [] then [] else scan r (hd a # b) (tl a))
      | None \<Rightarrow> if a = [] then [] else scan r (hd a # b) (tl a))"
  by pat_completeness auto
termination
  by (relation "measure (\<lambda>(r, b, a). length a)") (auto simp: left_def)

declare scan.simps [simp del]

definition re_finditer :: "rx \<Rightarrow> ustr \<Rightarrow> hit list" where
  "re_finditer r txt = scan r [] txt"

definition re_search :: "rx \<Rightarrow> ustr \<Rightarrow> hit option" where
  "re_search r txt = (case re_finditer r txt of [] \<Rightarrow> None | h # _ \<Rightarrow> Some h)"

text \<open>\<open>re.sub\<close>: the hits replaced, the rest copied.\<close>

primrec splice :: "(hit \<Rightarrow> ustr) \<Rightarrow> nat \<Rightarrow> ustr \<Rightarrow> hit list \<Rightarrow> ustr" where
  "splice f i txt [] = txt"
| "splice f i txt (h # hs) =
     take (hit_start h - i) txt @ f h @
     splice f (hit_start h + length (hit_text h)) (drop (hit_start h - i + length (hit_text h)) txt) hs"

definition re_sub :: "rx \<Rightarrow> (hit \<Rightarrow> ustr) \<Rightarrow> ustr \<Rightarrow> ustr" where
  "re_sub r f txt = splice f 0 txt (re_finditer r txt)"

text \<open>No hit at all exactly when the pattern matches at no place of the text.\<close>

lemma first_end_None: "first_end r s = None \<longleftrightarrow> (\<forall>t. (s, t) \<notin> rel r)"
  unfolding first_end_def ends_rel [symmetric] by (cases "ends r s") auto

lemma all_splits_Cons:
  "(\<forall>w v. c # a = w @ v \<longrightarrow> P w v) \<longleftrightarrow> P [] (c # a) \<and> (\<forall>w v. a = w @ v \<longrightarrow> P (c # w) v)"
  by (auto simp: Cons_eq_append_conv)

lemma scan_Nil_iff: "scan r b a = [] \<longleftrightarrow> (\<forall>w v. a = w @ v \<longrightarrow> (\<forall>t. ((rev w @ b, v, None), t) \<notin> rel r))"
proof (induction a arbitrary: b)
  case Nil
  have "scan r b [] = [] \<longleftrightarrow> first_end r (b, [], None) = None"
    by (subst scan.simps) (simp split: option.split)
  then show ?case by (simp add: first_end_None)
next
  case (Cons c a)
  have "scan r b (c # a) = [] \<longleftrightarrow> first_end r (b, c # a, None) = None \<and> scan r (c # b) a = []"
    by (subst scan.simps) (auto split: option.splits)
  then show ?case unfolding first_end_None Cons.IH all_splits_Cons by simp
qed

lemma re_search_None: "re_search r txt = None \<longleftrightarrow> (\<forall>w v. txt = w @ v \<longrightarrow> (\<forall>t. ((rev w, v, None), t) \<notin> rel r))"
  unfolding re_search_def re_finditer_def using scan_Nil_iff [of r "[]" "txt"] by (auto split: list.splits)

text \<open>Every hit is a part of the text, at its start, and there the pattern matches it.\<close>

definition hit_of :: "rx \<Rightarrow> ustr \<Rightarrow> hit \<Rightarrow> bool" where
  "hit_of r txt h \<longleftrightarrow>
     (\<exists>w v t. txt = w @ hit_text h @ v \<and> hit_start h = length w \<and> fst (snd t) = v \<and>
        ((rev w, hit_text h @ v, None), t) \<in> rel r)"

lemma scan_hits: "h \<in> set (scan r b a) \<Longrightarrow> hit_of r (rev b @ a) h"
proof (induction r b a rule: scan.induct)
  case (1 r b a)
  show ?case
  proof (cases "first_end r (b, a, None)")
    case None
    with 1(4) have "a \<noteq> []" "h \<in> set (scan r (hd a # b) (tl a))"
      by (subst (asm) scan.simps; simp split: if_splits)+
    with "1.IH"(1) [OF None] show ?thesis by (cases a) auto
  next
    case (Some t)
    then have t: "((b, a, None), t) \<in> rel r"
      unfolding ends_rel [symmetric] first_end_def by (auto split: list.splits)
    obtain w where w: "fst t = rev w @ b" "a = w @ fst (snd t)"
      using rel_same_text [OF t] by (auto simp: same_text_def)
    have "h = hit_at (b, a, None) t \<or> left t < length a \<and> h \<in> set (scan r (fst t) (fst (snd t))) \<or>
        a \<noteq> [] \<and> \<not> left t < length a \<and> h \<in> set (scan r (hd a # b) (tl a))"
      using 1(4) Some by (subst (asm) scan.simps) (simp split: if_splits)
    then consider "h = hit_at (b, a, None) t" | "h \<in> set (scan r (fst t) (fst (snd t)))" "left t < length a"
      | "a \<noteq> []" "\<not> left t < length a" "h \<in> set (scan r (hd a # b) (tl a))"
      by blast
    then show ?thesis
    proof cases
      case 1
      with w have "hit_text h = w" "hit_start h = length (rev b)" by (simp_all add: hit_at_def)
      with t w show ?thesis unfolding hit_of_def by (metis rev_rev_ident)
    next
      case 2
      then show ?thesis using "1.IH"(2) [OF Some] w by simp
    next
      case 3
      then show ?thesis using "1.IH"(3) [OF Some] by (cases a) auto
    qed
  qed
qed

lemma re_finditer_hits: "h \<in> set (re_finditer r txt) \<Longrightarrow> hit_of r txt h"
  using scan_hits [of h r "[]" "txt"] by (simp add: re_finditer_def)

section \<open>Building patterns\<close>

definition literal :: "ustr \<Rightarrow> rx" where
  "literal w = foldr (\<lambda>c. Then (Ch (\<lambda>x. x = c))) w Eps"

text \<open>
  An ASCII letter under \<open>IGNORECASE\<close>: the engine lowers both sides and knows the four characters beyond
  ASCII that share a letter with it, the dotted and dotless i, the long s and the Kelvin sign.
\<close>

definition fold_case :: "nat \<Rightarrow> nat" where
  "fold_case c =
     (if 65 \<le> c \<and> c \<le> 90 then c + 32
      else if c \<in> {304, 305} then 105 else if c = 383 then 115 else if c = 8490 then 107 else c)"

definition lit_ci :: "ustr \<Rightarrow> rx" where
  "lit_ci w = foldr (\<lambda>c. Then (Ch (\<lambda>x. fold_case x = fold_case c))) w Eps"

definition seqs :: "rx list \<Rightarrow> rx" where
  "seqs rs = foldr Then rs Eps"

definition alts :: "rx list \<Rightarrow> rx" where
  "alts rs = foldr Or rs (Unless Eps)"

definition maybe :: "rx \<Rightarrow> rx" where
  "maybe r = Or r Eps"

definition some :: "rx \<Rightarrow> rx" where
  "some r = Then r (Many True r)"

definition times :: "nat \<Rightarrow> rx \<Rightarrow> rx" where
  "times n r = seqs (replicate n r)"

definition at_least :: "nat \<Rightarrow> rx \<Rightarrow> rx" where
  "at_least n r = Then (times n r) (Many True r)"

definition text_start :: rx where
  "text_start = Where (\<lambda>b a. b = [])"

definition text_end :: rx where
  "text_end = Where (\<lambda>b a. a = [] \<or> a = [10])"

definition line_start :: rx where
  "line_start = Where (\<lambda>b a. b = [] \<or> hd b = 10)"

definition line_end :: rx where
  "line_end = Where (\<lambda>b a. a = [] \<or> hd a = 10)"

definition not_after :: "(nat \<Rightarrow> bool) \<Rightarrow> rx" where
  "not_after p = Where (\<lambda>b a. b = [] \<or> \<not> p (hd b))"

definition word_edge :: "unidata \<Rightarrow> rx" where
  "word_edge ud = Where (\<lambda>b a. (b \<noteq> [] \<and> is_word ud (hd b)) \<noteq> (a \<noteq> [] \<and> is_word ud (hd a)))"

definition spaces :: rx where
  "spaces = Many True (Ch is_space)"

lemmas rx_defs = literal_def lit_ci_def seqs_def alts_def maybe_def some_def times_def at_least_def text_start_def
  text_end_def line_start_def line_end_def not_after_def word_edge_def spaces_def

lemma rel_lit:
  "(s, t) \<in> rel (literal w) \<longleftrightarrow> fst (snd s) = w @ fst (snd t) \<and> fst t = rev w @ fst s \<and> snd (snd t) = snd (snd s)"
proof (induction w arbitrary: s)
  case Nil
  show ?case by (cases s; cases t) (auto simp: literal_def)
next
  case (Cons c w)
  have "(s, t) \<in> rel (literal (c # w)) \<longleftrightarrow>
      (\<exists>v. (s, v) \<in> rel (Ch (\<lambda>x. x = c)) \<and> (v, t) \<in> rel (literal w))"
    by (simp only: literal_def foldr.simps o_apply rel.simps relcomp_unfold mem_Collect_eq prod.case)
  also have "\<dots> \<longleftrightarrow> fst (snd s) = (c # w) @ fst (snd t) \<and> fst t = rev (c # w) @ fst s \<and> snd (snd t) = snd (snd s)"
    unfolding Cons.IH by (cases "fst (snd s)") auto
  finally show ?case .
qed

text \<open>Searching for a literal text is asking whether it occurs.\<close>

lemma re_search_lit: "re_search (literal w) t = None \<longleftrightarrow> \<not> occurs_in w t"
proof -
  have "(\<exists>p. ((rev x, v, None), p) \<in> rel (literal w)) \<longleftrightarrow> (\<exists>y. v = w @ y)" for x v
    unfolding rel_lit by auto
  then show ?thesis
    unfolding re_search_None occurs_in_sublist sublist_def by blast
qed

end
