(* ===== verification/MatrixText.thy ===== *)
theory MatrixText
  imports JsonHooks PyLines PyRegex DateTime
begin

text \<open>
  \<open>scripts/validate-compatibility-matrix.py\<close>, the half that reads texts: dates, runtime floors in package
  metadata, and the values a job of a workflow uses. A \<open>MatrixError\<close> is a constructor of \<open>matrix_error\<close>
  with the place in the document, a path of steps, in place of its text; \<open>Uncaught\<close> is an exception the
  script does not catch.
\<close>

section \<open>Errors\<close>

datatype place_step = Field string | Index nat | Named json

type_synonym location = "place_step list"

datatype exn = AttributeRaised | JsonRaised | NestingRaised | DigitsRaised | TypeRaised | FileRaised

datatype matrix_error =
    RepeatedKey ustr
  | NotJson
  | WrongKeys location
  | NotString location
  | NotStrings location
  | BadPath location ustr
  | NoFile location ustr
  | BadDate location ustr
  | UnknownKind ustr
  | NoJob ustr
  | NoMatrix ustr
  | SchemaVersion
  | NotFullDate
  | WrongLanguages
  | NotInEvidence location ustr
  | NotArray location
  | RuntimeDiffers location ustr ustr
  | CiDiffers location "ustr list" "ustr list"
  | WrongProfiles location
  | NotCiValue location ustr
  | NotExact location ustr
  | ReleaseDiffers location "ustr list" ustr
  | ReleaseNotCurrent location ustr ustr
  | DuplicateNames location
  | DeclarationGone location ustr
  | Ended ustr ustr
  | VerifiedLater
  | VerifiedLongAgo nat
  | Uncaught exn

text \<open>
  What the interpreter contributes: the Unicode database, how deep it nests, and the text of a list or an
  object, which quotes its strings by that database.
\<close>

record host =
  host_unicode :: unidata
  host_limit :: nat
  host_container :: "json \<Rightarrow> ustr"

definition py_str :: "host \<Rightarrow> json \<Rightarrow> ustr" where
  "py_str host v =
     (case v of
        JStr s \<Rightarrow> s
      | JInt i \<Rightarrow> str_of_int i
      | JFloat x \<Rightarrow> (case x of PNaN \<Rightarrow> u ''nan'' | PInf s \<Rightarrow> u (if s then ''-inf'' else ''inf'') | _ \<Rightarrow> float_repr x)
      | JBool b \<Rightarrow> u (if b then ''True'' else ''False'')
      | JNull \<Rightarrow> u ''None''
      | _ \<Rightarrow> host_container host v)"

definition plain_hooks :: "matrix_error hooks" where
  "plain_hooks = \<lparr>pairs_hook = (\<lambda>_. None), constant_hook = (\<lambda>_. None)\<rparr>"

text \<open>\<open>json.loads\<close> where nothing is caught.\<close>

definition loads_uncaught :: "host \<Rightarrow> ustr \<Rightarrow> matrix_error + json" where
  "loads_uncaught host s =
     (case hooked_loads plain_hooks (host_limit host) s of
        Inr v \<Rightarrow> Inr v
      | Inl (Raised e) \<Rightarrow> Inl e
      | Inl Nested \<Rightarrow> Inl (Uncaught NestingRaised)
      | Inl Digits \<Rightarrow> Inl (Uncaught DigitsRaised)
      | Inl _ \<Rightarrow> Inl (Uncaught JsonRaised))"

definition member_or :: "json \<Rightarrow> ustr \<Rightarrow> json \<Rightarrow> matrix_error + json" where
  "member_or v name default_value =
     (case v of
        JObj d \<Rightarrow> Inr (case dict_get d name of Some w \<Rightarrow> w | None \<Rightarrow> default_value)
      | _ \<Rightarrow> Inl (Uncaught AttributeRaised))"

section \<open>Dates\<close>

type_synonym date = "nat \<times> nat \<times> nat"

definition ordinal :: "date \<Rightarrow> nat" where
  "ordinal d = ymd_to_ord (fst d) (fst (snd d)) (snd (snd d))"

definition digit_rx :: "unidata \<Rightarrow> rx" where
  "digit_rx ud = Ch (is_decimal ud)"

definition full_date_rx :: "unidata \<Rightarrow> rx" where
  "full_date_rx ud =
     seqs [times 4 (digit_rx ud), literal (u ''-''), times 2 (digit_rx ud), literal (u ''-''), times 2 (digit_rx ud)]"

definition month_rx :: "unidata \<Rightarrow> rx" where
  "month_rx ud = seqs [times 4 (digit_rx ud), literal (u ''-''), times 2 (digit_rx ud)]"

definition number_of :: "unidata \<Rightarrow> ustr \<Rightarrow> nat" where
  "number_of ud s = foldl (\<lambda>n c. 10 * n + the (decimal_value ud c)) 0 s"

text \<open>\<open>date.fromisoformat\<close> of a text of that form takes ASCII digits only.\<close>

definition date_of :: "nat \<Rightarrow> nat \<Rightarrow> nat \<Rightarrow> date option" where
  "date_of y m d = (if valid_date y m d then Some (y, m, d) else None)"

definition parse_date :: "unidata \<Rightarrow> location \<Rightarrow> ustr \<Rightarrow> matrix_error + date" where
  "parse_date ud loc value =
     (let found =
        (if re_fullmatch (full_date_rx ud) value
         then (if is_ascii value
               then date_of (number_of ud (take 4 value)) (number_of ud (take 2 (drop 5 value)))
                      (number_of ud (drop 8 value))
               else None)
         else if re_fullmatch (month_rx ud) value
         then (let y = number_of ud (take 4 value); m = number_of ud (drop 5 value)
               in date_of y m (days_in_month y m))
         else None)
      in case found of Some d \<Rightarrow> Inr d | None \<Rightarrow> Inl (BadDate loc value))"

section \<open>Runtime floors\<close>

definition go_rx :: rx where
  "go_rx = seqs [line_start, literal (u ''go''), some (Ch is_space), Group (some (Ch (\<lambda>c. \<not> is_space c))), spaces, line_end]"

definition quoted_rx :: rx where
  "quoted_rx = seqs [literal [34], Group (some (Ch (\<lambda>c. c \<noteq> 34))), literal [34]]"

definition requires_python_rx :: rx where
  "requires_python_rx = seqs [line_start, literal (u ''requires-python''), spaces, literal (u ''=''), spaces, quoted_rx]"

definition element_rx :: "ustr \<Rightarrow> rx" where
  "element_rx name =
     seqs [literal (u ''<'' @ name @ u ''>''), Group (some (Ch (\<lambda>c. c \<notin> {60, 36}))), literal (u ''</'' @ name @ u ''>'')]"

definition gemspec_rx :: "ustr \<Rightarrow> rx" where
  "gemspec_rx name = seqs [literal name, spaces, literal (u ''=''), spaces, quoted_rx]"

definition found_group :: "rx \<Rightarrow> ustr \<Rightarrow> ustr" where
  "found_group r s = (case re_search r s of Some h \<Rightarrow> hit_group h | None \<Rightarrow> [])"

text \<open>\<open>str(json.loads(text).get(section, {}).get(name, ""))\<close>\<close>

definition json_entry :: "host \<Rightarrow> ustr \<Rightarrow> ustr \<Rightarrow> ustr \<Rightarrow> matrix_error + ustr" where
  "json_entry host s part name =
     bindE (loads_uncaught host s) (\<lambda>document.
     bindE (member_or document part (JObj [])) (\<lambda>members.
     bindE (member_or members name (JStr [])) (\<lambda>v. Inr (py_str host v))))"

definition after_colon :: "ustr \<Rightarrow> ustr" where
  "after_colon kind = snd (snd (partition_at 58 kind))"

definition declared_runtime :: "host \<Rightarrow> ustr \<Rightarrow> ustr \<Rightarrow> matrix_error + ustr" where
  "declared_runtime host s kind =
     (if kind = u ''go-directive'' then Inr (found_group go_rx s)
      else if starts_with (u ''npm-engine:'') kind then json_entry host s (u ''engines'') (after_colon kind)
      else if kind = u ''requires-python'' then Inr (found_group requires_python_rx s)
      else if starts_with (u ''composer-require:'') kind then json_entry host s (u ''require'') (after_colon kind)
      else if starts_with (u ''maven-property:'') kind then Inr (found_group (element_rx (after_colon kind)) s)
      else if starts_with (u ''msbuild-property:'') kind then Inr (found_group (element_rx (after_colon kind)) s)
      else if starts_with (u ''gemspec:'') kind then Inr (found_group (gemspec_rx (after_colon kind)) s)
      else Inl (UnknownKind kind))"

section \<open>Workflows\<close>

definition indent :: "ustr \<Rightarrow> nat" where
  "indent line = length line - length (py_lstrip line)"

definition job_rx :: rx where
  "job_rx = seqs [text_start, literal (u ''  ''), some (Ch (\<lambda>c. is_alnum_ascii c \<or> c = 95 \<or> c = 45)), literal (u '':''),
     spaces, text_end]"

definition ends_block :: "ustr \<Rightarrow> bool" where
  "ends_block line \<longleftrightarrow> re_match job_rx line \<noteq> None \<or> (line \<noteq> [] \<and> \<not> is_space (hd line))"

definition job_block :: "ustr \<Rightarrow> ustr \<Rightarrow> matrix_error + ustr list" where
  "job_block workflow job =
     (case dropWhile (\<lambda>line. line \<noteq> u ''  '' @ job @ u '':'') (splitlines workflow) of
        [] \<Rightarrow> Inl (NoJob job)
      | _ # rest \<Rightarrow> Inr (takeWhile (\<lambda>line. \<not> ends_block line) rest))"

definition comment_rx :: rx where
  "comment_rx = seqs [some (Ch is_space), literal (u ''#''), Many True (Ch (\<lambda>c. c \<noteq> 10)), text_end]"

definition scalar :: "ustr \<Rightarrow> ustr" where
  "scalar value =
     (let v = py_strip (re_sub comment_rx (\<lambda>_. []) value)
      in if 2 \<le> length v \<and> hd v = last v \<and> hd v \<in> {39, 34} then butlast (tl v) else v)"

text \<open>The value after a key on a line; in a matrix the key may follow a dash.\<close>

definition value_rx :: rx where
  "value_rx = seqs [spaces, Group (seqs [Ch (\<lambda>c. c \<noteq> 10), Many False (Ch (\<lambda>c. c \<noteq> 10))]), spaces, text_end]"

definition entry_rx :: "ustr \<Rightarrow> rx" where
  "entry_rx key =
     seqs [text_start, spaces, maybe (seqs [literal (u ''-''), some (Ch is_space)]), literal key, literal (u '':''), value_rx]"

definition setting_rx :: "ustr \<Rightarrow> rx" where
  "setting_rx key = seqs [text_start, spaces, literal key, literal (u '':''), value_rx]"

definition strip_set :: "nat list \<Rightarrow> ustr \<Rightarrow> ustr" where
  "strip_set cs s = rev (dropWhile (\<lambda>c. c \<in> set cs) (rev (dropWhile (\<lambda>c. c \<in> set cs) s)))"

definition line_values :: "ustr \<Rightarrow> ustr list" where
  "line_values found =
     (let raw = (if \<not> starts_with (u ''['') found then scalar found else found)
      in if starts_with (u ''['') raw
         then map scalar (filter (\<lambda>item. py_strip item \<noteq> []) (split_on 44 (strip_set [91, 93, 32] raw)))
         else [raw])"

primrec matrix_lines :: "ustr \<Rightarrow> nat \<Rightarrow> ustr list \<Rightarrow> ustr list" where
  "matrix_lines key depth [] = []"
| "matrix_lines key depth (line # lines) =
     (if py_strip line \<noteq> [] \<and> indent line \<le> depth then []
      else (case re_match (entry_rx key) line of Some h \<Rightarrow> line_values (hit_group h) | None \<Rightarrow> []) @
           matrix_lines key depth lines)"

definition ci_matrix_values :: "ustr \<Rightarrow> ustr \<Rightarrow> ustr \<Rightarrow> matrix_error + ustr list" where
  "ci_matrix_values workflow job key =
     bindE (job_block workflow job) (\<lambda>block.
       case dropWhile (\<lambda>line. py_strip line \<noteq> u ''matrix:'') block of
         [] \<Rightarrow> Inl (NoMatrix job)
       | line # rest \<Rightarrow> Inr (matrix_lines key (indent line) rest))"

primrec step_lines :: "ustr \<Rightarrow> ustr \<Rightarrow> bool \<Rightarrow> nat option \<Rightarrow> ustr list \<Rightarrow> ustr list" where
  "step_lines language key inside depth [] = []"
| "step_lines language key inside depth (line # lines) =
     (let stripped = py_strip line in
      if starts_with (u ''- '') stripped
      then step_lines language key (stripped = u ''- if: matrix.language == '' @ [39] @ language @ [39])
             (Some (indent line)) lines
      else (let still = (inside \<and> \<not> (\<exists>n\<in>set_option depth. stripped \<noteq> [] \<and> indent line \<le> n))
            in (if still
                then (case re_match (setting_rx key) line of Some h \<Rightarrow> [scalar (hit_group h)] | None \<Rightarrow> [])
                else []) @ step_lines language key still depth lines))"

definition release_readiness_values :: "ustr \<Rightarrow> ustr \<Rightarrow> ustr \<Rightarrow> matrix_error + ustr list" where
  "release_readiness_values workflow language key =
     bindE (job_block workflow (u ''package'')) (\<lambda>block. Inr (step_lines language key False None block))"

end
