(* ===== verification/MatrixDates.thy ===== *)
theory MatrixDates
  imports MatrixText
begin

text \<open>
  The texts \<open>_parse_date\<close> of \<open>scripts/validate-compatibility-matrix.py\<close> admits: a pattern of single
  characters matches the texts of its length, and the two forms of a date read back.
\<close>

section \<open>Patterns of single characters\<close>

definition fixed :: "rx \<Rightarrow> (nat \<Rightarrow> bool) list \<Rightarrow> bool" where
  "fixed r ps \<longleftrightarrow>
     (\<forall>s t. (s, t) \<in> rel r \<longleftrightarrow>
        (\<exists>w. list_all2 (\<lambda>c p. p c) w ps \<and> fst (snd s) = w @ fst (snd t) \<and> fst t = rev w @ fst s \<and> snd (snd t) = snd (snd s)))"

lemma fixedD:
  "fixed r ps \<Longrightarrow> (s, t) \<in> rel r \<longleftrightarrow>
    (\<exists>w. list_all2 (\<lambda>c p. p c) w ps \<and> fst (snd s) = w @ fst (snd t) \<and> fst t = rev w @ fst s \<and> snd (snd t) = snd (snd s))"
  unfolding fixed_def by blast

lemma fixed_Eps: "fixed Eps []"
  by (auto simp: fixed_def prod_eq_iff)

lemma fixed_Ch: "fixed (Ch p) [p]"
  unfolding fixed_def
proof (intro allI)
  fix s t :: place
  show "(s, t) \<in> rel (Ch p) \<longleftrightarrow>
    (\<exists>w. list_all2 (\<lambda>c p. p c) w [p] \<and> fst (snd s) = w @ fst (snd t) \<and> fst t = rev w @ fst s \<and> snd (snd t) = snd (snd s))"
    by (cases "fst (snd s)") (auto simp: list_all2_Cons2 prod_eq_iff)
qed

lemma fixed_Then:
  assumes r: "fixed r ps" and q: "fixed q qs"
  shows "fixed (Then r q) (ps @ qs)"
  unfolding fixed_def
proof (intro allI)
  fix s t :: place
  let ?takes = "\<lambda>ps s t. \<exists>w. list_all2 (\<lambda>c p. p c) w ps \<and> fst (snd s) = w @ fst (snd t) \<and> fst t = rev w @ fst s \<and> snd (snd t) = snd (snd s)"
  have "(s, t) \<in> rel (Then r q) \<longleftrightarrow> (\<exists>v. ?takes ps s v \<and> ?takes qs v t)"
    by (simp only: rel.simps relcomp_unfold mem_Collect_eq prod.case fixedD [OF r] fixedD [OF q])
  also have "\<dots> \<longleftrightarrow> ?takes (ps @ qs) s t"
  proof
    assume "\<exists>v. ?takes ps s v \<and> ?takes qs v t"
    then obtain v w w' where "list_all2 (\<lambda>c p. p c) w ps" "fst (snd s) = w @ fst (snd v)" "fst v = rev w @ fst s" "snd (snd v) = snd (snd s)"
        "list_all2 (\<lambda>c p. p c) w' qs" "fst (snd v) = w' @ fst (snd t)" "fst t = rev w' @ fst v" "snd (snd t) = snd (snd v)"
      by (elim exE conjE) blast
    then show "?takes (ps @ qs) s t"
      by (intro exI [of _ "w @ w'"]) (simp add: list_all2_appendI)
  next
    assume "?takes (ps @ qs) s t"
    then obtain w w' where w: "list_all2 (\<lambda>c p. p c) w ps" "list_all2 (\<lambda>c p. p c) w' qs" "fst (snd s) = (w @ w') @ fst (snd t)"
        "fst t = rev (w @ w') @ fst s" "snd (snd t) = snd (snd s)"
      unfolding list_all2_append2 by (elim exE conjE) simp
    then have "?takes ps s (rev w @ fst s, w' @ fst (snd t), snd (snd s))" "?takes qs (rev w @ fst s, w' @ fst (snd t), snd (snd s)) t"
      by simp_all
    then show "\<exists>v. ?takes ps s v \<and> ?takes qs v t" by blast
  qed
  finally show "(s, t) \<in> rel (Then r q) \<longleftrightarrow> ?takes (ps @ qs) s t" .
qed

lemma fixed_seqs: "list_all2 fixed rs pss \<Longrightarrow> fixed (seqs rs) (concat pss)"
  by (induction rs pss rule: list_all2_induct) (simp_all add: seqs_def fixed_Eps fixed_Then)

lemma fixed_times: "fixed r [p] \<Longrightarrow> fixed (times n r) (replicate n p)"
proof -
  assume "fixed r [p]"
  then have "list_all2 fixed (replicate n r) (replicate n [p])" by (simp add: list_all2_conv_all_nth)
  moreover have "concat (replicate n [p]) = replicate n p" by (induction n) simp_all
  ultimately show ?thesis unfolding times_def by (metis fixed_seqs)
qed

lemma fixed_lit1: "fixed (literal [c]) [\<lambda>x. x = c]"
  using fixed_Then [OF fixed_Ch fixed_Eps, of "\<lambda>x. x = c"] by (simp add: literal_def)

lemma fullmatch_fixed:
  assumes "fixed r ps"
  shows "re_fullmatch r s \<longleftrightarrow> list_all2 (\<lambda>c p. p c) s ps"
proof -
  have "re_fullmatch r s \<longleftrightarrow> (\<exists>t. (([], s, None), t) \<in> rel r \<and> fst (snd t) = [])"
    unfolding re_fullmatch_def list_ex_iff Bex_def ends_rel ..
  also have "\<dots> \<longleftrightarrow> list_all2 (\<lambda>c p. p c) s ps"
    unfolding fixedD [OF assms] by force
  finally show ?thesis .
qed

section \<open>Numbers of a fixed width\<close>

lemma nat_of_digits_inj:
  "length s = length t \<Longrightarrow> list_all is_digit_ascii s \<Longrightarrow> list_all is_digit_ascii t \<Longrightarrow>
    nat_of_digits s = nat_of_digits t \<Longrightarrow> s = t"
proof (induction s arbitrary: t rule: rev_induct)
  case (snoc d s)
  obtain e t' where t: "t = t' @ [e]" using snoc.prems(1) by (cases t rule: rev_cases) auto
  have digits: "48 \<le> d" "d \<le> 57" "48 \<le> e" "e \<le> 57" using snoc.prems by (auto simp: t is_digit_ascii_def)
  have same: "10 * nat_of_digits s + (d - 48) = 10 * nat_of_digits t' + (e - 48)" using snoc.prems(4) by (simp add: t)
  have "a = b \<and> x = y" if "10 * a + x = 10 * b + y" "x < 10" "y < 10" for a b x y :: nat
    using that by presburger
  from this [OF same] have "nat_of_digits s = nat_of_digits t'" "d - 48 = e - 48" using digits by auto
  then have "nat_of_digits s = nat_of_digits t'" "d = e" using digits by arith+
  then show ?case using snoc.IH [of t'] snoc.prems by (simp add: t)
qed simp

lemma zfill_nat_of_digits:
  assumes "list_all is_digit_ascii s" "length s = n" "0 < n"
  shows "zfill n (nat_of_digits s) = s"
  using assms nat_of_digits_less [OF assms(1)]
  by (intro nat_of_digits_inj) (simp_all add: length_zfill zfill_digits)

lemma number_of_ascii: "list_all is_digit_ascii s \<Longrightarrow> number_of ud s = nat_of_digits s"
proof -
  assume "list_all is_digit_ascii s"
  then have "foldl (\<lambda>n c. 10 * n + the (decimal_value ud c)) a s = foldl (\<lambda>a d. 10 * a + (d - 48)) a s" for a
    by (induction s arbitrary: a) (simp_all add: decimal_value_def is_digit_ascii_def)
  then show ?thesis by (simp add: number_of_def nat_of_digits_def)
qed

lemma ascii_digits: "is_ascii s \<Longrightarrow> list_all (is_decimal ud) s \<Longrightarrow> list_all is_digit_ascii s"
  by (auto simp: list_all_iff is_ascii_def is_decimal_def decimal_value_def is_digit_ascii_def split: if_splits)

lemma digits_decimal: "list_all is_digit_ascii s \<Longrightarrow> list_all (is_decimal ud) s"
  by (auto simp: list_all_iff is_decimal_def decimal_value_def is_digit_ascii_def)

section \<open>The two forms of a date\<close>

definition full_text :: "nat \<Rightarrow> nat \<Rightarrow> nat \<Rightarrow> ustr" where
  "full_text y m d = zfill 4 y @ [45] @ zfill 2 m @ [45] @ zfill 2 d"

definition month_text :: "nat \<Rightarrow> nat \<Rightarrow> ustr" where
  "month_text y m = zfill 4 y @ [45] @ zfill 2 m"

lemma full_date_fixed:
  "fixed (full_date_rx ud) (replicate 4 (is_decimal ud) @ [\<lambda>x. x = 45] @ replicate 2 (is_decimal ud) @ [\<lambda>x. x = 45] @ replicate 2 (is_decimal ud))"
proof -
  let ?D = "is_decimal ud" and ?dash = "[\<lambda>x::nat. x = 45]"
  have "fixed (seqs [times 4 (Ch ?D), literal [45], times 2 (Ch ?D), literal [45], times 2 (Ch ?D)])
      (concat [replicate 4 ?D, ?dash, replicate 2 ?D, ?dash, replicate 2 ?D])"
    by (intro fixed_seqs list.rel_intros fixed_times fixed_Ch fixed_lit1)
  then show ?thesis by (simp add: full_date_rx_def digit_rx_def u_def)
qed

lemma month_fixed: "fixed (month_rx ud) (replicate 4 (is_decimal ud) @ [\<lambda>x. x = 45] @ replicate 2 (is_decimal ud))"
proof -
  let ?D = "is_decimal ud" and ?dash = "[\<lambda>x::nat. x = 45]"
  have "fixed (seqs [times 4 (Ch ?D), literal [45], times 2 (Ch ?D)]) (concat [replicate 4 ?D, ?dash, replicate 2 ?D])"
    by (intro fixed_seqs list.rel_intros fixed_times fixed_Ch fixed_lit1)
  then show ?thesis by (simp add: month_rx_def digit_rx_def u_def)
qed

lemma all2_replicate: "list_all2 (\<lambda>c p. p c) w (replicate n P) \<longleftrightarrow> length w = n \<and> list_all P w"
  by (auto simp: list_all2_conv_all_nth list_all_length)

lemma full_date_match:
  "re_fullmatch (full_date_rx ud) s \<longleftrightarrow>
    (\<exists>a b c. s = a @ [45] @ b @ [45] @ c \<and> length a = 4 \<and> length b = 2 \<and> length c = 2 \<and> list_all (is_decimal ud) (a @ b @ c))"
    (is "?match \<longleftrightarrow> ?form")
proof
  show "?match \<Longrightarrow> ?form"
    unfolding fullmatch_fixed [OF full_date_fixed] list_all2_append2 list_all2_Cons2 all2_replicate by auto
  show "?form \<Longrightarrow> ?match"
    unfolding fullmatch_fixed [OF full_date_fixed] by (elim exE conjE) (simp add: list_all2_appendI all2_replicate)
qed

lemma month_match:
  "re_fullmatch (month_rx ud) s \<longleftrightarrow>
    (\<exists>a b. s = a @ [45] @ b \<and> length a = 4 \<and> length b = 2 \<and> list_all (is_decimal ud) (a @ b))"
    (is "?match \<longleftrightarrow> ?form")
proof
  show "?match \<Longrightarrow> ?form"
    unfolding fullmatch_fixed [OF month_fixed] list_all2_append2 list_all2_Cons2 all2_replicate by auto
  show "?form \<Longrightarrow> ?match"
    unfolding fullmatch_fixed [OF month_fixed] by (elim exE conjE) (simp add: list_all2_appendI all2_replicate)
qed

lemma parse_full:
  assumes "length a = 4" "length b = 2" "length c = 2" "list_all is_digit_ascii (a @ b @ c)"
  shows "parse_date ud loc (a @ [45] @ b @ [45] @ c) =
    (case date_of (nat_of_digits a) (nat_of_digits b) (nat_of_digits c) of Some d \<Rightarrow> Inr d | None \<Rightarrow> Inl (BadDate loc (a @ [45] @ b @ [45] @ c)))"
proof -
  have "list_all is_digit_ascii a" "list_all is_digit_ascii b" "list_all is_digit_ascii c" using assms(4) by simp_all
  moreover from this have "is_ascii (a @ [45] @ b @ [45] @ c)" using digits_ascii by (simp add: is_ascii_def)
  moreover have "re_fullmatch (full_date_rx ud) (a @ [45] @ b @ [45] @ c)"
    using assms digits_decimal unfolding full_date_match by blast
  ultimately show ?thesis using assms by (simp add: parse_date_def number_of_ascii split: option.split)
qed

lemma parse_month:
  assumes "length a = 4" "length b = 2" "list_all is_digit_ascii (a @ b)"
  shows "parse_date ud loc (a @ [45] @ b) =
    (case date_of (nat_of_digits a) (nat_of_digits b) (days_in_month (nat_of_digits a) (nat_of_digits b)) of
       Some d \<Rightarrow> Inr d | None \<Rightarrow> Inl (BadDate loc (a @ [45] @ b)))"
proof -
  have "list_all is_digit_ascii a" "list_all is_digit_ascii b" using assms(3) by simp_all
  moreover have "re_fullmatch (month_rx ud) (a @ [45] @ b)"
    using assms digits_decimal unfolding month_match by blast
  moreover have "\<not> re_fullmatch (full_date_rx ud) (a @ [45] @ b)"
    unfolding full_date_match using assms by (auto dest: arg_cong [of _ _ length])
  ultimately show ?thesis using assms by (simp add: parse_date_def number_of_ascii Let_def split: option.split)
qed

lemma parse_written:
  assumes v: "valid_date y m d" and s: "s = full_text y m d \<or> s = month_text y m \<and> d = days_in_month y m"
  shows "parse_date ud loc s = Inr (y, m, d)"
proof -
  have small: "y < 10 ^ 4" "m < 10 ^ 2" "d < 10 ^ 2"
    using v by (auto simp: valid_date_def days_in_month_def split: if_splits)
  have len: "length (zfill 4 y) = 4" "length (zfill 2 m) = 2" "length (zfill 2 d) = 2"
    using small by (simp_all add: length_zfill del: power_numeral)
  have dig: "list_all is_digit_ascii (zfill 4 y @ zfill 2 m @ zfill 2 d)" "list_all is_digit_ascii (zfill 4 y @ zfill 2 m)"
    by (simp_all add: zfill_digits)
  from s show "parse_date ud loc s = Inr (y, m, d)"
  proof (elim disjE conjE)
    assume "s = full_text y m d"
    then show ?thesis using parse_full [OF len dig(1)] v by (simp add: full_text_def date_of_def)
  next
    assume "s = month_text y m" "d = days_in_month y m"
    then show ?thesis using parse_month [OF len(1,2) dig(2)] v by (simp add: month_text_def date_of_def)
  qed
qed

lemma parse_read:
  assumes "is_ascii s" and found: "parse_date ud loc s = Inr (y, m, d)"
  shows "valid_date y m d \<and> (s = full_text y m d \<or> s = month_text y m \<and> d = days_in_month y m)"
proof -
  have "re_fullmatch (full_date_rx ud) s \<or> re_fullmatch (month_rx ud) s"
    using found by (auto simp: parse_date_def split: if_splits)
  then show "valid_date y m d \<and> (s = full_text y m d \<or> s = month_text y m \<and> d = days_in_month y m)"
  proof
    assume "re_fullmatch (full_date_rx ud) s"
    then obtain a b c where abc: "s = a @ [45] @ b @ [45] @ c" "length a = 4" "length b = 2" "length c = 2"
        "list_all (is_decimal ud) (a @ b @ c)" unfolding full_date_match by blast
    have "is_ascii (a @ b @ c)" using assms(1) by (simp add: abc(1) is_ascii_def)
    then have dig: "list_all is_digit_ascii (a @ b @ c)" using ascii_digits abc(5) by blast
    have "date_of (nat_of_digits a) (nat_of_digits b) (nat_of_digits c) = Some (y, m, d)"
      using found parse_full [OF abc(2-4) dig] by (simp add: abc(1) split: option.splits)
    then have "y = nat_of_digits a" "m = nat_of_digits b" "d = nat_of_digits c" "valid_date y m d"
      by (auto simp: date_of_def split: if_splits)
    moreover have "zfill 4 (nat_of_digits a) = a" "zfill 2 (nat_of_digits b) = b" "zfill 2 (nat_of_digits c) = c"
      using zfill_nat_of_digits [of a 4] zfill_nat_of_digits [of b 2] zfill_nat_of_digits [of c 2] dig abc(2-4) by auto
    ultimately show ?thesis by (simp add: full_text_def abc(1))
  next
    assume "re_fullmatch (month_rx ud) s"
    then obtain a b where ab: "s = a @ [45] @ b" "length a = 4" "length b = 2" "list_all (is_decimal ud) (a @ b)"
      unfolding month_match by blast
    have "is_ascii (a @ b)" using assms(1) by (simp add: ab(1) is_ascii_def)
    then have dig: "list_all is_digit_ascii (a @ b)" using ascii_digits ab(4) by blast
    have "date_of (nat_of_digits a) (nat_of_digits b) (days_in_month (nat_of_digits a) (nat_of_digits b)) = Some (y, m, d)"
      using found parse_month [OF ab(2,3) dig] by (simp add: ab(1) split: option.splits)
    then have "y = nat_of_digits a" "m = nat_of_digits b" "d = days_in_month y m" "valid_date y m d"
      by (auto simp: date_of_def split: if_splits)
    moreover have "zfill 4 (nat_of_digits a) = a" "zfill 2 (nat_of_digits b) = b"
      using zfill_nat_of_digits [of a 4] zfill_nat_of_digits [of b 2] dig ab(2-3) by auto
    ultimately show ?thesis by (simp add: month_text_def ab(1))
  qed
qed

text \<open>An ASCII text is read as a date exactly when it is that valid date written YYYY-MM-DD, or its month written YYYY-MM
  and the date is the last day of the month.\<close>

theorem date_forms:
  assumes "is_ascii s"
  shows "parse_date ud loc s = Inr (y, m, d) \<longleftrightarrow>
    valid_date y m d \<and> (s = full_text y m d \<or> s = month_text y m \<and> d = days_in_month y m)"
  using parse_written parse_read [OF assms] by blast

theorem date_forms_example:
  "parse_date \<lparr>ud_alnum = (\<lambda>c. False), ud_digit = (\<lambda>c. None)\<rparr> [] (month_text 2028 2) = Inr (2028, 2, 29) \<and>
   parse_date \<lparr>ud_alnum = (\<lambda>c. False), ud_digit = (\<lambda>c. None)\<rparr> [] (full_text 2028 2 29) = Inr (2028, 2, 29)"
proof -
  have "is_ascii (month_text 2028 2)" "is_ascii (full_text 2028 2 29)"
    using zfill_ascii by (simp_all add: month_text_def full_text_def is_ascii_def)
  moreover have "valid_date 2028 2 29" "days_in_month 2028 2 = 29"
    by (simp_all add: valid_date_def days_in_month_def is_leap_def)
  ultimately show ?thesis by (simp add: date_forms)
qed

end
