(* ===== verification/Matrix.thy ===== *)
theory Matrix
  imports MatrixText
begin

text \<open>
  \<open>scripts/validate-compatibility-matrix.py\<close>, the half that checks the matrix against the repository. A
  repository is a function from the path of a regular file to its text. Each part of an entry has its own
  definition, in the order in which the script checks them; the first problem ends the check.
\<close>

type_synonym repository = "ustr \<Rightarrow> ustr option"

section \<open>Shapes\<close>

fun first_again :: "ustr list \<Rightarrow> (ustr \<times> json) list \<Rightarrow> ustr option" where
  "first_again seen [] = None"
| "first_again seen (kv # kvs) = (if fst kv \<in> set seen then Some (fst kv) else first_again (fst kv # seen) kvs)"

definition matrix_unique_object :: "(ustr \<times> json) list \<Rightarrow> matrix_error option" where
  "matrix_unique_object pairs = map_option RepeatedKey (first_again [] pairs)"

definition matrix_hooks :: "matrix_error hooks" where
  "matrix_hooks = \<lparr>pairs_hook = matrix_unique_object, constant_hook = (\<lambda>_. None)\<rparr>"

definition keys :: "json \<Rightarrow> string list \<Rightarrow> location \<Rightarrow> matrix_error + (ustr, json) pydict" where
  "keys v expected loc =
     (case v of
        JObj d \<Rightarrow> if set (dict_keys d) = set (map u expected) then Inr d else Inl (WrongKeys loc)
      | _ \<Rightarrow> Inl (WrongKeys loc))"

definition member_of :: "(ustr, json) pydict \<Rightarrow> string \<Rightarrow> json" where
  "member_of d name = (case dict_get d (u name) of Some v \<Rightarrow> v | None \<Rightarrow> JNull)"

definition a_string :: "json \<Rightarrow> location \<Rightarrow> matrix_error + ustr" where
  "a_string v loc = (case v of JStr s \<Rightarrow> if py_strip s = [] then Inl (NotString loc) else Inr s | _ \<Rightarrow> Inl (NotString loc))"

definition string_at :: "(ustr, json) pydict \<Rightarrow> string \<Rightarrow> location \<Rightarrow> matrix_error + ustr" where
  "string_at d name loc = a_string (member_of d name) (loc @ [Field name])"

text \<open>\<open>enumerate\<close> with a check that may raise.\<close>

primrec each :: "(nat \<Rightarrow> 'a \<Rightarrow> 'e + 'b) \<Rightarrow> nat \<Rightarrow> 'a list \<Rightarrow> 'e + 'b list" where
  "each f i [] = Inr []"
| "each f i (x # xs) = bindE (f i x) (\<lambda>y. bindE (each f (i + 1) xs) (\<lambda>ys. Inr (y # ys)))"

definition strings :: "bool \<Rightarrow> json \<Rightarrow> location \<Rightarrow> matrix_error + ustr list" where
  "strings allow_empty v loc =
     (case v of
        JArr vs \<Rightarrow>
          if vs = [] \<and> \<not> allow_empty then Inl (NotStrings loc)
          else each (\<lambda>i item. a_string item (loc @ [Index i])) 0 vs
      | _ \<Rightarrow> Inl (NotStrings loc))"

definition array_at :: "(ustr, json) pydict \<Rightarrow> string \<Rightarrow> bool \<Rightarrow> location \<Rightarrow> matrix_error + json list" where
  "array_at d name allow_empty loc =
     (case member_of d name of
        JArr vs \<Rightarrow> if vs = [] \<and> \<not> allow_empty then Inl (NotArray (loc @ [Field name])) else Inr vs
      | _ \<Rightarrow> Inl (NotArray (loc @ [Field name])))"

text \<open>A path of the repository, and the text of its file.\<close>

definition repo_path_ok :: "ustr \<Rightarrow> bool" where
  "repo_path_ok path \<longleftrightarrow>
     hd path \<noteq> 47 \<and> 92 \<notin> set path \<and> \<not> list_ex (\<lambda>part. part \<in> {[], u ''.'', u ''..''}) (split_on 47 path)"

definition repo_file :: "repository \<Rightarrow> json \<Rightarrow> location \<Rightarrow> matrix_error + ustr" where
  "repo_file repo v loc =
     bindE (a_string v loc) (\<lambda>path.
       if \<not> repo_path_ok path then Inl (BadPath loc path)
       else (case repo path of None \<Rightarrow> Inl (NoFile loc path) | Some s \<Rightarrow> Inr s))"

definition in_evidence :: "ustr \<Rightarrow> ustr \<Rightarrow> location \<Rightarrow> matrix_error + unit" where
  "in_evidence evidence value loc = (if occurs_in value evidence then Inr () else Inl (NotInEvidence loc value))"

section \<open>The parts of an entry\<close>

definition check_runtime :: "host \<Rightarrow> repository \<Rightarrow> location \<Rightarrow> json \<Rightarrow> matrix_error + unit" where
  "check_runtime host repo loc v =
     bindE (keys v [''name'', ''declared'', ''declared_in''] loc) (\<lambda>runtime.
     bindE (string_at runtime ''name'' loc) (\<lambda>_.
     bindE (string_at runtime ''declared'' loc) (\<lambda>declared.
     bindE (keys (member_of runtime ''declared_in'') [''file'', ''kind''] (loc @ [Field ''declared_in''])) (\<lambda>source.
     bindE (repo_file repo (member_of source ''file'') (loc @ [Field ''declared_in'', Field ''file''])) (\<lambda>file_text.
     bindE (string_at source ''kind'' (loc @ [Field ''declared_in''])) (\<lambda>kind.
     bindE (declared_runtime host file_text kind) (\<lambda>actual.
       if actual \<noteq> declared then Inl (RuntimeDiffers loc actual declared) else Inr ())))))))"

definition check_ci :: "ustr \<Rightarrow> location \<Rightarrow> json \<Rightarrow> matrix_error + ustr list" where
  "check_ci workflow loc v =
     bindE (keys v [''job'', ''key'', ''values''] loc) (\<lambda>ci.
     bindE (strings False (member_of ci ''values'') (loc @ [Field ''values''])) (\<lambda>vals.
     bindE (string_at ci ''job'' loc) (\<lambda>job.
     bindE (string_at ci ''key'' loc) (\<lambda>key.
     bindE (ci_matrix_values workflow job key) (\<lambda>actual.
       if actual \<noteq> vals then Inl (CiDiffers loc actual vals) else Inr vals)))))"

definition name_or_null :: "json \<Rightarrow> json" where
  "name_or_null v = (case v of JObj d \<Rightarrow> member_of d ''name'' | _ \<Rightarrow> JNull)"

definition version_rx :: "unidata \<Rightarrow> rx" where
  "version_rx ud =
     seqs [maybe (literal (u ''v'')), some (digit_rx ud), some (seqs [literal (u ''.''), some (digit_rx ud)])]"

definition check_profile :: "host \<Rightarrow> ustr \<Rightarrow> ustr list \<Rightarrow> location \<Rightarrow> json \<Rightarrow> matrix_error + ustr" where
  "check_profile host evidence primary loc v =
     bindE (keys v [''name'', ''ci_value'', ''observed''] loc) (\<lambda>profile.
     bindE (string_at profile ''ci_value'' loc) (\<lambda>ci_value.
       if ci_value \<notin> set primary then Inl (NotCiValue loc ci_value)
       else bindE (string_at profile ''observed'' loc) (\<lambda>observed.
         if \<not> re_fullmatch (version_rx (host_unicode host)) observed then Inl (NotExact loc observed)
         else bindE (in_evidence evidence observed (loc @ [Field ''observed''])) (\<lambda>_. Inr ci_value))))"

definition check_profiles :: "host \<Rightarrow> ustr \<Rightarrow> ustr list \<Rightarrow> location \<Rightarrow> json \<Rightarrow> matrix_error + ustr" where
  "check_profiles host evidence primary loc v =
     (case v of
        JArr [minimum, current] \<Rightarrow>
          if name_or_null minimum = JStr (u ''minimum'') \<and> name_or_null current = JStr (u ''current'')
          then bindE (check_profile host evidence primary (loc @ [Field ''profiles'', Field ''minimum'']) minimum) (\<lambda>_.
                 check_profile host evidence primary (loc @ [Field ''profiles'', Field ''current'']) current)
          else Inl (WrongProfiles loc)
      | _ \<Rightarrow> Inl (WrongProfiles loc))"

definition check_release :: "ustr \<Rightarrow> ustr \<Rightarrow> ustr \<Rightarrow> location \<Rightarrow> json \<Rightarrow> matrix_error + unit" where
  "check_release workflow language current loc v =
     bindE (keys v [''key'', ''value''] loc) (\<lambda>release.
     bindE (string_at release ''value'' loc) (\<lambda>value.
     bindE (string_at release ''key'' loc) (\<lambda>key.
     bindE (release_readiness_values workflow language key) (\<lambda>actual.
       if actual \<noteq> [value] then Inl (ReleaseDiffers loc actual value)
       else if value \<noteq> current \<and> \<not> starts_with (current @ u ''.'') value
       then Inl (ReleaseNotCurrent loc value current)
       else Inr ()))))"

text \<open>\<open>==\<close> on the scalars a set of names can hold; a list or an object cannot be in a set.\<close>

definition integer_value :: "pyfloat \<Rightarrow> int option" where
  "integer_value x =
     (case x of
        PFin s m e \<Rightarrow>
          let n = (if 0 \<le> e then m * 2 ^ nat e else m div 2 ^ nat (- e))
          in if 0 \<le> e \<or> m mod 2 ^ nat (- e) = 0 then Some (if s then - int n else int n) else None
      | _ \<Rightarrow> None)"

definition scalar_key :: "json \<Rightarrow> json" where
  "scalar_key v =
     (case v of
        JBool b \<Rightarrow> JInt (if b then 1 else 0)
      | JFloat x \<Rightarrow> (case integer_value x of Some i \<Rightarrow> JInt i | None \<Rightarrow> v)
      | _ \<Rightarrow> v)"

definition unhashable :: "json \<Rightarrow> bool" where
  "unhashable v \<longleftrightarrow> (case v of JArr _ \<Rightarrow> True | JObj _ \<Rightarrow> True | _ \<Rightarrow> False)"

definition check_framework :: "repository \<Rightarrow> ustr \<Rightarrow> location \<Rightarrow> json \<Rightarrow> matrix_error + unit" where
  "check_framework repo evidence where_list v =
     (case v of
        JObj d \<Rightarrow>
          (let loc = where_list @ [Named (name_or_null v)] in
           bindE (keys v [''name'', ''supported'', ''declared_in'', ''tested''] loc) (\<lambda>framework.
           bindE (string_at framework ''name'' loc) (\<lambda>_.
           bindE (string_at framework ''supported'' loc) (\<lambda>_.
           bindE (if member_of framework ''declared_in'' = JNull then Inr ()
                  else bindE (keys (member_of framework ''declared_in'') [''file'', ''contains''] (loc @ [Field ''declared_in'']))
                    (\<lambda>declaration.
                      bindE (repo_file repo (member_of declaration ''file'') (loc @ [Field ''declared_in'', Field ''file''])) (\<lambda>file_text.
                      bindE (string_at declaration ''contains'' (loc @ [Field ''declared_in''])) (\<lambda>contains.
                        if occurs_in contains file_text then Inr () else Inl (DeclarationGone loc contains))))) (\<lambda>_.
           bindE (strings True (member_of framework ''tested'') (loc @ [Field ''tested''])) (\<lambda>tested.
           bindE (mapE (\<lambda>version. in_evidence evidence version (loc @ [Field ''tested''])) tested) (\<lambda>_. Inr ())))))))
      | _ \<Rightarrow> Inl (Uncaught AttributeRaised))"

definition check_frameworks :: "repository \<Rightarrow> ustr \<Rightarrow> location \<Rightarrow> json list \<Rightarrow> matrix_error + unit" where
  "check_frameworks repo evidence loc vs =
     (let names = map name_or_null vs in
      if list_ex unhashable names then Inl (Uncaught TypeRaised)
      else if \<not> distinct (map scalar_key names) then Inl (DuplicateNames loc)
      else bindE (mapE (check_framework repo evidence loc) vs) (\<lambda>_. Inr ()))"

definition WARNING_DAYS :: nat where
  "WARNING_DAYS = 90"

text \<open>A line of support: the warnings it gives on the date of the check, if there is one.\<close>

definition support_warning :: "ustr \<Rightarrow> ustr \<Rightarrow> ustr \<Rightarrow> nat \<Rightarrow> ustr" where
  "support_warning language label raw_date days =
     language @ u '': '' @ label @ u '' reaches end of support on '' @ raw_date @ u '' ('' @ str_of_nat days @ u '' days)''"

definition check_support ::
  "host \<Rightarrow> ustr \<Rightarrow> ustr \<Rightarrow> date option \<Rightarrow> location \<Rightarrow> json \<Rightarrow> matrix_error + ustr list" where
  "check_support host language evidence as_of loc v =
     bindE (keys v [''component'', ''line'', ''date''] loc) (\<lambda>line.
     bindE (string_at line ''component'' loc) (\<lambda>component.
     bindE (string_at line ''line'' loc) (\<lambda>line_name.
     bindE (string_at line ''date'' loc) (\<lambda>raw_date.
     bindE (parse_date (host_unicode host) (loc @ [Field ''date'']) raw_date) (\<lambda>ends.
     bindE (in_evidence evidence raw_date (loc @ [Field ''date''])) (\<lambda>_.
       case as_of of
         None \<Rightarrow> Inr []
       | Some today \<Rightarrow>
           if ordinal ends < ordinal today then Inl (Ended language raw_date)
           else Inr (if ordinal ends - ordinal today \<le> WARNING_DAYS
                     then [support_warning language (component @ u '' '' @ line_name) raw_date (ordinal ends - ordinal today)]
                     else [])))))))"

section \<open>The whole matrix\<close>

definition MATRIX_LANGUAGES :: "ustr list" where
  "MATRIX_LANGUAGES = [u ''go'', u ''node'', u ''python'', u ''php'', u ''java'', u ''dotnet'', u ''ruby'']"

text \<open>The texts of the two workflows, and the date of the check.\<close>

record setting =
  set_repo :: repository
  set_ci :: ustr
  set_release :: ustr
  set_as_of :: "date option"

definition check_entry :: "host \<Rightarrow> setting \<Rightarrow> ustr \<Rightarrow> json \<Rightarrow> matrix_error + ustr list" where
  "check_entry host st language v =
     (let loc = [Field ''languages'', Named (JStr language)] in
      bindE (keys v [''language'', ''evidence'', ''runtimes'', ''ci'', ''profiles'', ''release_readiness'',
               ''frameworks'', ''end_of_support''] loc) (\<lambda>entry.
      bindE (repo_file (set_repo st) (member_of entry ''evidence'') (loc @ [Field ''evidence''])) (\<lambda>evidence.
      bindE (array_at entry ''runtimes'' False loc) (\<lambda>runtimes.
      bindE (each (\<lambda>i. check_runtime host (set_repo st) (loc @ [Field ''runtimes'', Index i])) 0 runtimes) (\<lambda>_.
      bindE (array_at entry ''ci'' False loc) (\<lambda>cis.
      bindE (each (\<lambda>i. check_ci (set_ci st) (loc @ [Field ''ci'', Index i])) 0 cis) (\<lambda>ci_values.
      bindE (check_profiles host evidence (hd ci_values) loc (member_of entry ''profiles'')) (\<lambda>current.
      bindE (check_release (set_release st) language current (loc @ [Field ''release_readiness''])
               (member_of entry ''release_readiness'')) (\<lambda>_.
      bindE (array_at entry ''frameworks'' False loc) (\<lambda>frameworks.
      bindE (check_frameworks (set_repo st) evidence (loc @ [Field ''frameworks'']) frameworks) (\<lambda>_.
      bindE (array_at entry ''end_of_support'' True loc) (\<lambda>support.
      bindE (each (\<lambda>i. check_support host language evidence (set_as_of st) (loc @ [Field ''end_of_support'', Index i])) 0 support)
        (\<lambda>warnings. Inr (concat warnings))))))))))))))"

definition language_or_null :: "json \<Rightarrow> json" where
  "language_or_null v = (case v of JObj d \<Rightarrow> member_of d ''language'' | _ \<Rightarrow> JNull)"

definition check_age :: "date option \<Rightarrow> int option \<Rightarrow> date \<Rightarrow> matrix_error + unit" where
  "check_age as_of max_age verified_on =
     (case as_of of
        None \<Rightarrow> Inr ()
      | Some today \<Rightarrow>
          if ordinal today < ordinal verified_on then Inl VerifiedLater
          else (case max_age of
                  None \<Rightarrow> Inr ()
                | Some limit \<Rightarrow>
                    if limit < int (ordinal today - ordinal verified_on)
                    then Inl (VerifiedLongAgo (ordinal today - ordinal verified_on)) else Inr ()))"

definition load_matrix :: "host \<Rightarrow> ustr \<Rightarrow> matrix_error + json" where
  "load_matrix host s =
     (case hooked_loads matrix_hooks (host_limit host) s of
        Inr v \<Rightarrow> Inr v
      | Inl (Raised e) \<Rightarrow> Inl e
      | Inl Nested \<Rightarrow> Inl (Uncaught NestingRaised)
      | Inl Digits \<Rightarrow> Inl (Uncaught DigitsRaised)
      | Inl _ \<Rightarrow> Inl NotJson)"

definition check_header :: "host \<Rightarrow> (ustr, json) pydict \<Rightarrow> matrix_error + date" where
  "check_header host matrix =
     (let version = member_of matrix ''schema_version'' in
      if scalar_key version \<noteq> JInt 1 \<or> (\<exists>b\<in>{True, False}. version = JBool b) then Inl SchemaVersion
      else bindE (string_at matrix ''verified_on'' []) (\<lambda>raw.
        bindE (parse_date (host_unicode host) [Field ''verified_on''] raw) (\<lambda>verified_on.
          if re_fullmatch (full_date_rx (host_unicode host)) raw then Inr verified_on else Inl NotFullDate)))"

definition read_workflow :: "repository \<Rightarrow> string \<Rightarrow> matrix_error + ustr" where
  "read_workflow repo name =
     (case repo (u ''.github/workflows/'' @ u name) of Some s \<Rightarrow> Inr s | None \<Rightarrow> Inl (Uncaught FileRaised))"

definition check_document ::
  "host \<Rightarrow> repository \<Rightarrow> date option \<Rightarrow> int option \<Rightarrow> json \<Rightarrow> matrix_error + (json \<times> ustr list)" where
  "check_document host repo as_of max_age document =
     bindE (keys document [''schema_version'', ''verified_on'', ''languages''] []) (\<lambda>matrix.
     bindE (check_header host matrix) (\<lambda>verified_on.
       case member_of matrix ''languages'' of
         JArr entries \<Rightarrow>
           if map language_or_null entries \<noteq> map JStr MATRIX_LANGUAGES then Inl WrongLanguages
           else
             bindE (read_workflow repo ''ci.yml'') (\<lambda>ci.
             bindE (read_workflow repo ''release-readiness.yml'') (\<lambda>release.
             bindE (mapE (\<lambda>(language, entry). check_entry host
                        \<lparr>set_repo = repo, set_ci = ci, set_release = release, set_as_of = as_of\<rparr> language entry)
                      (zip MATRIX_LANGUAGES entries)) (\<lambda>warnings.
             bindE (check_age as_of max_age verified_on) (\<lambda>_. Inr (document, concat warnings)))))
       | _ \<Rightarrow> Inl WrongLanguages))"

definition validate_matrix ::
  "host \<Rightarrow> repository \<Rightarrow> date option \<Rightarrow> int option \<Rightarrow> ustr \<Rightarrow> matrix_error + (json \<times> ustr list)" where
  "validate_matrix host repo as_of max_age s =
     bindE (load_matrix host s) (check_document host repo as_of max_age)"

section \<open>Reports and the command\<close>

definition items_of :: "json \<Rightarrow> string \<Rightarrow> json list" where
  "items_of v name = (case v of JObj d \<Rightarrow> (case member_of d name of JArr vs \<Rightarrow> vs | _ \<Rightarrow> []) | _ \<Rightarrow> [])"

definition text_of :: "json \<Rightarrow> string \<Rightarrow> ustr" where
  "text_of v name = (case v of JObj d \<Rightarrow> (case member_of d name of JStr s \<Rightarrow> s | _ \<Rightarrow> []) | _ \<Rightarrow> [])"

definition strings_of :: "json \<Rightarrow> string \<Rightarrow> ustr list" where
  "strings_of v name = map (\<lambda>w. case w of JStr s \<Rightarrow> s | _ \<Rightarrow> []) (items_of v name)"

definition member_json :: "json \<Rightarrow> string \<Rightarrow> json" where
  "member_json v name = (case v of JObj d \<Rightarrow> member_of d name | _ \<Rightarrow> JNull)"

definition arrow :: ustr where
  "arrow = [32, 8594, 32]"

definition observed_range :: "json \<Rightarrow> ustr" where
  "observed_range entry = join_with arrow (map (\<lambda>p. text_of p ''observed'') (items_of entry ''profiles''))"

definition summary_row :: "json \<Rightarrow> ustr" where
  "summary_row entry =
     u ''| '' @ text_of entry ''language'' @ u '' | '' @
     join_with (u '', '') (map (\<lambda>r. text_of r ''name'' @ u '' '' @ text_of r ''declared'') (items_of entry ''runtimes'')) @
     u '' | '' @ observed_range entry @ u '' | '' @
     join_with (u '', '') (map (\<lambda>f. text_of f ''name'' @ u '' '' @ text_of f ''supported'') (items_of entry ''frameworks'')) @
     u '' |''"

definition matrix_summary :: "json \<Rightarrow> ustr" where
  "matrix_summary matrix =
     u ''### SDK compatibility (verified '' @ text_of matrix ''verified_on'' @ u '')'' @ [10, 10] @
     join_with [10] ([u ''| Language | Runtime floor | CI minimum'' @ arrow @ u ''current (observed) | Frameworks |'',
                      u ''| --- | --- | --- | --- |''] @ map summary_row (items_of matrix ''languages'')) @ [10]"

record matrix_arguments =
  ma_as_of :: "date option"
  ma_max_age :: "int option"
  ma_markdown :: bool

datatype matrix_outcome = BadUsage | Rejected matrix_error | Escaped exn | Accepted "ustr list" ustr

definition matrix_main :: "host \<Rightarrow> repository \<Rightarrow> matrix_arguments \<Rightarrow> ustr \<Rightarrow> matrix_outcome" where
  "matrix_main host repo a s =
     (if ma_max_age a \<noteq> None \<and> ma_as_of a = None then BadUsage
      else (case validate_matrix host repo (ma_as_of a) (ma_max_age a) s of
              Inl (Uncaught e) \<Rightarrow> Escaped e
            | Inl e \<Rightarrow> Rejected e
            | Inr (matrix, warnings) \<Rightarrow>
                Accepted (map (\<lambda>w. u ''warning: '' @ w) warnings)
                  (if ma_markdown a then matrix_summary matrix
                   else u ''compatibility matrix valid: '' @ str_of_nat (length MATRIX_LANGUAGES) @ u '' languages, verified '' @
                        text_of matrix ''verified_on'' @ [10])))"

end
