(* ===== verification/Docs.thy ===== *)
theory Docs
  imports Matrix
begin

text \<open>
  \<open>scripts/audit-docs.py\<close>: the audit of the documents of the repository. The patterns are values of \<open>rx\<close>.
  A problem keeps what it is about in place of its message. The file system is a function from the
  components of an absolute path, without symbolic links; the script resolves \<open>..\<close> by its text.
\<close>

section \<open>The documents\<close>

definition ROOT_DOCUMENTS :: "ustr list" where
  "ROOT_DOCUMENTS =
     [u ''docs/sdk-contract.md'', u ''docs/visitor-propagation.md'', u ''docs/retry-and-error-semantics.md'',
      u ''docs/compatibility.md'', u ''docs/release-checklist.md'']"

definition LANGUAGE_READMES :: "ustr list" where
  "LANGUAGE_READMES = map (\<lambda>language. language @ u ''/README.md'') MATRIX_LANGUAGES"

definition CONFORMANCE_GUIDE :: ustr where
  "CONFORMANCE_GUIDE = u ''conformance/README.md''"

definition AUDITED :: "ustr list" where
  "AUDITED = [u ''README.md''] @ ROOT_DOCUMENTS @ [CONFORMANCE_GUIDE] @ LANGUAGE_READMES"

definition LANGUAGE_NAMES :: "(ustr, ustr) pydict" where
  "LANGUAGE_NAMES =
     [(u ''go'', u ''Go''), (u ''node'', u ''Node.js and Bun''), (u ''python'', u ''Python''), (u ''php'', u ''PHP''),
      (u ''java'', u ''Java''), (u ''dotnet'', u ''.NET''), (u ''ruby'', u ''Ruby'')]"

definition REQUIRED_TERMS :: "(ustr \<times> ustr list) list" where
  "REQUIRED_TERMS =
     [(u ''docs/sdk-contract.md'',
       map u [''https://t.cekat.ai'', ''/api/events/ingest'', ''Authorization: Bearer'', ''business_id'',
         ''User-Agent: cekat-event-sdk-'', ''user_registration'', ''user_login'', ''order_created'', ''order_paid'',
         ''is_common'', ''event_id'', ''occurred_at'', ''asynchronous processing'', ''ValidationError'',
         ''AuthenticationError'', ''EventDefinitionNotFoundError'', ''ApiError'', ''TransportError'',
         ''ResponseDecodeError'', ''conformance/README.md'',
         ''conformance/fixtures/schemas/conformance-case.schema.json'']),
      (u ''docs/visitor-propagation.md'',
       map u [''X-Cekat-Visitor-ID'', ''_cekat_visitor_id'', ''untrusted'', ''precedence'', ''finally'']),
      (u ''docs/retry-and-error-semantics.md'',
       map u [''3 seconds'', ''429'', ''500'', ''502'', ''503'', ''504'', ''Retry-After'', ''5 seconds'', ''65,536'',
         ''duplicate'', ''event_id'', ''full jitter'', ''cancel'']),
      (u ''docs/release-checklist.md'',
       map u [''release-readiness.yml'', ''manifest'', ''signing'', ''registry'', ''never publishes''])]"

definition LANGUAGE_README_TERMS :: "ustr list" where
  "LANGUAGE_README_TERMS =
     map u [''X-Cekat-Visitor-ID'', ''_cekat_visitor_id'', ''asynchronous processing'', ''untrusted'', ''duplicate'',
       ''Retry-After'', ''429'', ''event_id'']"

section \<open>Patterns\<close>

definition one_of :: "string list \<Rightarrow> rx" where
  "one_of ws = alts (map (\<lambda>w. literal (u w)) ws)"

definition one_of_ci :: "string list \<Rightarrow> rx" where
  "one_of_ci ws = alts (map (\<lambda>w. lit_ci (u w)) ws)"

definition upper :: "nat \<Rightarrow> bool" where
  "upper c \<longleftrightarrow> 65 \<le> c \<and> c \<le> 90"

definition lower_ascii :: "nat \<Rightarrow> bool" where
  "lower_ascii c \<longleftrightarrow> 97 \<le> c \<and> c \<le> 122"

definition decimal_ascii :: "nat \<Rightarrow> bool" where
  "decimal_ascii c \<longleftrightarrow> 48 \<le> c \<and> c \<le> 57"

definition letters_digits :: "nat list \<Rightarrow> nat \<Rightarrow> bool" where
  "letters_digits extra c \<longleftrightarrow> is_alnum_ascii c \<or> c \<in> set extra"

definition secret_rx :: "unidata \<Rightarrow> rx" where
  "secret_rx ud =
     seqs [word_edge ud,
       alts [seqs [literal (u ''sk_live_''), at_least 8 (Ch is_alnum_ascii)],
             seqs [literal (u ''ghp_''), at_least 20 (Ch is_alnum_ascii)],
             seqs [literal (u ''xox''), Ch (\<lambda>c. c = 98 \<or> c = 112), literal (u ''-''), at_least 10 (Ch (letters_digits [45]))],
             seqs [literal (u ''AKIA''), times 16 (Ch (\<lambda>c. decimal_ascii c \<or> upper c))]]]"

definition local_path_rx :: rx where
  "local_path_rx =
     alts [literal (u ''/Users/''), seqs [literal (u ''/home/''), Ch lower_ascii], seqs [Ch upper, literal [58, 92, 92]],
           literal (u ''file://'')]"

definition bearer_rx :: rx where
  "bearer_rx =
     seqs [literal (u ''Bearer''), some (Ch is_space), Unless (literal (u ''<'')), at_least 24 (Ch (letters_digits [46, 95, 126, 43, 47, 45]))]"

definition publication_rx :: "unidata \<Rightarrow> rx" where
  "publication_rx ud =
     seqs [word_edge ud,
       alts [literal (u ''npm publish''), literal (u ''twine upload''), literal (u ''gem push''), literal (u ''nuget push''),
             seqs [literal (u ''mvn''), maybe (literal (u ''w'')), literal (u '' deploy'')], literal (u ''composer publish''),
             literal (u ''gh release create''), literal (u ''git push --tags'')],
       word_edge ud]"

definition published_rx :: "unidata \<Rightarrow> rx" where
  "published_rx ud =
     seqs [word_edge ud, one_of_ci [''is'', ''are'', ''has been'', ''have been'', ''is now'', ''are now''],
       some (Ch is_space), one_of_ci [''published'', ''available''], some (Ch is_space),
       one_of_ci [''on'', ''to'', ''in''], some (Ch is_space),
       one_of_ci [''npm'', ''PyPI'', ''Packagist'', ''RubyGems'', ''Maven Central'', ''NuGet'', ''the registry'']]"

definition ingest_rx :: "unidata \<Rightarrow> rx" where
  "ingest_rx ud =
     seqs [literal (u ''/api/events/''), Unless (seqs [literal (u ''ingest''), word_edge ud]), Ch (\<lambda>c. lower_ascii c \<or> upper c)]"

definition cookie_rx :: rx where
  "cookie_rx = seqs [not_after (letters_digits [95]), literal (u ''cekat_visitor_id'')]"

definition only_500_rx :: "unidata \<Rightarrow> rx" where
  "only_500_rx ud =
     seqs [word_edge ud, lit_ci (u ''only ''), maybe (lit_ci (u ''HTTP '')), maybe (literal [96]), literal (u ''500''),
       maybe (literal [96]), word_edge ud]"

text \<open>The patterns in their order, each with its label, and the labels whose pattern is searched in the whole text; the others are searched in the prose.\<close>

definition FORBIDDEN :: "unidata \<Rightarrow> (rx \<times> string) list" where
  "FORBIDDEN ud =
     [(seqs [word_edge ud, one_of [''TODO'', ''TBD'', ''FIXME''], word_edge ud], ''unfinished marker''),
      (local_path_rx, ''absolute local path''),
      (secret_rx ud, ''token-like secret''),
      (seqs [literal (u ''-----BEGIN ''), Many True (Ch (\<lambda>c. upper c \<or> c = 32)), literal (u ''PRIVATE KEY-----'')], ''private key''),
      (bearer_rx, ''token-like bearer credential''),
      (publication_rx ud, ''publication command''),
      (published_rx ud, ''publication claim''),
      (literal (u ''http://t.cekat.ai''), ''insecure production origin''),
      (ingest_rx ud, ''wrong ingest path''),
      (cookie_rx, ''visitor cookie without its leading underscore''),
      (only_500_rx ud, ''stale retry claim (only HTTP 500)'')]"

definition WHOLE_TEXT_LABELS :: "string list" where
  "WHOLE_TEXT_LABELS =
     [''unfinished marker'', ''absolute local path'', ''token-like secret'', ''private key'', ''token-like bearer credential'',
      ''publication command'', ''insecure production origin'', ''wrong ingest path'',
      ''visitor cookie without its leading underscore'']"

definition host_rx :: "unidata \<Rightarrow> rx" where
  "host_rx ud =
     seqs [word_edge ud, Group (seqs [Many True (Ch (\<lambda>c. lower_ascii c \<or> decimal_ascii c \<or> c = 46 \<or> c = 45)), literal (u ''cekat.ai'')]),
       word_edge ud]"

definition ALLOWED_HOSTS :: "ustr list" where
  "ALLOWED_HOSTS = map u [''t.cekat.ai'', ''schemas.cekat.ai'', ''golang.cekat.ai'']"

definition header_rx :: rx where
  "header_rx = lit_ci (u ''x-cekat-visitor-id'')"

definition event_rx :: rx where
  "event_rx = seqs [lit_ci (u ''that''), some (Ch is_space), maybe (seqs [lit_ci (u ''the''), some (Ch is_space)]),
     lit_ci (u ''event''), maybe (lit_ci (u ''s''))]"

definition exactly_once_rx :: rx where
  "exactly_once_rx = seqs [lit_ci (u ''exactly''), Ch (\<lambda>c. c = 45 \<or> c = 32), lit_ci (u ''once'')]"

definition claim_rx :: "unidata \<Rightarrow> rx" where
  "claim_rx ud =
     alts
      [seqs [word_edge ud, lit_ci (u ''durabl''), Ch (\<lambda>c. fold_case c \<in> {101, 121}), some (Ch is_space),
         one_of_ci [''stored'', ''persisted'', ''saved'', ''storage'', ''persistence'', ''delivery''], word_edge ud],
       seqs [word_edge ud, lit_ci (u ''guarantee''), maybe (Ch (\<lambda>c. fold_case c \<in> {115, 100})), some (Ch is_space),
         alts [lit_ci (u ''delivery''), lit_ci (u ''persistence''), lit_ci (u ''storage''), lit_ci (u ''deduplication''), event_rx],
         word_edge ud],
       seqs [word_edge ud, exactly_once_rx, some (Ch is_space), one_of_ci [''delivery'', ''processing'', ''semantics''], word_edge ud],
       seqs [word_edge ud, one_of_ci [''delivered'', ''processed'', ''ingested'', ''stored''], some (Ch is_space), exactly_once_rx,
         word_edge ud]]"

definition negation_rx :: "unidata \<Rightarrow> rx" where
  "negation_rx ud =
     seqs [word_edge ud,
       alts (map lit_ci [u ''not'', u ''never'', u ''no'', u ''without'', u ''cannot'', u ''isn'' @ [39] @ u ''t'',
         u ''doesn'' @ [39] @ u ''t'', u ''don'' @ [39] @ u ''t'', u ''nor'']),
       word_edge ud]"

definition ten_seconds_rx :: "unidata \<Rightarrow> rx" where
  "ten_seconds_rx ud =
     seqs [word_edge ud, literal (u ''10''), spaces,
       alts [lit_ci (u ''s''), seqs [lit_ci (u ''second''), maybe (lit_ci (u ''s''))]], word_edge ud]"

definition timeout_word_rx :: "unidata \<Rightarrow> rx" where
  "timeout_word_rx ud = seqs [word_edge ud, lit_ci (u ''timeout''), word_edge ud]"

definition stale_timeout_rx :: "unidata \<Rightarrow> rx" where
  "stale_timeout_rx ud =
     alts [seqs [timeout_word_rx ud, Many False (Ch (\<lambda>c. c \<noteq> 46)), ten_seconds_rx ud],
           seqs [ten_seconds_rx ud, Many False (Ch (\<lambda>c. c \<noteq> 46)), timeout_word_rx ud]]"

definition link_rx :: rx where
  "link_rx =
     seqs [not_after (\<lambda>c. c = 33), literal [91], Many True (Ch (\<lambda>c. c \<noteq> 93)), literal [93, 40],
       Group (some (Ch (\<lambda>c. c \<noteq> 41 \<and> \<not> is_space c))),
       maybe (seqs [some (Ch is_space), literal [34], Many True (Ch (\<lambda>c. c \<noteq> 34)), literal [34]]), literal [41]]"

definition sentence_rx :: rx where
  "sentence_rx =
     seqs [some (Ch (\<lambda>c. c \<notin> {46, 33, 63, 10})), alts [Ch (\<lambda>c. c \<in> {46, 33, 63}), line_end]]"

definition scheme_rx :: rx where
  "scheme_rx =
     seqs [text_start, Ch (\<lambda>c. lower_ascii (fold_case c)),
       Many True (Ch (\<lambda>c. lower_ascii (fold_case c) \<or> decimal_ascii c \<or> c \<in> {43, 46, 45})), literal (u '':'')]"

section \<open>Prose, anchors, lines\<close>

definition fence :: "ustr \<Rightarrow> bool" where
  "fence line \<longleftrightarrow> starts_with [96, 96, 96] (py_lstrip line) \<or> starts_with [126, 126, 126] (py_lstrip line)"

definition inline_code_rx :: rx where
  "inline_code_rx = seqs [literal [96], Group (Many True (Ch (\<lambda>c. c \<noteq> 96))), literal [96]]"

definition without_code :: "ustr \<Rightarrow> ustr" where
  "without_code line = re_sub inline_code_rx (\<lambda>_. [96] @ u ''code'' @ [96]) line"

primrec strip_lines :: "bool \<Rightarrow> ustr list \<Rightarrow> ustr list" where
  "strip_lines in_fence [] = []"
| "strip_lines in_fence (line # lines) =
     (if fence line then [] # strip_lines (\<not> in_fence) lines
      else (if in_fence then [] else without_code line) # strip_lines in_fence lines)"

definition strip_code :: "ustr \<Rightarrow> ustr" where
  "strip_code s = join_with [10] (strip_lines False (split_on 10 s))"

definition github_anchor :: "unidata \<Rightarrow> ustr \<Rightarrow> ustr" where
  "github_anchor ud heading =
     (let plain = py_lower (re_sub inline_code_rx hit_group (py_strip heading))
      in map (\<lambda>c. if is_space c then 45 else c) (filter (\<lambda>c. is_word ud c \<or> is_space c \<or> c = 45) plain))"

definition heading_rx :: rx where
  "heading_rx =
     seqs [text_start, literal (u ''#''), maybe (literal (u ''#'')), maybe (literal (u ''#'')), maybe (literal (u ''#'')), maybe (literal (u ''#'')),
       maybe (literal (u ''#'')), some (Ch is_space), Group (seqs [Ch (\<lambda>c. c \<noteq> 10), Many False (Ch (\<lambda>c. c \<noteq> 10))]), spaces,
       Many True (literal (u ''#'')), spaces, text_end]"

definition numbered :: "ustr \<Rightarrow> nat \<Rightarrow> ustr" where
  "numbered slug count = (if count = 0 then slug else slug @ u ''-'' @ str_of_nat count)"

primrec anchor_lines :: "unidata \<Rightarrow> bool \<Rightarrow> (ustr, nat) pydict \<Rightarrow> ustr list \<Rightarrow> ustr list" where
  "anchor_lines ud in_fence found [] = []"
| "anchor_lines ud in_fence found (line # lines) =
     (if fence line then anchor_lines ud (\<not> in_fence) found lines
      else (case (re_match heading_rx line, in_fence) of
              (Some h, False) \<Rightarrow>
                (let slug = github_anchor ud (hit_group h);
                     count = (case dict_get found slug of Some n \<Rightarrow> n | None \<Rightarrow> 0)
                 in numbered slug count # anchor_lines ud in_fence (dict_set slug (count + 1) found) lines)
            | _ \<Rightarrow> anchor_lines ud in_fence found lines))"

definition anchors :: "unidata \<Rightarrow> ustr \<Rightarrow> ustr list" where
  "anchors ud s = anchor_lines ud False [] (split_on 10 s)"

definition line_of :: "ustr \<Rightarrow> nat \<Rightarrow> nat" where
  "line_of s i = count_list (take i s) 10 + 1"

section \<open>Problems\<close>

datatype complaint =
    Forbidden string ustr
  | UnknownHost ustr
  | HeaderSpelling ustr
  | PositiveClaim ustr
  | StaleTimeout ustr
  | AbsoluteLink ustr
  | BrokenLink ustr
  | LeavesRepository ustr
  | MissingHeading ustr
  | MissingTerm ustr
  | MissingDocument
  | NotLinked ustr
  | MatrixInvalid matrix_error
  | FloorNotNamed ustr ustr
  | FrameworkNotNamed ustr
  | OutOfDate

record doc_problem =
  pb_path :: ustr
  pb_line :: nat
  pb_what :: complaint

definition problem_at :: "ustr \<Rightarrow> nat \<Rightarrow> complaint \<Rightarrow> doc_problem" where
  "problem_at path line what = \<lparr>pb_path = path, pb_line = line, pb_what = what\<rparr>"

section \<open>The text of one document\<close>

definition forbidden_problems :: "unidata \<Rightarrow> ustr \<Rightarrow> ustr \<Rightarrow> doc_problem list" where
  "forbidden_problems ud path s =
     concat (map (\<lambda>(pattern, label).
       (let source = (if label \<in> set WHOLE_TEXT_LABELS then s else strip_code s)
        in map (\<lambda>h. problem_at path (line_of source (hit_start h)) (Forbidden label (hit_text h))) (re_finditer pattern source)))
       (FORBIDDEN ud))"

definition host_problems :: "unidata \<Rightarrow> ustr \<Rightarrow> ustr \<Rightarrow> doc_problem list" where
  "host_problems ud path s =
     map (\<lambda>h. problem_at path (line_of s (hit_start h)) (UnknownHost (hit_group h)))
       (filter (\<lambda>h. hit_group h \<notin> set ALLOWED_HOSTS) (re_finditer (host_rx ud) s))"

definition header_problems :: "ustr \<Rightarrow> ustr \<Rightarrow> doc_problem list" where
  "header_problems path s =
     map (\<lambda>h. problem_at path (line_of s (hit_start h)) (HeaderSpelling (hit_text h)))
       (filter (\<lambda>h. hit_text h \<notin> {u ''X-Cekat-Visitor-ID'', u ''x-cekat-visitor-id''}) (re_finditer header_rx s))"

definition sentence_problems :: "unidata \<Rightarrow> ustr \<Rightarrow> ustr \<Rightarrow> doc_problem list" where
  "sentence_problems ud path prose =
     concat (map (\<lambda>h.
       (let sentence = hit_text h; line = line_of prose (hit_start h); shown = take 100 (py_strip sentence)
        in (if re_search (claim_rx ud) sentence \<noteq> None \<and> re_search (negation_rx ud) sentence = None
            then [problem_at path line (PositiveClaim shown)] else []) @
           (if re_search (stale_timeout_rx ud) sentence \<noteq> None then [problem_at path line (StaleTimeout shown)] else [])))
       (re_finditer sentence_rx prose))"

section \<open>Links\<close>

datatype node = TextFile ustr | Folder

record world =
  w_root :: "ustr list"
  w_node :: "ustr list \<Rightarrow> node option"

text \<open>\<open>resolve\<close> below a directory, without links: \<open>..\<close> removes the last component and stays at the top.\<close>

definition resolve_step :: "ustr list \<Rightarrow> ustr \<Rightarrow> ustr list" where
  "resolve_step dir c = (if c = [] \<or> c = u ''.'' then dir else if c = u ''..'' then butlast dir else dir @ [c])"

definition resolve_from :: "ustr list \<Rightarrow> ustr \<Rightarrow> ustr list" where
  "resolve_from dir path = foldl resolve_step dir (split_on 47 path)"

definition is_md :: "ustr list \<Rightarrow> bool" where
  "is_md dest \<longleftrightarrow>
     (case rpartition_at 46 (if dest = [] then [] else last dest) of
        (stem, dotted, ext) \<Rightarrow> dotted \<and> stem \<noteq> [] \<and> ext = u ''md'')"

definition link_problem :: "unidata \<Rightarrow> world \<Rightarrow> ustr \<Rightarrow> nat \<Rightarrow> ustr \<Rightarrow> exn + doc_problem list" where
  "link_problem ud w path line target =
     (if re_match scheme_rx target \<noteq> None then Inr []
      else (case partition_at 35 target of
        (file_part, _, anchor) \<Rightarrow>
          if starts_with (u ''/'') file_part then Inr [problem_at path line (AbsoluteLink target)]
          else (let here = resolve_from (w_root w) path;
                    dest = (if file_part = [] then here else resolve_from (butlast here) file_part)
                in case w_node w dest of
                     None \<Rightarrow> Inr [problem_at path line (BrokenLink target)]
                   | Some n \<Rightarrow>
                       if take (length (w_root w)) dest \<noteq> w_root w then Inr [problem_at path line (LeavesRepository target)]
                       else if anchor \<noteq> [] \<and> is_md dest
                       then (case n of
                               Folder \<Rightarrow> Inl FileRaised
                             | TextFile s \<Rightarrow>
                                 Inr (if anchor \<notin> set (anchors ud s) then [problem_at path line (MissingHeading target)] else []))
                       else Inr [])))"

definition link_problems :: "unidata \<Rightarrow> world \<Rightarrow> ustr \<Rightarrow> ustr \<Rightarrow> exn + doc_problem list" where
  "link_problems ud w path prose =
     bindE (mapE (\<lambda>h. link_problem ud w path (line_of prose (hit_start h)) (hit_group h)) (re_finditer link_rx prose))
       (\<lambda>pss. Inr (concat pss))"

definition audit_text :: "unidata \<Rightarrow> world \<Rightarrow> ustr \<Rightarrow> ustr \<Rightarrow> exn + doc_problem list" where
  "audit_text ud w path s =
     bindE (link_problems ud w path (strip_code s)) (\<lambda>links.
       Inr (forbidden_problems ud path s @ host_problems ud path s @ header_problems path s @
            sentence_problems ud path (strip_code s) @ links))"

section \<open>Terms, floors, and the compatibility page\<close>

definition require_terms :: "ustr \<Rightarrow> ustr \<Rightarrow> ustr list \<Rightarrow> doc_problem list" where
  "require_terms path s terms =
     map (\<lambda>term. problem_at path 1 (MissingTerm term)) (filter (\<lambda>term. \<not> occurs_in term s) terms)"

definition number_rx :: "unidata \<Rightarrow> rx" where
  "number_rx ud = seqs [some (digit_rx ud), Many True (seqs [literal (u ''.''), some (digit_rx ud)])]"

definition runtime_token :: "unidata \<Rightarrow> ustr \<Rightarrow> ustr" where
  "runtime_token ud declared =
     (if starts_with (u ''net'') declared then declared
      else (case re_search (number_rx ud) declared of
              None \<Rightarrow> declared
            | Some h \<Rightarrow>
                (let parts = split_on 46 (hit_text h)
                 in if length parts = 3 \<and> parts ! 2 = u ''0'' then join_with (u ''.'') (take 2 parts) else hit_text h)))"

definition language_name :: "ustr \<Rightarrow> ustr" where
  "language_name language = (case dict_get LANGUAGE_NAMES language of Some s \<Rightarrow> s | None \<Rightarrow> [])"

definition code :: "ustr \<Rightarrow> ustr" where
  "code s = [96] @ s @ [96]"

definition floor_row :: "json \<Rightarrow> ustr" where
  "floor_row entry =
     u ''| ['' @ language_name (text_of entry ''language'') @ u ''](../'' @ text_of entry ''language'' @ u ''/README.md) | '' @
     join_with (u ''; '') (map (\<lambda>r. text_of r ''name'' @ u '' '' @ code (text_of r ''declared'')) (items_of entry ''runtimes'')) @
     u '' | '' @ observed_range entry @ u '' | ['' @ last (split_on 47 (text_of entry ''evidence'')) @ u ''](../'' @
     text_of entry ''evidence'' @ u '') |''"

definition framework_row :: "json \<Rightarrow> ustr" where
  "framework_row f =
     u ''| '' @ text_of f ''name'' @ u '' | '' @ text_of f ''supported'' @ u '' | '' @
     (if strings_of f ''tested'' = [] then [8212] else join_with (u '', '') (strings_of f ''tested'')) @ u '' |''"

definition language_section :: "json \<Rightarrow> ustr list" where
  "language_section entry =
     [[], u ''## '' @ language_name (text_of entry ''language''), [],
      u ''| Framework or integration | Supported | Tested versions |'', u ''| --- | --- | --- |''] @
     map framework_row (items_of entry ''frameworks'') @
     [[], u ''CI: '' @
        join_with (u ''; '') (map (\<lambda>ci. code (text_of ci ''job'') @ u '' job '' @ code (text_of ci ''key'') @ u '': '' @
          join_with (u '', '') (strings_of ci ''values'')) (items_of entry ''ci'')) @
        u ''. Release readiness installs '' @ code (text_of (member_json entry ''release_readiness'') ''key'') @ u '' '' @
        text_of (member_json entry ''release_readiness'') ''value'' @ u ''.''] @
     (if items_of entry ''end_of_support'' = [] then []
      else [[], u ''Upcoming end of support: '' @
        join_with (u ''; '') (map (\<lambda>l. text_of l ''component'' @ u '' '' @ text_of l ''line'' @ u '' on '' @ text_of l ''date'')
          (items_of entry ''end_of_support'')) @ u ''.''])"

definition render_compatibility :: "json \<Rightarrow> ustr" where
  "render_compatibility matrix =
     join_with [10]
      ([u ''# SDK compatibility'', [],
        u ''<!-- Generated from ci/compatibility-matrix.json by scripts/audit-docs.py --write-compatibility. Do not edit by hand. -->'',
        [],
        u ''Verified on '' @ text_of matrix ''verified_on'' @ u ''. Each SDK'' @ [39] @
          u ''s evidence document records the official sources, exact observed versions, and test results; '' @
          u ''['' @ code (u ''ci/compatibility-matrix.json'') @
          u ''](../ci/compatibility-matrix.json) is checked against package metadata, CI, and that evidence by '' @
          u ''['' @ code (u ''scripts/validate-compatibility-matrix.py'') @ u ''](../scripts/validate-compatibility-matrix.py).'',
        [],
        u ''| SDK | Runtime floor | Tested in CI (minimum'' @ arrow @ u ''current) | Evidence |'',
        u ''| --- | --- | --- | --- |''] @
       map floor_row (items_of matrix ''languages'') @
       concat (map language_section (items_of matrix ''languages'')) @
       [[], u ''## Keeping this current'', [],
        u ''When a runtime floor, CI row, or framework range changes, update the package metadata, the CI workflow, the language'' @
          [39] @ u ''s evidence document, and '' @ code (u ''ci/compatibility-matrix.json'') @
          u '' together, then regenerate this page with '' @ code (u ''python3 scripts/audit-docs.py --write-compatibility'') @
          u ''. The release readiness preflight fails when a listed line has reached end of support or the matrix was verified more than 30 days earlier.'',
        []])"

section \<open>The audit\<close>

definition file_text :: "world \<Rightarrow> ustr \<Rightarrow> ustr option" where
  "file_text w path = (case w_node w (resolve_from (w_root w) path) of Some (TextFile s) \<Rightarrow> Some s | _ \<Rightarrow> None)"

definition audit_file :: "unidata \<Rightarrow> world \<Rightarrow> ustr \<Rightarrow> exn + doc_problem list" where
  "audit_file ud w path =
     (case file_text w path of
        None \<Rightarrow> Inr [problem_at path 1 MissingDocument]
      | Some s \<Rightarrow> audit_text ud w path s)"

definition link_targets :: "ustr list" where
  "link_targets = ROOT_DOCUMENTS @ [CONFORMANCE_GUIDE] @ LANGUAGE_READMES"

definition readme_problems :: "world \<Rightarrow> doc_problem list" where
  "readme_problems w =
     (let readme = (case file_text w (u ''README.md'') of Some s \<Rightarrow> s | None \<Rightarrow> [])
      in map (\<lambda>target. problem_at (u ''README.md'') 1 (NotLinked target))
           (filter (\<lambda>target. \<not> occurs_in (u ''](''  @ target @ u '')'') readme \<and> \<not> occurs_in (u ''](''  @ target @ u ''#'') readme)
              link_targets))"

definition term_problems :: "world \<Rightarrow> doc_problem list" where
  "term_problems w =
     concat (map (\<lambda>(path, terms). case file_text w path of Some s \<Rightarrow> require_terms path s terms | None \<Rightarrow> [])
       (REQUIRED_TERMS @ map (\<lambda>path. (path, LANGUAGE_README_TERMS)) LANGUAGE_READMES))"

definition matrix_problems :: "unidata \<Rightarrow> world \<Rightarrow> json \<Rightarrow> doc_problem list" where
  "matrix_problems ud w matrix =
     concat (map (\<lambda>entry.
       (let path = text_of entry ''language'' @ u ''/README.md'' in
        case file_text w path of
          None \<Rightarrow> []
        | Some s \<Rightarrow>
            map (\<lambda>r. problem_at path 1 (FloorNotNamed (text_of r ''name'') (runtime_token ud (text_of r ''declared''))))
              (filter (\<lambda>r. \<not> occurs_in (runtime_token ud (text_of r ''declared'')) s) (items_of entry ''runtimes'')) @
            map (\<lambda>name. problem_at path 1 (FrameworkNotNamed name))
              (filter (\<lambda>name. \<not> occurs_in name s)
                 (concat (map (\<lambda>f. map py_strip (split_on 44 (text_of f ''name''))) (items_of entry ''frameworks''))))))
       (items_of matrix ''languages''))"

definition page_problems :: "world \<Rightarrow> json \<Rightarrow> doc_problem list" where
  "page_problems w matrix =
     (case file_text w (u ''docs/compatibility.md'') of
        Some s \<Rightarrow> if s \<noteq> render_compatibility matrix then [problem_at (u ''docs/compatibility.md'') 1 OutOfDate] else []
      | None \<Rightarrow> [])"

definition load_and_validate :: "host \<Rightarrow> world \<Rightarrow> matrix_error + json" where
  "load_and_validate host w =
     (case file_text w (u ''ci/compatibility-matrix.json'') of
        None \<Rightarrow> Inl (Uncaught FileRaised)
      | Some s \<Rightarrow> bindE (validate_matrix host (file_text w) None None s) (\<lambda>(matrix, _). Inr matrix))"

definition audit :: "host \<Rightarrow> world \<Rightarrow> exn + doc_problem list" where
  "audit host w =
     bindE (mapE (audit_file (host_unicode host) w) AUDITED) (\<lambda>pss.
       (let problems = concat pss @ readme_problems w @ term_problems w in
        case load_and_validate host w of
          Inl (Uncaught e) \<Rightarrow> Inl e
        | Inl e \<Rightarrow> Inr (problems @ [problem_at (u ''ci/compatibility-matrix.json'') 1 (MatrixInvalid e)])
        | Inr matrix \<Rightarrow> Inr (problems @ matrix_problems (host_unicode host) w matrix @ page_problems w matrix)))"

text \<open>With \<open>--write-compatibility\<close> the page is written; otherwise status one tells that there are problems.\<close>

datatype docs_outcome = Wrote ustr | MatrixRejected matrix_error | Audited nat "doc_problem list" | Broke exn

definition docs_main :: "host \<Rightarrow> world \<Rightarrow> bool \<Rightarrow> docs_outcome" where
  "docs_main host w write_compatibility =
     (if write_compatibility
      then (case load_and_validate host w of
              Inl (Uncaught e) \<Rightarrow> Broke e
            | Inl e \<Rightarrow> MatrixRejected e
            | Inr matrix \<Rightarrow> Wrote (render_compatibility matrix))
      else (case audit host w of
              Inl e \<Rightarrow> Broke e
            | Inr problems \<Rightarrow> Audited (if problems = [] then 0 else 1) problems))"

definition written :: "world \<Rightarrow> ustr \<Rightarrow> ustr \<Rightarrow> world" where
  "written w path s = w\<lparr>w_node := (w_node w)(resolve_from (w_root w) path \<mapsto> TextFile s)\<rparr>"

end
