(* ===== verification/MatrixSample.thy ===== *)
theory MatrixSample
  imports Matrix "HOL-Library.Code_Target_Nat"
begin

text \<open>
  A small matrix and a repository that agrees with it, checked step by step: the concrete input of the
  properties of the compatibility matrix.
\<close>

definition ascii_host :: host where
  "ascii_host = \<lparr>host_unicode = \<lparr>ud_alnum = (\<lambda>c. False), ud_digit = (\<lambda>c. None)\<rparr>, host_limit = 100, host_container = (\<lambda>_. [])\<rparr>"

definition fields :: "(string \<times> json) list \<Rightarrow> (ustr, json) pydict" where
  "fields kvs = map (\<lambda>kv. (u (fst kv), snd kv)) kvs"

definition obj :: "(string \<times> json) list \<Rightarrow> json" where
  "obj kvs = JObj (fields kvs)"

definition text_json :: "string \<Rightarrow> json" where
  "text_json s = JStr (u s)"

definition sample_profile :: "string \<Rightarrow> json" where
  "sample_profile name = obj [(''name'', text_json name), (''ci_value'', text_json ''1''), (''observed'', text_json ''1.0'')]"

definition sample_entry :: "ustr \<Rightarrow> json" where
  "sample_entry language =
     obj [(''language'', JStr language), (''evidence'', text_json ''e''),
       (''runtimes'', JArr [obj [(''name'', text_json ''r''), (''declared'', text_json ''1''),
          (''declared_in'', obj [(''file'', text_json ''m''), (''kind'', text_json ''go-directive'')])]]),
       (''ci'', JArr [obj [(''job'', text_json ''j''), (''key'', text_json ''k''), (''values'', JArr [text_json ''1''])]]),
       (''profiles'', JArr [sample_profile ''minimum'', sample_profile ''current'']),
       (''release_readiness'', obj [(''key'', text_json ''k''), (''value'', text_json ''1'')]),
       (''frameworks'', JArr [obj [(''name'', text_json ''f''), (''supported'', text_json ''s''),
          (''declared_in'', obj [(''file'', text_json ''m''), (''contains'', text_json ''go'')]), (''tested'', JArr [text_json ''1.0''])]]),
       (''end_of_support'', JArr [obj [(''component'', text_json ''c''), (''line'', text_json ''l''), (''date'', text_json ''2027-01'')]])]"

definition sample_matrix :: json where
  "sample_matrix = obj [(''schema_version'', JInt 1), (''verified_on'', text_json ''2026-12-02''),
     (''languages'', JArr (map sample_entry MATRIX_LANGUAGES))]"

definition sample_ci :: ustr where
  "sample_ci = join_with [10] [u ''  j:'', u ''   matrix:'', u ''    k: 1'']"

definition sample_release :: ustr where
  "sample_release =
     join_with [10] (u ''  package:'' #
       concat (map (\<lambda>l. [u ''  - if: matrix.language == '' @ [39] @ l @ [39], u ''    k: 1'']) MATRIX_LANGUAGES))"

definition sample_repo :: repository where
  "sample_repo path =
     (if path = u ''e'' then Some (u ''1.0 2027-01'')
      else if path = u ''m'' then Some (u ''go 1'')
      else if path = u ''.github/workflows/ci.yml'' then Some sample_ci
      else if path = u ''.github/workflows/release-readiness.yml'' then Some sample_release
      else None)"

definition sample_day :: date where
  "sample_day = (2026, 12, 3)"

lemma bindE_weak: "m = m' \<Longrightarrow> bindE m f = bindE m' f"
  by simp

lemma keys_obj: "map fst kvs = ks \<Longrightarrow> keys (obj kvs) ks loc = Inr (fields kvs)"
  by (force simp: keys_def obj_def fields_def dict_keys_def image_image)

lemma member_fields: "member_of (fields kvs) n = (case map_of kvs n of Some v \<Rightarrow> v | None \<Rightarrow> JNull)"
  by (induction kvs) (auto simp: member_of_def fields_def dict_get_def)

lemma obj_JObj: "obj kvs = JObj (fields kvs)"
  by (rule obj_def)

lemma a_string_json_str: "py_strip (u s) \<noteq> [] \<Longrightarrow> a_string (text_json s) loc = Inr (u s)"
  by (simp add: a_string_def text_json_def)

lemma case_obj [simp]: "(case obj kvs of JObj d \<Rightarrow> f d | _ \<Rightarrow> y) = f (fields kvs)"
  by (simp add: obj_def)

lemma json_str_arrays [simp]: "obj kvs \<noteq> JNull" "obj kvs \<noteq> JArr vs" "(case JArr xs of JArr ys \<Rightarrow> f ys | _ \<Rightarrow> y) = f xs"
  by (simp_all add: obj_def)

lemma sample_texts:
  "py_strip (u ''r'') \<noteq> []" "py_strip (u ''m'') \<noteq> []" "py_strip (u ''1'') \<noteq> []" "py_strip (u ''go-directive'') \<noteq> []"
  "py_strip (u ''j'') \<noteq> []" "py_strip (u ''k'') \<noteq> []" "py_strip (u ''s'') \<noteq> []" "py_strip (u ''f'') \<noteq> []" "py_strip (u ''go'') \<noteq> []"
  "py_strip (u ''1.0'') \<noteq> []" "py_strip (u ''e'') \<noteq> []" "py_strip (u ''c'') \<noteq> []" "py_strip (u ''l'') \<noteq> []" "py_strip (u ''2027-01'') \<noteq> []"
  "py_strip (u ''2026-12-02'') \<noteq> []"
  by (simp_all add: str_eval)

lemmas sample_steps = keys_obj member_fields a_string_json_str string_at_def array_at_def sample_texts

lemma sample_m: "repo_file sample_repo (text_json ''m'') loc = Inr (u ''go 1'')"
proof -
  have "repo_path_ok (u ''m'')" by code_simp
  then show ?thesis by (simp add: repo_file_def a_string_json_str sample_texts sample_repo_def)
qed

lemma sample_e: "repo_file sample_repo (text_json ''e'') loc = Inr (u ''1.0 2027-01'')"
proof -
  have "repo_path_ok (u ''e'')" by code_simp
  then show ?thesis by (simp add: repo_file_def a_string_json_str sample_texts sample_repo_def)
qed

lemma sample_floor: "declared_runtime ascii_host (u ''go 1'') (u ''go-directive'') = Inr (u ''1'')"
  by code_simp

lemma sample_runtime: "check_runtime ascii_host sample_repo loc (obj [(''name'', text_json ''r''), (''declared'', text_json ''1''),
          (''declared_in'', obj [(''file'', text_json ''m''), (''kind'', text_json ''go-directive'')])]) = Inr ()"
  by (simp cong: bindE_weak add: check_runtime_def sample_steps sample_m sample_floor)

lemma sample_ci_values: "ci_matrix_values sample_ci (u ''j'') (u ''k'') = Inr [u ''1'']"
  by code_simp

lemma sample_job: "check_ci sample_ci loc (obj [(''job'', text_json ''j''), (''key'', text_json ''k''), (''values'', JArr [text_json ''1''])]) = Inr [u ''1'']"
  by (simp cong: bindE_weak add: check_ci_def strings_def sample_steps sample_ci_values)

lemma sample_profile_ok:
  "check_profile ascii_host (u ''1.0 2027-01'') [u ''1''] loc (sample_profile name) = Inr (u ''1'')"
proof -
  have "re_fullmatch (version_rx (host_unicode ascii_host)) (u ''1.0'')" "occurs_in (u ''1.0'') (u ''1.0 2027-01'')" by code_simp+
  then show ?thesis
    by (simp cong: bindE_weak add: check_profile_def sample_profile_def in_evidence_def sample_steps)
qed

lemma sample_profiles:
  "check_profiles ascii_host (u ''1.0 2027-01'') [u ''1''] loc (JArr [sample_profile ''minimum'', sample_profile ''current'']) = Inr (u ''1'')"
  by (simp add: check_profiles_def sample_profile_ok)
    (simp add: sample_profile_def name_or_null_def obj_def member_fields text_json_def)

lemma sample_values: "\<forall>l\<in>set MATRIX_LANGUAGES. release_readiness_values sample_release l (u ''k'') = Inr [u ''1'']"
  by code_simp

lemma sample_release_ok:
  "l \<in> set MATRIX_LANGUAGES \<Longrightarrow> check_release sample_release l (u ''1'') loc (obj [(''key'', text_json ''k''), (''value'', text_json ''1'')]) = Inr ()"
  using sample_values by (simp cong: bindE_weak add: check_release_def sample_steps)

lemma sample_frameworks:
  "check_frameworks sample_repo (u ''1.0 2027-01'') loc [obj [(''name'', text_json ''f''), (''supported'', text_json ''s''),
          (''declared_in'', obj [(''file'', text_json ''m''), (''contains'', text_json ''go'')]), (''tested'', JArr [text_json ''1.0''])]] = Inr ()"
proof -
  have "occurs_in (u ''1.0'') (u ''1.0 2027-01'')" "occurs_in (u ''go'') (u ''go 1'')" by code_simp+
  then have "check_framework sample_repo (u ''1.0 2027-01'') loc (obj [(''name'', text_json ''f''), (''supported'', text_json ''s''),
          (''declared_in'', obj [(''file'', text_json ''m''), (''contains'', text_json ''go'')]), (''tested'', JArr [text_json ''1.0''])]) = Inr ()"
    by (simp cong: bindE_weak add: check_framework_def Let_def strings_def in_evidence_def sample_steps sample_m)
  then show ?thesis
    by (simp add: check_frameworks_def name_or_null_def obj_JObj member_fields text_json_def unhashable_def)
qed

lemma sample_dates:
  "parse_date (host_unicode ascii_host) loc (u ''2027-01'') = Inr (2027, 1, 31)"
  "parse_date (host_unicode ascii_host) loc (u ''2026-12-02'') = Inr (2026, 12, 2)"
  "re_fullmatch (full_date_rx (host_unicode ascii_host)) (u ''2026-12-02'')"
  by code_simp+


lemma sample_days: "ordinal (2027, 1, 31) = 740012" "ordinal sample_day = 739953" "ordinal (2026, 12, 2) = 739952"
  by code_simp+

lemma sample_support:
  "check_support ascii_host l (u ''1.0 2027-01'') (Some sample_day) loc
     (obj [(''component'', text_json ''c''), (''line'', text_json ''l''), (''date'', text_json ''2027-01'')]) =
   Inr [support_warning l (u ''c l'') (u ''2027-01'') 59]"
proof -
  have "occurs_in (u ''2027-01'') (u ''1.0 2027-01'')" "u ''c'' @ u '' '' @ u ''l'' = u ''c l''" by code_simp+
  then show ?thesis
    by (simp cong: bindE_weak add: check_support_def in_evidence_def sample_steps sample_dates sample_days sample_days(1) [simplified] WARNING_DAYS_def)
qed

abbreviation "sample_setting \<equiv>
  \<lparr>set_repo = sample_repo, set_ci = sample_ci, set_release = sample_release, set_as_of = Some sample_day\<rparr>"

lemma sample_entry_ok:
  assumes "l \<in> set MATRIX_LANGUAGES"
  shows "check_entry ascii_host sample_setting l (sample_entry l) = Inr [support_warning l (u ''c l'') (u ''2027-01'') 59]"
  using sample_release_ok [OF assms]
  by (simp cong: bindE_weak add: check_entry_def Let_def sample_entry_def sample_steps sample_e sample_runtime sample_job
      sample_profiles sample_frameworks sample_support)

lemma sample_accepted:
  "check_document ascii_host sample_repo (Some sample_day) (Some 30) sample_matrix =
     Inr (sample_matrix, map (\<lambda>l. support_warning l (u ''c l'') (u ''2027-01'') 59) MATRIX_LANGUAGES)"
proof -
  have workflows: "read_workflow sample_repo ''ci.yml'' = Inr sample_ci" "read_workflow sample_repo ''release-readiness.yml'' = Inr sample_release"
    by code_simp+
  have header: "check_header ascii_host (fields [(''schema_version'', JInt 1), (''verified_on'', text_json ''2026-12-02''),
      (''languages'', JArr (map sample_entry MATRIX_LANGUAGES))]) = Inr (2026, 12, 2)"
    by (simp cong: bindE_weak add: check_header_def Let_def scalar_key_def sample_steps sample_dates)
  have entries: "mapE (\<lambda>(language, entry). check_entry ascii_host sample_setting language entry) (zip MATRIX_LANGUAGES (map sample_entry MATRIX_LANGUAGES)) =
      Inr (map (\<lambda>l. [support_warning l (u ''c l'') (u ''2027-01'') 59]) MATRIX_LANGUAGES)"
    using sample_entry_ok by (simp add: MATRIX_LANGUAGES_def)
  have names: "map language_or_null (map sample_entry MATRIX_LANGUAGES) = map JStr MATRIX_LANGUAGES"
    by (simp add: sample_entry_def language_or_null_def member_fields)
  have age: "check_age (Some sample_day) (Some 30) (2026, 12, 2) = Inr ()"
    by (simp add: check_age_def sample_days)
  show ?thesis
    using entries names
    by (simp cong: bindE_weak del: map_map add: check_document_def sample_matrix_def sample_steps header workflows age comp_def)
qed

end
