(* ===== verification/MatrixChecks.thy ===== *)
theory MatrixChecks
  imports MatrixSample
begin

text \<open>
  What \<open>scripts/validate-compatibility-matrix.py\<close> establishes about a matrix it admits: the shape of the
  document, its agreement with the repository, and the dates. Also how a date and a workflow are read.
\<close>

section \<open>The type of a matrix\<close>

text \<open>A text is not blank; a list has at least so many elements; an object has exactly these members.\<close>

datatype ty = Text | Version | Optional ty | List nat ty | Object "(string \<times> ty) list"

fun has_ty :: "json \<Rightarrow> ty \<Rightarrow> bool" where
  "has_ty v Text \<longleftrightarrow> (case v of JStr s \<Rightarrow> py_strip s \<noteq> [] | _ \<Rightarrow> False)"
| "has_ty v Version \<longleftrightarrow> (case v of JInt i \<Rightarrow> i = 1 | JFloat x \<Rightarrow> integer_value x = Some 1 | _ \<Rightarrow> False)"
| "has_ty v (Optional t) \<longleftrightarrow> v = JNull \<or> has_ty v t"
| "has_ty v (List n t) \<longleftrightarrow> (case v of JArr vs \<Rightarrow> n \<le> length vs \<and> (\<forall>w\<in>set vs. has_ty w t) | _ \<Rightarrow> False)"
| "has_ty v (Object fs) \<longleftrightarrow>
     (case v of
        JObj d \<Rightarrow> set (dict_keys d) = set (map (\<lambda>f. u (fst f)) fs) \<and> (\<forall>f\<in>set fs. has_ty (member_of d (fst f)) (snd f))
      | _ \<Rightarrow> False)"

definition runtime_ty :: ty where
  "runtime_ty = Object [(''name'', Text), (''declared'', Text), (''declared_in'', Object [(''file'', Text), (''kind'', Text)])]"

definition ci_ty :: ty where
  "ci_ty = Object [(''job'', Text), (''key'', Text), (''values'', List 1 Text)]"

definition profile_ty :: ty where
  "profile_ty = Object [(''name'', Text), (''ci_value'', Text), (''observed'', Text)]"

definition release_ty :: ty where
  "release_ty = Object [(''key'', Text), (''value'', Text)]"

definition framework_ty :: ty where
  "framework_ty = Object [(''name'', Text), (''supported'', Text),
     (''declared_in'', Optional (Object [(''file'', Text), (''contains'', Text)])), (''tested'', List 0 Text)]"

definition support_ty :: ty where
  "support_ty = Object [(''component'', Text), (''line'', Text), (''date'', Text)]"

definition entry_ty :: ty where
  "entry_ty = Object [(''language'', Text), (''evidence'', Text), (''runtimes'', List 1 runtime_ty), (''ci'', List 1 ci_ty),
     (''profiles'', List 2 profile_ty), (''release_readiness'', release_ty), (''frameworks'', List 1 framework_ty),
     (''end_of_support'', List 0 support_ty)]"

definition matrix_ty :: ty where
  "matrix_ty = Object [(''schema_version'', Version), (''verified_on'', Text), (''languages'', List 7 entry_ty)]"

lemma keys_Inr: "keys v ks loc = Inr d \<longleftrightarrow> v = JObj d \<and> set (dict_keys d) = set (map u ks)"
  by (cases v) (auto simp: keys_def)

lemma a_string_Inr: "a_string v loc = Inr s \<longleftrightarrow> v = JStr s \<and> py_strip s \<noteq> []"
  by (cases v) (auto simp: a_string_def)

lemma a_string_ty: "a_string v loc = Inr s \<Longrightarrow> has_ty v Text"
  by (simp add: a_string_Inr)

lemma each_Inr: "each f i xs = Inr ys \<Longrightarrow> x \<in> set xs \<Longrightarrow> \<exists>j y. f j x = Inr y"
  by (induction xs arbitrary: i ys) (auto simp: bindE_Inr_iff)

lemma each_list_all2:
  "each f i xs = Inr ys \<Longrightarrow> (\<And>j x y. f j x = Inr y \<Longrightarrow> P x y) \<Longrightarrow> list_all2 P xs ys"
  by (induction xs arbitrary: i ys) (auto simp: bindE_Inr_iff)

lemma mapE_Inr_mem: "mapE f xs = Inr ys \<Longrightarrow> x \<in> set xs \<Longrightarrow> \<exists>y. f x = Inr y"
  by (induction xs arbitrary: ys) (auto simp: bindE_Inr_iff)

lemma array_at_Inr:
  "array_at d name allow_empty loc = Inr vs \<longleftrightarrow> member_of d name = JArr vs \<and> (vs \<noteq> [] \<or> allow_empty)"
  by (cases "member_of d name") (auto simp: array_at_def)

lemma strings_Inr:
  "strings allow_empty v loc = Inr ss \<Longrightarrow> v = JArr (map JStr ss) \<and> (ss \<noteq> [] \<or> allow_empty) \<and> (\<forall>s\<in>set ss. py_strip s \<noteq> [])"
proof -
  assume "strings allow_empty v loc = Inr ss"
  then obtain vs where v: "v = JArr vs" and ne: "vs \<noteq> [] \<or> allow_empty"
    and each: "each (\<lambda>i item. a_string item (loc @ [Index i])) 0 vs = Inr ss"
    by (cases v) (auto simp: strings_def split: if_splits)
  have "list_all2 (\<lambda>w s. w = JStr s \<and> py_strip s \<noteq> []) vs ss"
    by (rule each_list_all2 [OF each]) (simp add: a_string_Inr)
  then have "vs = map JStr ss \<and> (\<forall>s\<in>set ss. py_strip s \<noteq> [])"
    by (induction vs ss rule: list_all2_induct) auto
  with v ne show ?thesis by auto
qed

lemma strings_ty: "strings allow_empty v loc = Inr ss \<Longrightarrow> has_ty v (List (if allow_empty then 0 else 1) Text)"
  using strings_Inr [of allow_empty v loc ss] by (auto simp: Suc_le_eq)

lemma repo_file_ty: "repo_file repo v loc = Inr s \<Longrightarrow> has_ty v Text"
  by (auto simp: repo_file_def bindE_Inr_iff a_string_Inr)

lemma array_ty:
  "member_of d name = JArr vs \<Longrightarrow> n \<le> length vs \<Longrightarrow> (\<And>w. w \<in> set vs \<Longrightarrow> has_ty w t) \<Longrightarrow> has_ty (member_of d name) (List n t)"
  by simp

lemmas check_simps = bindE_Inr_iff keys_Inr string_at_def

lemma check_runtime_ty: "check_runtime host repo loc v = Inr x \<Longrightarrow> has_ty v runtime_ty"
  unfolding check_runtime_def runtime_ty_def
  by (auto simp: check_simps dest!: a_string_ty repo_file_ty simp del: has_ty.simps(1))

lemma check_ci_ty: "check_ci workflow loc v = Inr x \<Longrightarrow> has_ty v ci_ty"
  unfolding check_ci_def ci_ty_def
  by (auto simp: check_simps dest!: a_string_ty strings_ty simp del: has_ty.simps(1,4))

lemma check_release_ty: "check_release workflow language current loc v = Inr x \<Longrightarrow> has_ty v release_ty"
  unfolding check_release_def release_ty_def
  by (auto simp: check_simps dest!: a_string_ty simp del: has_ty.simps(1))

lemma check_support_ty: "check_support host language evidence as_of loc v = Inr x \<Longrightarrow> has_ty v support_ty"
  unfolding check_support_def support_ty_def
  by (auto simp: check_simps dest!: a_string_ty simp del: has_ty.simps(1))

lemma check_profile_ty:
  "check_profile host evidence primary loc v = Inr x \<Longrightarrow> has_ty (name_or_null v) Text \<Longrightarrow> has_ty v profile_ty"
  unfolding check_profile_def profile_ty_def
  by (auto simp: check_simps name_or_null_def dest!: a_string_ty simp del: has_ty.simps(1) split: if_splits)


lemma check_profiles_ty:
  assumes "check_profiles host evidence primary loc v = Inr x"
  shows "has_ty v (List 2 profile_ty)"
proof -
  obtain a b where v: "v = JArr [a, b]"
    and names: "name_or_null a = JStr (u ''minimum'')" "name_or_null b = JStr (u ''current'')"
    and checks: "\<exists>y l. check_profile host evidence primary l a = Inr y" "\<exists>y l. check_profile host evidence primary l b = Inr y"
    using assms unfolding check_profiles_def
    by (auto simp: bindE_Inr_iff split: json.splits list.splits if_splits)
  have "has_ty (name_or_null a) Text" "has_ty (name_or_null b) Text"
    unfolding names by (simp_all add: str_eval)
  with checks check_profile_ty show ?thesis unfolding v by auto
qed

lemma check_framework_ty: "check_framework repo evidence loc v = Inr x \<Longrightarrow> has_ty v framework_ty"
proof -
  assume "check_framework repo evidence loc v = Inr x"
  then obtain d where v: "v = JObj d" and keys: "set (dict_keys d) = set (map u [''name'', ''supported'', ''declared_in'', ''tested''])"
    and strs: "has_ty (member_of d ''name'') Text" "has_ty (member_of d ''supported'') Text"
    and declared: "member_of d ''declared_in'' = JNull \<or> has_ty (member_of d ''declared_in'') (Object [(''file'', Text), (''contains'', Text)])"
    and tested: "has_ty (member_of d ''tested'') (List 0 Text)"
    unfolding check_framework_def
    by (cases v) (auto simp: check_simps Let_def dest!: a_string_ty repo_file_ty strings_ty
        simp del: has_ty.simps(1,4) split: if_splits)
  then show ?thesis by (simp add: framework_ty_def)
qed

text \<open>What an entry passed, part by part.\<close>

abbreviation "loc_of language \<equiv> [Field ''languages'', Named (JStr language)]"

lemma check_entry_parts:
  assumes "check_entry host st language v = Inr x"
  obtains d evidence runtimes us cis ci_values current frameworks support ws where "v = JObj d"
    and "set (dict_keys d) = set (map u [''language'', ''evidence'', ''runtimes'', ''ci'', ''profiles'',
      ''release_readiness'', ''frameworks'', ''end_of_support''])"
    and "repo_file (set_repo st) (member_of d ''evidence'') (loc_of language @ [Field ''evidence'']) = Inr evidence"
    and "member_of d ''runtimes'' = JArr runtimes" "runtimes \<noteq> []" "member_of d ''ci'' = JArr cis" "cis \<noteq> []"
      "member_of d ''frameworks'' = JArr frameworks" "frameworks \<noteq> []" "member_of d ''end_of_support'' = JArr support"
    and "each (\<lambda>i. check_runtime host (set_repo st) (loc_of language @ [Field ''runtimes'', Index i])) 0 runtimes = Inr us"
      "each (\<lambda>i. check_ci (set_ci st) (loc_of language @ [Field ''ci'', Index i])) 0 cis = Inr ci_values"
      "check_profiles host evidence (hd ci_values) (loc_of language) (member_of d ''profiles'') = Inr current"
      "check_release (set_release st) language current (loc_of language @ [Field ''release_readiness'']) (member_of d ''release_readiness'') = Inr ()"
      "check_frameworks (set_repo st) evidence (loc_of language @ [Field ''frameworks'']) frameworks = Inr ()"
      "each (\<lambda>i. check_support host language evidence (set_as_of st) (loc_of language @ [Field ''end_of_support'', Index i])) 0 support = Inr ws"
    and "x = concat ws"
  using assms unfolding check_entry_def Let_def bindE_Inr_iff keys_Inr array_at_Inr by (elim exE conjE) simp

lemma check_entry_ty:
  assumes "check_entry host st language v = Inr x" "has_ty (language_or_null v) Text"
  shows "has_ty v entry_ty"
  using assms(1)
proof (rule check_entry_parts)
  fix d evidence runtimes us cis ci_values current frameworks support ws
  assume v: "v = JObj d"
    and keys: "set (dict_keys d) = set (map u [''language'', ''evidence'', ''runtimes'', ''ci'', ''profiles'',
      ''release_readiness'', ''frameworks'', ''end_of_support''])"
    and evidence: "repo_file (set_repo st) (member_of d ''evidence'') (loc_of language @ [Field ''evidence'']) = Inr evidence"
    and arrays: "member_of d ''runtimes'' = JArr runtimes" "runtimes \<noteq> []" "member_of d ''ci'' = JArr cis" "cis \<noteq> []"
      "member_of d ''frameworks'' = JArr frameworks" "frameworks \<noteq> []" "member_of d ''end_of_support'' = JArr support"
    and checks: "each (\<lambda>i. check_runtime host (set_repo st) (loc_of language @ [Field ''runtimes'', Index i])) 0 runtimes = Inr us"
      "each (\<lambda>i. check_ci (set_ci st) (loc_of language @ [Field ''ci'', Index i])) 0 cis = Inr ci_values"
      "check_profiles host evidence (hd ci_values) (loc_of language) (member_of d ''profiles'') = Inr current"
      "check_release (set_release st) language current (loc_of language @ [Field ''release_readiness'']) (member_of d ''release_readiness'') = Inr ()"
      "check_frameworks (set_repo st) evidence (loc_of language @ [Field ''frameworks'']) frameworks = Inr ()"
      "each (\<lambda>i. check_support host language evidence (set_as_of st) (loc_of language @ [Field ''end_of_support'', Index i])) 0 support = Inr ws"
  have ty: "\<And>w. w \<in> set runtimes \<Longrightarrow> has_ty w runtime_ty" "\<And>w. w \<in> set cis \<Longrightarrow> has_ty w ci_ty"
      "\<And>w. w \<in> set support \<Longrightarrow> has_ty w support_ty" "\<And>w. w \<in> set frameworks \<Longrightarrow> has_ty w framework_ty"
    using each_Inr [OF checks(1)] check_runtime_ty apply blast
    using each_Inr [OF checks(2)] check_ci_ty apply blast
    using each_Inr [OF checks(6)] check_support_ty apply blast
    using checks(5) mapE_Inr_mem check_framework_ty
    by (fastforce simp: check_frameworks_def bindE_Inr_iff Let_def split: if_splits)
  have "has_ty (member_of d ''language'') Text" using assms(2) by (simp add: v language_or_null_def)
  moreover have "has_ty (member_of d ''evidence'') Text" using evidence repo_file_ty by blast
  moreover have "has_ty (member_of d ''profiles'') (List 2 profile_ty)" using checks(3) check_profiles_ty by blast
  moreover have "has_ty (member_of d ''release_readiness'') release_ty" using checks(4) check_release_ty by blast
  moreover have "has_ty (member_of d ''runtimes'') (List 1 runtime_ty)" "has_ty (member_of d ''ci'') (List 1 ci_ty)"
      "has_ty (member_of d ''frameworks'') (List 1 framework_ty)" "has_ty (member_of d ''end_of_support'') (List 0 support_ty)"
    using arrays ty by (simp_all add: Suc_le_eq)
  ultimately show "has_ty v entry_ty" using keys by (simp add: v entry_ty_def)
qed

text \<open>What an accepted matrix passed.\<close>

definition admits ::
  "host \<Rightarrow> repository \<Rightarrow> date option \<Rightarrow> int option \<Rightarrow> json \<Rightarrow> date \<Rightarrow> json list \<Rightarrow> setting \<Rightarrow> ustr list list \<Rightarrow> bool" where
  "admits host repo as_of max_age document verified_on entries st warnings \<longleftrightarrow>
     (\<exists>d. document = JObj d \<and> set (dict_keys d) = set (map u [''schema_version'', ''verified_on'', ''languages'']) \<and>
        check_header host d = Inr verified_on \<and> member_of d ''languages'' = JArr entries) \<and>
     map language_or_null entries = map JStr MATRIX_LANGUAGES \<and>
     set_repo st = repo \<and> set_as_of st = as_of \<and>
     read_workflow repo ''ci.yml'' = Inr (set_ci st) \<and> read_workflow repo ''release-readiness.yml'' = Inr (set_release st) \<and>
     list_all2 (\<lambda>p ws. check_entry host st (fst p) (snd p) = Inr ws) (zip MATRIX_LANGUAGES entries) warnings \<and>
     check_age as_of max_age verified_on = Inr ()"

lemma check_document_accepts:
  assumes "check_document host repo as_of max_age document = Inr (matrix, ws)"
  obtains verified_on entries st warnings where "admits host repo as_of max_age document verified_on entries st warnings"
    "matrix = document" "ws = concat warnings"
proof -
  have array: "(case v of JArr vs \<Rightarrow> f vs | _ \<Rightarrow> Inl e) = Inr x \<longleftrightarrow> (\<exists>vs. v = JArr vs \<and> f vs = Inr x)" for v f e and x :: "json \<times> ustr list"
    by (cases v) auto
  have iff: "(if b then Inl e else y) = Inr x \<longleftrightarrow> \<not> b \<and> y = Inr x" for b and e :: matrix_error and y and x :: "json \<times> ustr list" by simp
  obtain d verified_on entries ci release warnings where "document = JObj d" "set (dict_keys d) = set (map u [''schema_version'', ''verified_on'', ''languages''])"
      "check_header host d = Inr verified_on" "member_of d ''languages'' = JArr entries" "map language_or_null entries = map JStr MATRIX_LANGUAGES"
      "read_workflow repo ''ci.yml'' = Inr ci" "read_workflow repo ''release-readiness.yml'' = Inr release"
      "list_all2 (\<lambda>p ws. check_entry host \<lparr>set_repo = repo, set_ci = ci, set_release = release, set_as_of = as_of\<rparr> (fst p) (snd p) = Inr ws)
         (zip MATRIX_LANGUAGES entries) warnings"
      "check_age as_of max_age verified_on = Inr ()" "matrix = document" "ws = concat warnings"
    using assms unfolding check_document_def bindE_Inr_iff keys_Inr array iff mapE_Inr_iff split_beta by auto
  then show ?thesis
    by (intro that [of verified_on entries "\<lparr>set_repo = repo, set_ci = ci, set_release = release, set_as_of = as_of\<rparr>" warnings])
      (simp_all add: admits_def)
qed

section \<open>Agreement with the repository\<close>

lemma fields_of:
  "text_of (JObj d) n = (case member_of d n of JStr s \<Rightarrow> s | _ \<Rightarrow> [])"
  "items_of (JObj d) n = (case member_of d n of JArr vs \<Rightarrow> vs | _ \<Rightarrow> [])"
  "member_json (JObj d) n = member_of d n"
  by (simp_all add: text_of_def items_of_def member_json_def)

lemma strings_of_Inr: "strings b (member_of d n) loc = Inr ss \<Longrightarrow> strings_of (JObj d) n = ss"
  by (drule strings_Inr) (simp add: strings_of_def fields_of o_def)

definition file_named :: "repository \<Rightarrow> json \<Rightarrow> string \<Rightarrow> ustr option" where
  "file_named repo v name = repo (text_of v name)"

lemma repo_file_named:
  "repo_file repo (member_of d n) loc = Inr s \<Longrightarrow> file_named repo (JObj d) n = Some s \<and> repo_path_ok (text_of (JObj d) n)"
  by (auto simp: repo_file_def bindE_Inr_iff a_string_Inr file_named_def fields_of split: if_splits option.splits)

definition runtime_agrees :: "host \<Rightarrow> repository \<Rightarrow> json \<Rightarrow> bool" where
  "runtime_agrees host repo runtime \<longleftrightarrow>
     (\<exists>s. file_named repo (member_json runtime ''declared_in'') ''file'' = Some s \<and>
        declared_runtime host s (text_of (member_json runtime ''declared_in'') ''kind'') = Inr (text_of runtime ''declared''))"

definition ci_agrees :: "ustr \<Rightarrow> json \<Rightarrow> bool" where
  "ci_agrees workflow ci \<longleftrightarrow>
     ci_matrix_values workflow (text_of ci ''job'') (text_of ci ''key'') = Inr (strings_of ci ''values'')"

definition profile_agrees :: "ustr \<Rightarrow> ustr list \<Rightarrow> json \<Rightarrow> bool" where
  "profile_agrees evidence primary profile \<longleftrightarrow>
     text_of profile ''ci_value'' \<in> set primary \<and> occurs_in (text_of profile ''observed'') evidence"

definition release_agrees :: "ustr \<Rightarrow> ustr \<Rightarrow> ustr \<Rightarrow> json \<Rightarrow> bool" where
  "release_agrees workflow language current release \<longleftrightarrow>
     release_readiness_values workflow language (text_of release ''key'') = Inr [text_of release ''value''] \<and>
     (text_of release ''value'' = current \<or> starts_with (current @ u ''.'') (text_of release ''value''))"

definition framework_agrees :: "repository \<Rightarrow> ustr \<Rightarrow> json \<Rightarrow> bool" where
  "framework_agrees repo evidence framework \<longleftrightarrow>
     list_all (\<lambda>version. occurs_in version evidence) (strings_of framework ''tested'') \<and>
     (case member_json framework ''declared_in'' of
        JNull \<Rightarrow> True
      | declaration \<Rightarrow>
          (\<exists>s. file_named repo declaration ''file'' = Some s \<and> occurs_in (text_of declaration ''contains'') s))"

definition entry_agrees :: "host \<Rightarrow> setting \<Rightarrow> ustr \<Rightarrow> json \<Rightarrow> bool" where
  "entry_agrees host st language entry \<longleftrightarrow>
     (\<exists>evidence. file_named (set_repo st) entry ''evidence'' = Some evidence \<and>
        list_all (runtime_agrees host (set_repo st)) (items_of entry ''runtimes'') \<and>
        list_all (ci_agrees (set_ci st)) (items_of entry ''ci'') \<and>
        list_all (profile_agrees evidence (strings_of (hd (items_of entry ''ci'')) ''values'')) (items_of entry ''profiles'') \<and>
        release_agrees (set_release st) language (text_of (last (items_of entry ''profiles'')) ''ci_value'')
          (member_json entry ''release_readiness'') \<and>
        list_all (framework_agrees (set_repo st) evidence) (items_of entry ''frameworks'') \<and>
        list_all (\<lambda>line. occurs_in (text_of line ''date'') evidence) (items_of entry ''end_of_support''))"

lemma check_runtime_agrees: "check_runtime host repo loc v = Inr x \<Longrightarrow> runtime_agrees host repo v"
  unfolding check_runtime_def runtime_agrees_def
  by (auto simp: check_simps fields_of a_string_Inr dest!: repo_file_named split: if_splits)

lemma check_ci_agrees: "check_ci workflow loc v = Inr vals \<Longrightarrow> ci_agrees workflow v \<and> strings_of v ''values'' = vals"
  unfolding check_ci_def ci_agrees_def
  by (auto simp: check_simps fields_of a_string_Inr dest!: strings_of_Inr split: if_splits)

lemma check_profile_agrees:
  "check_profile host evidence primary loc v = Inr x \<Longrightarrow> profile_agrees evidence primary v \<and> text_of v ''ci_value'' = x"
  unfolding check_profile_def profile_agrees_def
  by (auto simp: check_simps fields_of a_string_Inr in_evidence_def split: if_splits)

lemma check_profiles_agree:
  assumes "check_profiles host evidence primary loc (member_of d ''profiles'') = Inr x"
  shows "list_all (profile_agrees evidence primary) (items_of (JObj d) ''profiles'') \<and>
    text_of (last (items_of (JObj d) ''profiles'')) ''ci_value'' = x"
proof -
  obtain a b where v: "member_of d ''profiles'' = JArr [a, b]"
    and checks: "\<exists>y l. check_profile host evidence primary l a = Inr y" "\<exists>l. check_profile host evidence primary l b = Inr x"
    using assms unfolding check_profiles_def
    by (auto simp: bindE_Inr_iff split: json.splits list.splits if_splits)
  then have "profile_agrees evidence primary a" "profile_agrees evidence primary b \<and> text_of b ''ci_value'' = x"
    using check_profile_agrees by blast+
  then show ?thesis by (simp add: fields_of v)
qed

lemma check_release_agrees: "check_release workflow language current loc v = Inr x \<Longrightarrow> release_agrees workflow language current v"
  unfolding check_release_def release_agrees_def
  by (auto simp: check_simps fields_of a_string_Inr split: if_splits)

lemma in_evidence_Inr: "in_evidence evidence value loc = Inr x \<longleftrightarrow> occurs_in value evidence"
  by (simp add: in_evidence_def)

lemma check_framework_agrees: "check_framework repo evidence loc v = Inr x \<Longrightarrow> framework_agrees repo evidence v"
proof -
  assume "check_framework repo evidence loc v = Inr x"
  then obtain d where v: "v = JObj d"
    and declared: "member_of d ''declared_in'' = JNull \<or>
      (\<exists>e s. member_of d ''declared_in'' = JObj e \<and> file_named repo (JObj e) ''file'' = Some s \<and> occurs_in (text_of (JObj e) ''contains'') s)"
    and found: "\<exists>tested us l l'. strings True (member_of d ''tested'') l = Inr tested \<and> mapE (\<lambda>version. in_evidence evidence version l') tested = Inr us"
    unfolding check_framework_def
    by (cases v) (auto simp: check_simps Let_def a_string_Inr fields_of dest!: repo_file_named split: if_splits)
  obtain tested us l l' where tested: "strings True (member_of d ''tested'') l = Inr tested"
    and each: "mapE (\<lambda>version. in_evidence evidence version l') tested = Inr us" using found by blast
  have "list_all (\<lambda>version. occurs_in version evidence) tested"
    using mapE_Inr_mem [OF each] by (simp add: list_all_iff in_evidence_Inr)
  then have "list_all (\<lambda>version. occurs_in version evidence) (strings_of (JObj d) ''tested'')"
    using strings_of_Inr [OF tested] by simp
  with declared show ?thesis
    unfolding framework_agrees_def v fields_of(3) by (elim disjE exE conjE) (simp_all only: json.case, blast+)
qed

lemma each_all: "each f i xs = Inr ys \<Longrightarrow> (\<And>j x y. f j x = Inr y \<Longrightarrow> P x) \<Longrightarrow> list_all P xs"
  unfolding list_all_iff by (meson each_Inr)

lemma check_frameworks_agree:
  "check_frameworks repo evidence loc vs = Inr x \<Longrightarrow> list_all (framework_agrees repo evidence) vs"
  using check_framework_agrees mapE_Inr_mem
  by (fastforce simp: check_frameworks_def bindE_Inr_iff Let_def list_all_iff split: if_splits)

lemma check_support_seen:
  "check_support host language evidence as_of loc v = Inr x \<Longrightarrow> occurs_in (text_of v ''date'') evidence"
  unfolding check_support_def
  by (auto simp: check_simps fields_of a_string_Inr in_evidence_Inr)

lemma check_entry_agrees:
  assumes "check_entry host st language v = Inr x"
  shows "entry_agrees host st language v"
  using assms
proof (rule check_entry_parts)
  fix d evidence runtimes us cis ci_values current frameworks support ws
  assume v: "v = JObj d"
    and evidence: "repo_file (set_repo st) (member_of d ''evidence'') (loc_of language @ [Field ''evidence'']) = Inr evidence"
    and arrays: "member_of d ''runtimes'' = JArr runtimes" "runtimes \<noteq> []" "member_of d ''ci'' = JArr cis" "cis \<noteq> []"
      "member_of d ''frameworks'' = JArr frameworks" "frameworks \<noteq> []" "member_of d ''end_of_support'' = JArr support"
    and checks: "each (\<lambda>i. check_runtime host (set_repo st) (loc_of language @ [Field ''runtimes'', Index i])) 0 runtimes = Inr us"
      "each (\<lambda>i. check_ci (set_ci st) (loc_of language @ [Field ''ci'', Index i])) 0 cis = Inr ci_values"
      "check_profiles host evidence (hd ci_values) (loc_of language) (member_of d ''profiles'') = Inr current"
      "check_release (set_release st) language current (loc_of language @ [Field ''release_readiness'']) (member_of d ''release_readiness'') = Inr ()"
      "check_frameworks (set_repo st) evidence (loc_of language @ [Field ''frameworks'']) frameworks = Inr ()"
      "each (\<lambda>i. check_support host language evidence (set_as_of st) (loc_of language @ [Field ''end_of_support'', Index i])) 0 support = Inr ws"
  have lists: "items_of v ''runtimes'' = runtimes" "items_of v ''ci'' = cis" "items_of v ''frameworks'' = frameworks"
      "items_of v ''end_of_support'' = support"
    by (simp_all add: v fields_of arrays)
  have ci: "list_all2 (\<lambda>c vs. ci_agrees (set_ci st) c \<and> strings_of c ''values'' = vs) cis ci_values"
    using check_ci_agrees by (intro each_list_all2 [OF checks(2)]) blast
  then have primary: "strings_of (hd cis) ''values'' = hd ci_values"
    using arrays(4) by (cases cis) (auto simp: list_all2_Cons1)
  have ci_all: "list_all (ci_agrees (set_ci st)) cis"
    using ci by (induction cis ci_values rule: list_all2_induct) auto
  have "list_all (runtime_agrees host (set_repo st)) runtimes"
    using check_runtime_agrees by (intro each_all [OF checks(1)]) blast
  moreover have "list_all (\<lambda>line. occurs_in (text_of line ''date'') evidence) support"
    using check_support_seen by (intro each_all [OF checks(6)]) blast
  moreover have "file_named (set_repo st) v ''evidence'' = Some evidence"
    using repo_file_named [OF evidence] by (simp add: v)
  moreover note check_frameworks_agree [OF checks(5)] check_profiles_agree [OF checks(3)] check_release_agrees [OF checks(4)]
  ultimately show ?thesis
    using ci_all by (simp add: entry_agrees_def lists [unfolded v] primary v fields_of(3))
qed

section \<open>An accepted matrix\<close>

lemma check_header_ty:
  assumes "check_header host d = Inr verified_on"
  shows "has_ty (member_of d ''schema_version'') Version" "has_ty (member_of d ''verified_on'') Text"
proof -
  have "scalar_key (member_of d ''schema_version'') = JInt 1" "\<not> (\<exists>b\<in>{True, False}. member_of d ''schema_version'' = JBool b)"
    and date: "\<exists>raw. string_at d ''verified_on'' [] = Inr raw"
    using assms by (auto simp: check_header_def Let_def bindE_Inr_iff split: if_splits)
  then show "has_ty (member_of d ''schema_version'') Version"
    by (cases "member_of d ''schema_version''") (auto simp: scalar_key_def split: option.splits)
  show "has_ty (member_of d ''verified_on'') Text"
    using date a_string_ty unfolding string_at_def by blast
qed

lemma accepts_entries:
  assumes "admits host repo as_of max_age document verified_on entries st warnings" "i < length MATRIX_LANGUAGES"
  shows "\<exists>ws. check_entry host st (MATRIX_LANGUAGES ! i) (entries ! i) = Inr ws \<and> ws = warnings ! i"
    and "language_or_null (entries ! i) = JStr (MATRIX_LANGUAGES ! i)"
    and "length entries = length MATRIX_LANGUAGES" "length warnings = length MATRIX_LANGUAGES"
proof -
  have names: "map language_or_null entries = map JStr MATRIX_LANGUAGES"
    and all: "list_all2 (\<lambda>p ws. check_entry host st (fst p) (snd p) = Inr ws) (zip MATRIX_LANGUAGES entries) warnings"
    using assms(1) unfolding admits_def by blast+
  show length: "length entries = length MATRIX_LANGUAGES" using map_eq_imp_length_eq [OF names] .
  then show "length warnings = length MATRIX_LANGUAGES" using list_all2_lengthD [OF all] by simp
  show "language_or_null (entries ! i) = JStr (MATRIX_LANGUAGES ! i)"
    using arg_cong [OF names, of "\<lambda>xs. xs ! i"] assms(2) length by simp
  show "\<exists>ws. check_entry host st (MATRIX_LANGUAGES ! i) (entries ! i) = Inr ws \<and> ws = warnings ! i"
    using list_all2_nthD [OF all, of i] assms(2) length by simp
qed

lemma MATRIX_LANGUAGES_text: "l \<in> set MATRIX_LANGUAGES \<Longrightarrow> has_ty (JStr l) Text"
  by (auto simp: MATRIX_LANGUAGES_def str_eval)

lemma accepts_ty:
  assumes "admits host repo as_of max_age document verified_on entries st warnings"
  shows "has_ty document matrix_ty"
proof -
  obtain d where d: "document = JObj d" "set (dict_keys d) = set (map u [''schema_version'', ''verified_on'', ''languages''])"
    and header: "check_header host d = Inr verified_on" and entries: "member_of d ''languages'' = JArr entries"
    using assms unfolding admits_def by blast
  note at_i = accepts_entries [OF assms]
  have "has_ty e entry_ty" if "e \<in> set entries" for e
  proof -
    obtain i where i: "i < length MATRIX_LANGUAGES" "e = entries ! i"
      using \<open>e \<in> set entries\<close> at_i(3) by (metis in_set_conv_nth at_i(3) MATRIX_LANGUAGES_def length_Cons zero_less_Suc)
    show ?thesis
      using at_i(1) [OF i(1)] at_i(2) [OF i(1)] MATRIX_LANGUAGES_text [of "MATRIX_LANGUAGES ! i"] i check_entry_ty by (metis nth_mem)
  qed
  moreover have "length entries = 7" using at_i(3) [of 0] by (simp add: MATRIX_LANGUAGES_def)
  ultimately have "has_ty (member_of d ''languages'') (List 7 entry_ty)" by (simp add: entries)
  with check_header_ty [OF header] show ?thesis
    by (simp add: d matrix_ty_def)
qed

lemma accepts_items:
  assumes "admits host repo as_of max_age document verified_on entries st warnings"
  shows "items_of document ''languages'' = entries"
  using assms unfolding admits_def by (auto simp: fields_of)

lemma accepts_agrees:
  assumes "admits host repo as_of max_age document verified_on entries st warnings"
  shows "list_all2 (entry_agrees host st) MATRIX_LANGUAGES (items_of document ''languages'')"
proof -
  have "length entries = length MATRIX_LANGUAGES" using accepts_entries(3) [OF assms, of 0] by (simp add: MATRIX_LANGUAGES_def)
  then show ?thesis
    unfolding accepts_items [OF assms] list_all2_conv_all_nth
    using accepts_entries(1) [OF assms] check_entry_agrees by metis
qed

section \<open>Dates\<close>

lemma parse_date_place: "parse_date ud loc s = Inr d \<Longrightarrow> parse_date ud loc' s = Inr d"
proof -
  have found: "(let f = x in case f of Some d \<Rightarrow> Inr d | None \<Rightarrow> Inl e) = Inr d \<longleftrightarrow> x = Some d"
    for x :: "date option" and e :: matrix_error and d
    by (cases x) simp_all
  show "parse_date ud loc s = Inr d \<Longrightarrow> parse_date ud loc' s = Inr d"
    unfolding parse_date_def found .
qed

definition ends_on :: "unidata \<Rightarrow> json \<Rightarrow> date option" where
  "ends_on ud line = (case parse_date ud [] (text_of line ''date'') of Inr d \<Rightarrow> Some d | Inl _ \<Rightarrow> None)"

text \<open>Whether a line is supported on a day, and whether its end is near.\<close>

definition supported :: "unidata \<Rightarrow> date \<Rightarrow> json \<Rightarrow> bool" where
  "supported ud today line = (case ends_on ud line of Some day \<Rightarrow> ordinal today \<le> ordinal day | None \<Rightarrow> False)"

definition ends_soon :: "unidata \<Rightarrow> date \<Rightarrow> json \<Rightarrow> bool" where
  "ends_soon ud today line = (case ends_on ud line of Some day \<Rightarrow> ordinal day \<le> ordinal today + 90 | None \<Rightarrow> False)"

lemma check_support_dates:
  assumes "check_support host language evidence (Some today) loc v = Inr ws"
  shows "supported (host_unicode host) today v \<and> length ws = length (filter (ends_soon (host_unicode host) today) [v])"
proof -
  obtain d raw day loc' where v: "v = JObj d" "text_of (JObj d) ''date'' = raw" "parse_date (host_unicode host) loc' raw = Inr day"
      "\<not> ordinal day < ordinal today"
      "length ws = (if ordinal day - ordinal today \<le> WARNING_DAYS then 1 else 0)"
    using assms unfolding check_support_def
    by (auto simp: check_simps fields_of a_string_Inr split: if_splits)
  have "ends_on (host_unicode host) v = Some day"
    using parse_date_place [OF v(3), of "[]"] by (simp add: ends_on_def v)
  with v(4,5) show ?thesis by (auto simp: supported_def ends_soon_def WARNING_DAYS_def)
qed

lemma check_support_all:
  assumes "each (\<lambda>i. check_support host language evidence (Some today) (loc i)) i lines = Inr wss"
  shows "list_all (supported (host_unicode host) today) lines \<and>
    length (concat wss) = length (filter (ends_soon (host_unicode host) today) lines)"
proof -
  have "list_all2 (\<lambda>v ws. supported (host_unicode host) today v \<and> length ws = length (filter (ends_soon (host_unicode host) today) [v])) lines wss"
    using check_support_dates by (intro each_list_all2 [OF assms]) blast
  then show ?thesis by (induction lines wss rule: list_all2_induct) auto
qed

lemma check_entry_dates:
  assumes "check_entry host st language v = Inr ws" "set_as_of st = Some today"
  shows "list_all (supported (host_unicode host) today) (items_of v ''end_of_support'') \<and>
    length ws = length (filter (ends_soon (host_unicode host) today) (items_of v ''end_of_support''))"
  using assms(1) by (rule check_entry_parts) (use check_support_all assms(2) in \<open>simp add: fields_of\<close>)

lemma check_header_date:
  assumes "check_header host d = Inr verified_on"
  shows "parse_date (host_unicode host) [] (text_of (JObj d) ''verified_on'') = Inr verified_on"
proof -
  have branch: "(if b then Inl e else y) = Inr x \<longleftrightarrow> \<not> b \<and> y = Inr x" "(if b then Inr x' else Inl e) = Inr x \<longleftrightarrow> b \<and> x' = x"
    for b and e :: matrix_error and y and x x' :: date by simp_all
  obtain raw loc where raw: "member_of d ''verified_on'' = JStr raw" and "parse_date (host_unicode host) loc raw = Inr verified_on"
    using assms unfolding check_header_def Let_def branch bindE_Inr_iff string_at_def a_string_Inr by (elim exE conjE) simp
  from parse_date_place [OF this(2)] show ?thesis by (simp only: fields_of raw json.case)
qed

lemma accepts_verified:
  assumes "admits host repo (Some today) (Some limit) document verified_on entries st warnings"
  shows "parse_date (host_unicode host) [] (text_of document ''verified_on'') = Inr verified_on"
    and "ordinal verified_on \<le> ordinal today" "int (ordinal today) \<le> int (ordinal verified_on) + limit"
proof -
  show "parse_date (host_unicode host) [] (text_of document ''verified_on'') = Inr verified_on"
    using assms unfolding admits_def by (elim exE conjE) (simp add: check_header_date)
  have "check_age (Some today) (Some limit) verified_on = Inr ()" using assms unfolding admits_def by (elim exE conjE)
  then show "ordinal verified_on \<le> ordinal today" "int (ordinal today) \<le> int (ordinal verified_on) + limit"
    by (auto simp: check_age_def split: if_splits)
qed

lemma accepts_dates:
  assumes "admits host repo (Some today) max_age document verified_on entries st warnings"
  shows "list_all2 (\<lambda>entry ws. list_all (supported (host_unicode host) today) (items_of entry ''end_of_support'') \<and>
    length ws = length (filter (ends_soon (host_unicode host) today) (items_of entry ''end_of_support''))) entries warnings"
proof -
  have "set_as_of st = Some today" using assms unfolding admits_def by (elim exE conjE)
  moreover have "length entries = length MATRIX_LANGUAGES" "length warnings = length MATRIX_LANGUAGES"
    using accepts_entries(3,4) [OF assms, of 0] by (simp_all add: MATRIX_LANGUAGES_def)
  ultimately show ?thesis
    unfolding list_all2_conv_all_nth
  proof (intro conjI allI impI)
    fix i
    assume "i < length entries" and same: "length entries = length MATRIX_LANGUAGES" and day: "set_as_of st = Some today"
    then obtain ws where "check_entry host st (MATRIX_LANGUAGES ! i) (entries ! i) = Inr ws" "ws = warnings ! i"
      using accepts_entries(1) [OF assms, of i] by (simp only: same) blast
    then show "list_all (supported (host_unicode host) today) (items_of (entries ! i) ''end_of_support'')"
        "length (warnings ! i) = length (filter (ends_soon (host_unicode host) today) (items_of (entries ! i) ''end_of_support''))"
      using check_entry_dates [OF _ day] by blast+
  qed simp
qed

definition support_lines :: "json \<Rightarrow> json list" where
  "support_lines document = concat (map (\<lambda>entry. items_of entry ''end_of_support'') (items_of document ''languages''))"

lemma accepts_support:
  assumes "admits host repo (Some today) max_age document verified_on entries st warnings"
  shows "list_all (supported (host_unicode host) today) (support_lines document)"
    and "length (concat warnings) = length (filter (ends_soon (host_unicode host) today) (support_lines document))"
proof -
  let ?lines = "\<lambda>es. concat (map (\<lambda>entry. items_of entry ''end_of_support'') es)"
  have "list_all (supported (host_unicode host) today) (?lines entries) \<and>
      length (concat warnings) = length (filter (ends_soon (host_unicode host) today) (?lines entries))"
    using accepts_dates [OF assms] by (induction entries warnings rule: list_all2_induct) auto
  then show "list_all (supported (host_unicode host) today) (support_lines document)"
      "length (concat warnings) = length (filter (ends_soon (host_unicode host) today) (support_lines document))"
    unfolding support_lines_def accepts_items [OF assms] by blast+
qed

section \<open>Properties\<close>

text \<open>C34: A document the validator admits has the type of a matrix: every object has exactly its keys, every text is not blank,
  the lists have their least lengths, and the version is one.\<close>

theorem matrix_typed:
  assumes "check_document host repo as_of max_age document = Inr (matrix, ws)"
  shows "matrix = document \<and> has_ty matrix matrix_ty"
  using assms by (rule check_document_accepts) (simp add: accepts_ty)

theorem matrix_typed_example: "has_ty sample_matrix matrix_ty"
  using matrix_typed [OF sample_accepted] by blast

text \<open>C27: Every entry of an accepted matrix agrees with the repository: its runtime floors with the package metadata, its CI
  values with the workflow, its release with what release readiness installs for the current profile, its declarations with the
  files that hold them, and every version and date it names occurs in its evidence document.\<close>

theorem matrix_agrees:
  assumes "check_document host repo as_of max_age document = Inr (matrix, ws)"
  shows "\<exists>ci release. read_workflow repo ''ci.yml'' = Inr ci \<and> read_workflow repo ''release-readiness.yml'' = Inr release \<and>
    list_all2 (entry_agrees host \<lparr>set_repo = repo, set_ci = ci, set_release = release, set_as_of = as_of\<rparr>) MATRIX_LANGUAGES
      (items_of document ''languages'')"
  using assms
proof (rule check_document_accepts)
  fix verified_on entries st warnings
  assume a: "admits host repo as_of max_age document verified_on entries st warnings"
  then have "st = \<lparr>set_repo = repo, set_ci = set_ci st, set_release = set_release st, set_as_of = as_of\<rparr>"
      and files: "read_workflow repo ''ci.yml'' = Inr (set_ci st)" "read_workflow repo ''release-readiness.yml'' = Inr (set_release st)"
    unfolding admits_def by simp_all
  then have "list_all2 (entry_agrees host \<lparr>set_repo = repo, set_ci = set_ci st, set_release = set_release st, set_as_of = as_of\<rparr>)
      MATRIX_LANGUAGES (items_of document ''languages'')"
    using accepts_agrees [OF a] by simp
  with files show ?thesis by blast
qed

theorem matrix_agrees_example:
  "\<exists>ci release. read_workflow sample_repo ''ci.yml'' = Inr ci \<and> read_workflow sample_repo ''release-readiness.yml'' = Inr release \<and>
    list_all2 (entry_agrees ascii_host \<lparr>set_repo = sample_repo, set_ci = ci, set_release = release, set_as_of = Some sample_day\<rparr>)
      MATRIX_LANGUAGES (items_of sample_matrix ''languages'')"
  by (rule matrix_agrees [OF sample_accepted])

text \<open>C32: On a given day a matrix passes only when no line it lists has reached its end of support, and it was verified on that
  day or within the permitted number of days before it; there is one warning for every line that ends within ninety days.\<close>

theorem support_gates:
  assumes "check_document host repo (Some today) (Some limit) document = Inr (matrix, ws)"
  shows "list_all (supported (host_unicode host) today) (support_lines document) \<and>
    length ws = length (filter (ends_soon (host_unicode host) today) (support_lines document)) \<and>
    (\<exists>verified_on. parse_date (host_unicode host) [] (text_of document ''verified_on'') = Inr verified_on \<and>
       ordinal verified_on \<le> ordinal today \<and> int (ordinal today) \<le> int (ordinal verified_on) + limit)"
  using assms
proof (rule check_document_accepts)
  fix verified_on entries st warnings
  assume a: "admits host repo (Some today) (Some limit) document verified_on entries st warnings" and ws: "ws = concat warnings"
  show ?thesis
    by (intro conjI exI [of _ verified_on]) (simp_all add: ws accepts_support [OF a] accepts_verified [OF a])
qed

theorem support_gates_example:
  "list_all (supported (host_unicode ascii_host) sample_day) (support_lines sample_matrix) \<and>
    length MATRIX_LANGUAGES = length (filter (ends_soon (host_unicode ascii_host) sample_day) (support_lines sample_matrix))"
  using support_gates [OF sample_accepted] by simp

text \<open>The version one may be written as a number with a fraction, and a month with digits of another script.\<close>

lemma version_one_point_zero:
  "check_header ascii_host (fields [(''schema_version'', JFloat (PFin False 1 0)), (''verified_on'', text_json ''2026-12-02''),
      (''languages'', JNull)]) = Inr (2026, 12, 2)"
  by (simp cong: bindE_weak add: check_header_def Let_def scalar_key_def integer_value_def sample_steps sample_dates)

lemma month_of_other_digits:
  "parse_date \<lparr>ud_alnum = (\<lambda>c. False), ud_digit = (\<lambda>c. if 65296 \<le> c \<and> c \<le> 65305 then Some (c - 65296) else None)\<rparr> []
     [65298, 65296, 65298, 65304, 45, 65296, 65298] = Inr (2028, 2, 29)"
  by code_simp

end
