(* ===== verification/DocsChecks.thy ===== *)
theory DocsChecks
  imports Docs MatrixChecks
begin

text \<open>
  What a clean audit of \<open>scripts/audit-docs.py\<close> means: for one document, for its prose, and for the whole
  set of documents.
\<close>

section \<open>Prose keeps the lines\<close>

lemma split_join: "list_all (\<lambda>w. c \<notin> set w) ws \<Longrightarrow> ws \<noteq> [] \<Longrightarrow> split_on c (join_with [c] ws) = ws"
proof (induction ws)
  case (Cons w ws)
  then show ?case by (cases ws) (simp_all add: split_on_absent split_on_append_sep)
qed simp

lemma splice_set: "(\<And>h. set (f h) \<subseteq> A) \<Longrightarrow> set s \<subseteq> A \<Longrightarrow> set (splice f i s hs) \<subseteq> A"
proof (induction hs arbitrary: i s)
  case (Cons h hs)
  have parts: "set (take n s) \<subseteq> A" "set (drop n s) \<subseteq> A" for n
    using Cons.prems(2) set_take_subset [of n s] set_drop_subset [of n s] by blast+
  then have "set (splice f j (drop n s) hs) \<subseteq> A" for j n
    using Cons.IH Cons.prems(1) by blast
  with parts(1) Cons.prems(1) show ?case by simp
qed simp

lemma without_code_line: "10 \<notin> set line \<Longrightarrow> 10 \<notin> set (without_code line)"
proof -
  assume "10 \<notin> set line"
  then have "set (splice (\<lambda>_. [96] @ u ''code'' @ [96]) 0 line hs) \<subseteq> - {10}" for hs
    by (intro splice_set) (auto simp: u_def)
  then show ?thesis unfolding without_code_def re_sub_def by blast
qed

lemma strip_lines_all2:
  "list_all2 (\<lambda>line prose. prose = [] \<or> prose = without_code line) lines (strip_lines in_fence lines)"
  by (induction lines arbitrary: in_fence) simp_all

lemma strip_lines_no_newline: "list_all (\<lambda>w. 10 \<notin> set w) lines \<Longrightarrow> list_all (\<lambda>w. 10 \<notin> set w) (strip_lines in_fence lines)"
  by (induction lines arbitrary: in_fence) (simp_all add: without_code_line)

lemma split_strip_code: "split_on 10 (strip_code s) = strip_lines False (split_on 10 s)"
proof -
  have "list_all (\<lambda>w. 10 \<notin> set w) (split_on 10 s)" using split_on_no_sep [of _ 10 s] by (auto simp: list_all_iff)
  moreover have "strip_lines False (split_on 10 s) \<noteq> []"
    using list_all2_lengthD [OF strip_lines_all2, of "split_on 10 s" False] by (metis length_0_conv split_on_not_Nil)
  ultimately show ?thesis unfolding strip_code_def by (intro split_join strip_lines_no_newline)
qed

section \<open>One document\<close>

definition nowhere :: "rx \<Rightarrow> ustr \<Rightarrow> bool" where
  "nowhere r s \<longleftrightarrow> \<not> (\<exists>w v t. s = w @ v \<and> ((rev w, v, None), t) \<in> rel r)"

lemma re_finditer_nowhere: "re_finditer r s = [] \<longleftrightarrow> nowhere r s"
  unfolding nowhere_def re_finditer_def scan_Nil_iff by auto

lemma re_search_nowhere: "re_search r s = None \<longleftrightarrow> nowhere r s"
  unfolding nowhere_def re_search_None by auto

definition sentence_ok :: "unidata \<Rightarrow> ustr \<Rightarrow> bool" where
  "sentence_ok ud sentence \<longleftrightarrow>
     (nowhere (claim_rx ud) sentence \<or> \<not> nowhere (negation_rx ud) sentence) \<and> nowhere (stale_timeout_rx ud) sentence"

definition link_ok :: "unidata \<Rightarrow> world \<Rightarrow> ustr \<Rightarrow> ustr \<Rightarrow> bool" where
  "link_ok ud w path target \<longleftrightarrow>
     re_match scheme_rx target \<noteq> None \<or>
     (case partition_at 35 target of
        (file_part, _, anchor) \<Rightarrow>
          \<not> starts_with (u ''/'') file_part \<and>
          (\<exists>n dest. dest = (if file_part = [] then resolve_from (w_root w) path
                          else resolve_from (butlast (resolve_from (w_root w) path)) file_part) \<and>
             w_node w dest = Some n \<and> take (length (w_root w)) dest = w_root w \<and>
             (anchor = [] \<or> \<not> is_md dest \<or> (\<exists>s. n = TextFile s \<and> anchor \<in> set (anchors ud s)))))"

definition document_ok :: "unidata \<Rightarrow> world \<Rightarrow> ustr \<Rightarrow> ustr \<Rightarrow> bool" where
  "document_ok ud w path s \<longleftrightarrow>
     list_all (\<lambda>(pattern, label). nowhere pattern (if label \<in> set WHOLE_TEXT_LABELS then s else strip_code s)) (FORBIDDEN ud) \<and>
     list_all (\<lambda>h. hit_group h \<in> set ALLOWED_HOSTS) (re_finditer (host_rx ud) s) \<and>
     list_all (\<lambda>h. hit_text h \<in> {u ''X-Cekat-Visitor-ID'', u ''x-cekat-visitor-id''}) (re_finditer header_rx s) \<and>
     list_all (\<lambda>h. sentence_ok ud (hit_text h)) (re_finditer sentence_rx (strip_code s)) \<and>
     list_all (\<lambda>h. link_ok ud w path (hit_group h)) (re_finditer link_rx (strip_code s))"

lemma concat_map_Nil: "concat (map f xs) = [] \<longleftrightarrow> list_all (\<lambda>x. f x = []) xs"
  by (auto simp: list_all_iff)

lemma map_filter_Nil: "map f (filter P xs) = [] \<longleftrightarrow> list_all (\<lambda>x. \<not> P x) xs"
  by (auto simp: list_all_iff filter_empty_conv)

lemma forbidden_Nil:
  "forbidden_problems ud path s = [] \<longleftrightarrow>
    list_all (\<lambda>(pattern, label). nowhere pattern (if label \<in> set WHOLE_TEXT_LABELS then s else strip_code s)) (FORBIDDEN ud)"
  unfolding forbidden_problems_def concat_map_Nil split_beta Let_def map_is_Nil_conv re_finditer_nowhere ..

lemma sentences_Nil:
  "sentence_problems ud path prose = [] \<longleftrightarrow> list_all (\<lambda>h. sentence_ok ud (hit_text h)) (re_finditer sentence_rx prose)"
  unfolding sentence_problems_def concat_map_Nil Let_def sentence_ok_def re_search_nowhere [symmetric]
  by (intro list.pred_cong refl) auto

lemma link_problem_Nil: "link_problem ud w path line target = Inr [] \<longleftrightarrow> link_ok ud w path target"
proof (cases "re_match scheme_rx target")
  case None
  obtain file_part found anchor where p: "partition_at 35 target = (file_part, found, anchor)" by (cases "partition_at 35 target")
  show ?thesis
    by (cases "w_node w (if file_part = [] then resolve_from (w_root w) path
          else resolve_from (butlast (resolve_from (w_root w) path)) file_part)")
      (auto simp: link_problem_def link_ok_def None p Let_def split: node.splits)
qed (simp add: link_problem_def link_ok_def)

lemma mapE_concat_Nil: "(\<exists>yss. mapE f xs = Inr yss \<and> concat yss = []) \<longleftrightarrow> list_all (\<lambda>x. f x = Inr []) xs"
proof (induction xs)
  case (Cons x xs)
  have first: "(\<exists>yss. mapE f (x # xs) = Inr yss \<and> concat yss = []) \<longleftrightarrow> f x = Inr [] \<and> (\<exists>yss. mapE f xs = Inr yss \<and> concat yss = [])"
    by (fastforce simp: bindE_Inr_iff)
  show ?case unfolding first Cons.IH by simp
qed simp

lemma links_Nil:
  "link_problems ud w path prose = Inr [] \<longleftrightarrow> list_all (\<lambda>h. link_ok ud w path (hit_group h)) (re_finditer link_rx prose)"
proof -
  have "link_problems ud w path prose = Inr [] \<longleftrightarrow>
      list_all (\<lambda>h. link_problem ud w path (line_of prose (hit_start h)) (hit_group h) = Inr []) (re_finditer link_rx prose)"
    unfolding link_problems_def bindE_Inr_iff mapE_concat_Nil [symmetric] sum.inject ..
  then show ?thesis unfolding link_problem_Nil .
qed

lemma audit_text_Nil: "audit_text ud w path s = Inr [] \<longleftrightarrow> document_ok ud w path s"
proof -
  have "audit_text ud w path s = Inr [] \<longleftrightarrow> link_problems ud w path (strip_code s) = Inr [] \<and> forbidden_problems ud path s = [] \<and>
      host_problems ud path s = [] \<and> header_problems path s = [] \<and> sentence_problems ud path (strip_code s) = []"
    by (auto simp: audit_text_def bindE_Inr_iff)
  also have "\<dots> \<longleftrightarrow> document_ok ud w path s"
    unfolding document_ok_def links_Nil forbidden_Nil host_problems_def header_problems_def map_filter_Nil not_not sentences_Nil
    by blast
  finally show ?thesis .
qed

section \<open>The whole audit\<close>












section \<open>What a pattern takes\<close>

















section \<open>Texts no document may hold\<close>
























section \<open>Properties\<close>

text \<open>The prose of a document has a line for every line of the document, blank in place of a fence and of the code in it,
  and otherwise the line with its inline code replaced; so a line number of the prose is one of the document.\<close>

theorem prose_keeps_lines:
  "list_all2 (\<lambda>line prose. prose = [] \<or> prose = without_code line) (split_on 10 s) (split_on 10 (strip_code s))"
  unfolding split_strip_code by (rule strip_lines_all2)

text \<open>A document has no problem exactly when no forbidden pattern matches at any place of it (of its prose, for a claim),
  its hosts are allowed and its visitor headers spelled right, no sentence makes a claim without a negation or names the old
  timeout, and every relative link leads to a file of the repository and, with an anchor, to a heading of it.\<close>

theorem document_clean: "audit_text ud w path s = Inr [] \<longleftrightarrow> document_ok ud w path s"
  by (rule audit_text_Nil)





text \<open>The pattern for a path of a drive asks for two backslashes, so a path with one is not found.\<close>

lemma drive_path_unseen:
  "re_search local_path_rx (u ''see C:'' @ [92] @ u ''Users'') = None"
  "re_search local_path_rx (u ''see C:'' @ [92, 92] @ u ''Users'') \<noteq> None"
  by code_simp+

end
