(* ===== verification/Reprs.thy ===== *)
theory Reprs
  imports Client AsyncClient FloatText Json
begin

text \<open>
  The \<open>__repr__\<close> methods of \<open>errors.py\<close>, \<open>_shared.py\<close>, \<open>client.py\<close> and \<open>async_client.py\<close>. Which characters
  beyond ASCII are printable is a question to the Unicode database, an argument. A text in a repr reads back,
  and no repr depends on the access token.
\<close>

section \<open>The repr of a text\<close>

definition hex_text :: "nat \<Rightarrow> nat \<Rightarrow> ustr" where
  "hex_text w n = map (\<lambda>i. hex_digit (n div 16 ^ i mod 16)) (rev [0..<w])"

definition escape_char :: "(nat \<Rightarrow> bool) \<Rightarrow> nat \<Rightarrow> nat \<Rightarrow> ustr" where
  "escape_char printable quot c =
     (if c = quot \<or> c = 92 then [92, c]
      else if c = 9 then [92, 116]
      else if c = 10 then [92, 110]
      else if c = 13 then [92, 114]
      else if 32 \<le> c \<and> c < 127 then [c]
      else if 127 < c \<and> printable c then [c]
      else if c < 256 then [92, 120] @ hex_text 2 c
      else if c < 65536 then [92, 117] @ hex_text 4 c
      else [92, 85] @ hex_text 8 c)"

definition quote_of :: "ustr \<Rightarrow> nat" where
  "quote_of s = (if 39 \<in> set s \<and> 34 \<notin> set s then 34 else 39)"

definition py_repr :: "(nat \<Rightarrow> bool) \<Rightarrow> ustr \<Rightarrow> ustr" where
  "py_repr printable s = [quote_of s] @ concat (map (escape_char printable (quote_of s)) s) @ [quote_of s]"

section \<open>The methods\<close>

definition class_name :: "http_class \<Rightarrow> ustr" where
  "class_name cls =
     (case cls of
        AuthenticationError \<Rightarrow> u ''AuthenticationError''
      | EventDefinitionNotFoundError \<Rightarrow> u ''EventDefinitionNotFoundError''
      | ApiError \<Rightarrow> u ''ApiError'')"

definition http_error_repr :: "(nat \<Rightarrow> bool) \<Rightarrow> http_class \<Rightarrow> int \<Rightarrow> ustr \<Rightarrow> nat \<Rightarrow> ustr" where
  "http_error_repr printable cls status msg n =
     class_name cls @ u ''(status_code='' @ str_of_int status @ u '', message='' @ py_repr printable msg @
     u '', attempts='' @ str_of_nat n @ u '')''"

definition transport_error_repr :: "(nat \<Rightarrow> bool) \<Rightarrow> ustr \<Rightarrow> nat \<Rightarrow> ustr" where
  "transport_error_repr printable msg n =
     u ''TransportError(message='' @ py_repr printable msg @ u '', attempts='' @ str_of_nat n @ u '')''"

definition decode_error_repr :: "(nat \<Rightarrow> bool) \<Rightarrow> ustr \<Rightarrow> nat \<Rightarrow> ustr" where
  "decode_error_repr printable msg n =
     u ''ResponseDecodeError(message='' @ py_repr printable msg @ u '', attempts='' @ str_of_nat n @ u '')''"

text \<open>A \<open>ValidationError\<close> has the repr of an exception; those of other libraries are not given here.\<close>

definition error_repr :: "(nat \<Rightarrow> bool) \<Rightarrow> error \<Rightarrow> ustr option" where
  "error_repr printable e =
     (case e of
        ValidationError msg \<Rightarrow> Some (u ''ValidationError('' @ py_repr printable msg @ u '')'')
      | HttpError cls status msg _ _ n \<Rightarrow> Some (http_error_repr printable cls status msg n)
      | TransportError msg n _ \<Rightarrow> Some (transport_error_repr printable msg n)
      | ResponseDecodeError msg _ n _ \<Rightarrow> Some (decode_error_repr printable msg n)
      | Foreign _ \<Rightarrow> None)"

definition settings_repr :: "(nat \<Rightarrow> bool) \<Rightarrow> settings \<Rightarrow> ustr" where
  "settings_repr printable st =
     u ''Settings(url='' @ py_repr printable (settings_url st) @ u '', timeout='' @ float_repr (settings_timeout st) @
     u '', retry_count='' @ str_of_nat (settings_retry_count st) @ u '')''"

definition client_repr :: "(nat \<Rightarrow> bool) \<Rightarrow> client \<Rightarrow> ustr" where
  "client_repr printable c = u ''Client(url='' @ py_repr printable (settings_url (client_settings c)) @ u '')''"

definition async_client_repr :: "(nat \<Rightarrow> bool) \<Rightarrow> client \<Rightarrow> ustr" where
  "async_client_repr printable c = u ''AsyncClient(url='' @ py_repr printable (settings_url (client_settings c)) @ u '')''"

section \<open>Reading a literal\<close>

definition hex_number :: "ustr \<Rightarrow> nat" where
  "hex_number ds = foldl (\<lambda>n d. 16 * n + (case hex_value d of Some v \<Rightarrow> v | None \<Rightarrow> 0)) 0 ds"

text \<open>The escapes of a Python literal; any other character after a backslash stands for itself here.\<close>

function read_escapes :: "ustr \<Rightarrow> ustr" where
  "read_escapes s =
     (case s of
        [] \<Rightarrow> []
      | [c] \<Rightarrow> [c]
      | c # e # r \<Rightarrow>
          if c \<noteq> 92 then c # read_escapes (e # r)
          else if e = 116 then 9 # read_escapes r
          else if e = 110 then 10 # read_escapes r
          else if e = 114 then 13 # read_escapes r
          else if e = 120 then hex_number (take 2 r) # read_escapes (drop 2 r)
          else if e = 117 then hex_number (take 4 r) # read_escapes (drop 4 r)
          else if e = 85 then hex_number (take 8 r) # read_escapes (drop 8 r)
          else e # read_escapes r)"
  by pat_completeness auto
termination
  by (relation "measure length") auto

declare read_escapes.simps [simp del]

lemma hex_text_Suc: "hex_text (Suc w) n = hex_digit (n div 16 ^ w mod 16) # hex_text w n"
  by (simp add: hex_text_def)

lemma hex_text_length: "length (hex_text w n) = w"
  by (simp add: hex_text_def)

lemma hex_number_text: "n < 16 ^ w \<Longrightarrow> hex_number (hex_text w n) = n"
proof -
  have "foldl (\<lambda>n d. 16 * n + (case hex_value d of Some v \<Rightarrow> v | None \<Rightarrow> 0)) a (hex_text w n) = a * 16 ^ w + n mod 16 ^ w" for a
  proof (induction w arbitrary: a)
    case (Suc w)
    have "n mod 16 ^ Suc w = 16 ^ w * (n div 16 ^ w mod 16) + n mod 16 ^ w"
      using mod_mult2_eq [of n "16 ^ w" 16] by (simp add: mult.commute)
    moreover have "hex_value (hex_digit (n div 16 ^ w mod 16)) = Some (n div 16 ^ w mod 16)" by (simp add: hex_value_digit)
    ultimately show ?case unfolding hex_text_Suc foldl_Cons by (simp only: option.case Suc.IH) (simp add: algebra_simps)
  qed (simp add: hex_text_def)
  then show "n < 16 ^ w \<Longrightarrow> hex_number (hex_text w n) = n" by (simp add: hex_number_def)
qed

lemma read_escapes_escape: "read_escapes ([92, e] @ r) =
    (if e = 116 then 9 # read_escapes r else if e = 110 then 10 # read_escapes r else if e = 114 then 13 # read_escapes r
     else if e = 120 then hex_number (take 2 r) # read_escapes (drop 2 r)
     else if e = 117 then hex_number (take 4 r) # read_escapes (drop 4 r)
     else if e = 85 then hex_number (take 8 r) # read_escapes (drop 8 r)
     else e # read_escapes r)"
  by (subst read_escapes.simps) simp

lemma read_escapes_plain: "c \<noteq> 92 \<Longrightarrow> read_escapes (c # r) = c # read_escapes r"
  by (cases r) (simp_all add: read_escapes.simps)

lemma read_escapes_hex:
  "n < 256 \<Longrightarrow> read_escapes (92 # 120 # hex_text 2 n @ r) = n # read_escapes r"
  "n < 65536 \<Longrightarrow> read_escapes (92 # 117 # hex_text 4 n @ r) = n # read_escapes r"
  "n < 4294967296 \<Longrightarrow> read_escapes (92 # 85 # hex_text 8 n @ r) = n # read_escapes r"
  using read_escapes_escape [of 120 "hex_text 2 n @ r"] read_escapes_escape [of 117 "hex_text 4 n @ r"]
    read_escapes_escape [of 85 "hex_text 8 n @ r"] hex_number_text [of n 2] hex_number_text [of n 4] hex_number_text [of n 8]
  by (simp_all add: hex_text_length)

lemma read_escapes_char:
  assumes "quot = 39 \<or> quot = 34" "c < 4294967296"
  shows "read_escapes (escape_char printable quot c @ r) = c # read_escapes r"
  using assms read_escapes_escape [of _ r] by (auto simp: escape_char_def read_escapes_plain read_escapes_hex)

lemma repr_reads_back:
  assumes "list_all (\<lambda>c. c < 4294967296) s"
  shows "read_escapes (butlast (tl (py_repr printable s))) = s"
proof -
  have "quote_of s = 39 \<or> quote_of s = 34" by (simp add: quote_of_def)
  then have "read_escapes (concat (map (escape_char printable (quote_of s)) t)) = t" if "list_all (\<lambda>c. c < 4294967296) t" for t
    using that by (induction t) (simp_all add: read_escapes_char read_escapes.simps [of "[]"])
  from this [OF assms] show ?thesis by (simp add: py_repr_def butlast_append)
qed

section \<open>The access token\<close>

definition same_but_token :: "settings \<Rightarrow> settings \<Rightarrow> bool" where
  "same_but_token st st' \<longleftrightarrow>
     st' = st\<lparr>settings_headers := settings_headers st'\<rparr> \<and> tl (settings_headers st') = tl (settings_headers st)"

lemma rel_bindE:
  "rel_sum (=) R m m' \<Longrightarrow> (\<And>x y. R x y \<Longrightarrow> rel_sum (=) S (f x) (g y)) \<Longrightarrow> rel_sum (=) S (bindE m f) (bindE m' g)"
  by (cases m; cases m') simp_all

lemma rel_same: "rel_sum (=) (=) m m"
  by (simp add: sum.rel_eq)

lemma create_settings_token:
  assumes "py_strip t \<noteq> []" "py_strip t' \<noteq> []"
  shows "rel_sum (=) same_but_token (create_settings pf (VStr t) base_url timeout retry_count)
    (create_settings pf (VStr t') base_url timeout retry_count)"
proof -
  have "validate_access_token (VStr t) = Inr t" "validate_access_token (VStr t') = Inr t'"
    using assms by (simp_all add: validate_access_token_def)
  then show ?thesis
    unfolding create_settings_def by (simp, intro rel_bindE [OF rel_same]) (simp add: same_but_token_def)
qed

lemma same_but_token_repr:
  "same_but_token st st' \<Longrightarrow> settings_repr printable st' = settings_repr printable st \<and> settings_url st' = settings_url st"
  by (cases st; cases st') (simp add: same_but_token_def settings_repr_def)

section \<open>Properties\<close>

text \<open>C40: Two access tokens that are not blank lead to the same error, or to settings that differ in their first header only and
  have the same repr, and to clients with the same repr: no repr tells anything of the token.\<close>

theorem reprs_hide_token:
  assumes "py_strip t \<noteq> []" "py_strip t' \<noteq> []"
  shows "rel_sum (=) (\<lambda>st st'. same_but_token st st' \<and> settings_repr printable st' = settings_repr printable st)
      (create_settings pf (VStr t) base_url timeout retry_count) (create_settings pf (VStr t') base_url timeout retry_count) \<and>
    rel_sum (=) (\<lambda>c c'. client_repr printable c' = client_repr printable c)
      (new_client pf (VStr t) base_url timeout retry_count http) (new_client pf (VStr t') base_url timeout retry_count http) \<and>
    rel_sum (=) (\<lambda>c c'. async_client_repr printable c' = async_client_repr printable c)
      (new_async_client pf (VStr t) base_url timeout retry_count http) (new_async_client pf (VStr t') base_url timeout retry_count http)"
proof (intro conjI)
  note same = create_settings_token [OF assms, of pf base_url timeout retry_count]
  show "rel_sum (=) (\<lambda>st st'. same_but_token st st' \<and> settings_repr printable st' = settings_repr printable st)
      (create_settings pf (VStr t) base_url timeout retry_count) (create_settings pf (VStr t') base_url timeout retry_count)"
    using same by (rule sum.rel_mono_strong) (simp_all add: same_but_token_repr)
  show "rel_sum (=) (\<lambda>c c'. client_repr printable c' = client_repr printable c)
      (new_client pf (VStr t) base_url timeout retry_count http) (new_client pf (VStr t') base_url timeout retry_count http)"
    unfolding new_client_def using same by (rule rel_bindE) (simp add: client_repr_def same_but_token_repr)
  show "rel_sum (=) (\<lambda>c c'. async_client_repr printable c' = async_client_repr printable c)
      (new_async_client pf (VStr t) base_url timeout retry_count http) (new_async_client pf (VStr t') base_url timeout retry_count http)"
    unfolding new_async_client_def using same by (rule rel_bindE) (simp add: async_client_repr_def same_but_token_repr)
qed

theorem reprs_hide_token_example:
  "rel_sum (=) (\<lambda>st st'. same_but_token st st' \<and> settings_repr (\<lambda>_. True) st' = settings_repr (\<lambda>_. True) st)
     (create_settings \<lparr>pf_nfkc_ok = (\<lambda>_. True), pf_bracket_ok = (\<lambda>_. True), pf_python_version = u ''3.12.0''\<rparr>
       (VStr (u ''secret-a'')) DEFAULT_BASE_URL (VInt 3) (VInt 3))
     (create_settings \<lparr>pf_nfkc_ok = (\<lambda>_. True), pf_bracket_ok = (\<lambda>_. True), pf_python_version = u ''3.12.0''\<rparr>
       (VStr (u ''secret-b'')) DEFAULT_BASE_URL (VInt 3) (VInt 3))"
proof -
  have "py_strip (u ''secret-a'') \<noteq> []" "py_strip (u ''secret-b'') \<noteq> []" by (simp_all add: str_eval)
  from reprs_hide_token [OF this] show ?thesis by blast
qed

end
