(* ===== verification/Spec2Isabelle.thy ===== *)
theory Spec2Isabelle
  imports Stripe Requests Surface ManifestChecks ConformanceReport Lifecycle MatrixDates DocsChecks Reprs
begin

text \<open>
  Verification of the Python event SDK (\<open>src/python/src/cekat_event_sdk\<close>) and of the scripts that
  guard its releases (\<open>src/scripts\<close>).

  The program. A client takes an event, builds the JSON body of a request from it and from the visitor of
  the current request, posts it, reads a bounded response, and either returns the acknowledgement or raises
  a typed error; errors that may pass are retried after a delay. Middlewares for ASGI, Django and Flask put
  the visitor of an incoming request into a context variable for the time of the request.

  Python underneath.
  \<^item> \<open>Prelude\<close>: results as sums (\<open>Inl\<close> an exception, \<open>Inr\<close> a value), \<open>bindE\<close>, \<open>mapE\<close>, generic lemmas.
  \<^item> \<open>PyUnicode\<close>, \<open>PyStr\<close>: strings as lists of code points, strip, split, lower, digits.
  \<^item> \<open>PyFloat\<close>, \<open>FloatText\<close>: binary64 with its rounding, and the text of a float.
  \<^item> \<open>PyDict\<close>, \<open>PyValue\<close>: insertion-ordered dictionaries and the values a caller can pass.
  \<^item> \<open>Utf8\<close>, \<open>DateTime\<close>: the codec, instants and their calendar.
  \<^item> \<open>Json\<close>, \<open>JsonHooks\<close>: \<open>json.dumps\<close> and \<open>json.loads\<close>, the second also with hooks that may raise.

  The SDK, a theory per module.
  \<^item> \<open>Context\<close> (\<open>context.py\<close>): extraction of a visitor id; the context variable \<open>ctx\<close> with its tokens;
    \<open>scope_enter\<close> and \<open>scope_exit\<close> for the two halves of \<open>visitor_scope\<close>; a step relation for
    tasks and threads over copies of a context, its invariant by rule induction.
  \<^item> \<open>Stripe\<close> (\<open>stripe.py\<close>), \<open>Errors\<close> (\<open>errors.py\<close>, \<open>models.py\<close>).
  \<^item> \<open>Retry\<close> (\<open>retry.py\<close>): which statuses are retried, the Retry-After date formats, the delay.
  \<^item> \<open>Protocol\<close> (\<open>protocol.py\<close>): \<open>buffer_append\<close>, \<open>parse_json\<close>, \<open>decode_response\<close>, \<open>acknowledge\<close>.
  \<^item> \<open>Validation\<close>, \<open>Normalize\<close>, \<open>Body\<close> (\<open>validation.py\<close>): settings and origin; normalization of
    properties over a heap of objects, so that shared and cyclic containers are as in Python; the payload
    (\<open>payload_fields\<close>, \<open>event_payload\<close>) and its bytes (\<open>build_body\<close>).
  \<^item> \<open>Shared\<close> (\<open>_shared.py\<close>): settings, received responses, transport errors, and the locale \<open>retrying\<close>,
    what a retry loop over single attempts promises.
  \<^item> \<open>Client\<close> (\<open>client.py\<close>) and \<open>AsyncClient\<close> (\<open>async_client.py\<close>): one attempt, the loop, the event
    methods, closing; both are interpretations of \<open>retrying\<close>, and \<open>Calls\<close> draws the properties.
  \<^item> \<open>Reprs\<close>: the \<open>__repr__\<close> methods; a text in a repr reads back, and no repr tells the access token.
  \<^item> \<open>Integrations\<close> (\<open>integrations/\<close>): the three middlewares, interpretations of the locale of a scope
    around a request; a run of Flask hooks in any order.
  \<^item> \<open>Requests\<close>: the SDK at work in a web application. A handler behind a middleware calls a client, in the
    locale \<open>tracking_scope\<close> that extends the one of the middlewares; its requests name its own visitor. The same
    holds of a call from any task, however tasks and threads interleave.
  \<^item> \<open>Surface\<close> (\<open>__init__.py\<close>): the import statements and \<open>__all__\<close>.

  The scripts.
  \<^item> \<open>PackageManifest\<close> models \<open>validate-package-manifest.py\<close>: load, shape, walk, comparison, the run over
    all languages and the command; \<open>ManifestChecks\<close> holds what it establishes.
  \<^item> \<open>Conformance\<close> models \<open>conformance.py\<close>: fixtures, records, their accounting, the readiness of the mock
    server, the run of one language and of all; \<open>ConformanceChecks\<close> holds what it establishes,
    \<open>Interrupts\<close> the handler of a signal and the reading of the table of processes, \<open>ConformanceReport\<close>
    what it prints. \<open>Lifecycle\<close> is the script as a state machine: a step relation over the stage of the main
    thread (\<open>main_step\<close>, \<open>language_step\<close>, \<open>runner_step\<close>), the list \<open>active\<close>, the processes alive and the
    working directory, in which a signal (\<open>signal_step\<close>) may come between any two steps; its invariant is by
    rule induction.
  \<^item> \<open>MatrixText\<close> and \<open>Matrix\<close> model \<open>validate-compatibility-matrix.py\<close>: the first reads dates, package
    metadata and workflows, the second checks the parts of an entry, the entries, the dates, and has the
    report and the command. \<open>MatrixChecks\<close> holds the type of an accepted matrix, its agreement with the
    repository and the gates of the dates; \<open>MatrixDates\<close> the texts of dates; \<open>MatrixSample\<close> a matrix that
    is accepted, checked in the logic.
  \<^item> \<open>Docs\<close> models \<open>audit-docs.py\<close>: patterns, prose, anchors, links, terms, the generated page, the audit and
    the command; \<open>DocsChecks\<close> spells out the texts no document may hold and shows that each is reported,
    and says what a clean document and a passed audit are.
  \<^item> \<open>PyLines\<close>, \<open>PyRegex\<close>: the string methods only the scripts use, and their regular expressions: a
    backtracking matcher, the relation a pattern denotes, and the proof that the matcher computes it.

  What is shown. Bounds: a call makes at most the configured number of attempts and opens and closes one
  response for each (\<open>calls_are_bounded\<close>); termination (\<open>calls_end\<close>, the loop falls with the attempts that
  are left). Functional behaviour: which events have a body and what it says; which responses count as an
  acknowledgement; which properties normalize; which directory passes the manifest check; when the audit of
  the documents passes. Types: the shape of an accepted matrix. Refinement and
  equivalence: both clients against one contract and against each other. Invariants and safety: scopes
  restore the visitor, requests do not leak it, what a handler sends names the visitor of its request, Flask
  hooks never fail, an accepted path stays below its directory, an ended conformance run leaves nothing behind
  but what a signal met between a start and its listing. Round trips: acknowledgements, timestamps, the codec and the JSON texts. Errors: the class
  and content of the error for each kind of failure, and the exceptions that no handler catches.

  Fuel and bounds. The JSON readers take fuel; twice the length of the text and two are enough
  (\<open>loads_no_fuel\<close>, \<open>hooked_loads_fuel\<close>). How deep the interpreter recurses before \<open>RecursionError\<close> is an
  argument. The normalizer stops at \<open>MAX_DEPTH\<close>. The loops of both clients fall with the remaining retries.

  Arguments of the model. The HTTP library, the clocks, the sleep and the random generator are a record of
  \<open>surroundings\<close> whose answers may depend on the whole history of a call; the cancel scope of the
  asynchronous client is a part of it. The NFKC check and the check of bracketed hosts in \<open>urlsplit\<close> and the
  Python version are arguments of \<open>platform\<close>. The digest of a file and the tree of a directory are
  arguments of the manifest check. What the processes, files and the clock do during a conformance run is a
  record of \<open>happenings\<close>; a polling loop that has not ended within its rounds has no result, and it ends
  with the round whose time reaches the deadline (\<open>polling_ends\<close>). The scripts on the matrix and the documents
  take the Unicode database, the text of a list or an object and the nesting limit as a \<open>host\<close>, and the
  repository as a function from paths to texts, or to nodes where links are followed; there are no
  symbolic links. The matcher needs no fuel, as a repetition goes on only after a pattern that consumed.

  Not modelled: the lowercase of a final sigma; the texts of the messages of the scripts other than
  \<open>conformance.py\<close>; argument parsers; the arguments with which \<open>conformance.py\<close> starts its processes, besides
  the environment; a second signal while it handles one, and a failure of the removal, of \<open>ps\<close> or of the
  message inside that handler; processes that the compiler of the mock server starts; a directory that
  \<open>os.walk\<close> cannot read and skips; a mapping whose \<open>items\<close> raises, a time zone whose \<open>utcoffset\<close> raises, and a
  caller that is already so deep on the stack that normalizing meets \<open>RecursionError\<close>; the loading of one
  script as a module by another. \<open>flask_request\<close> is Flask's own dispatch: it calls the two hooks of the
  extension around a view and stands for no code of the repository. How the C library pads the year of a time is the argument
  \<open>env_year_width\<close>: the text of a time reads back with padding to four digits, and from the year 1000 on
  without it.

  Where a property leaves out a case, the code behaves otherwise there: a number of seconds below six that is
  written with ten digits or more is refused (\<open>padded_seconds_refused\<close>); a mock server that ends on its own
  just before it is stopped goes unnoticed (\<open>late_death_unnoticed\<close>); a path of a drive with one backslash is
  not found (\<open>drive_path_unseen\<close>).
\<close>

end
